(* ===== verification/Prelude.thy ===== *)
theory Prelude
  imports "HOL-Library.Word"
begin

text \<open>
  Shared vocabulary of the development: the machine integers of the Rust code, results of
  fallible operations (\<open>Result<T, E>\<close> as a sum, the error on the left) with the early
  return of the \<open>?\<close> operator, the mathematical meaning of big-endian byte strings, and the
  generic list lemmas the components share.

  \<open>usize\<close> is \<open>nat\<close>: the sources compute with it on lengths and on values widened from
  \<open>u16\<close>, \<open>u32\<close> or \<open>u64\<close>, on a target whose \<open>usize\<close> has 64 bits; the components state
  the bounds that keep every such computation below \<open>2 ^ 64\<close>. Every other width is a word.
\<close>

unbundle bit_operations_syntax

named_theorems codec_simps \<open>equations that evaluate readers and writers of integers\<close>
named_theorems cursor_simps \<open>equations that evaluate cursor operations on byte lists\<close>
named_theorems keeps \<open>frame facts: what an operation leaves unchanged\<close>
named_theorems shrinks \<open>an operation consumes input from the connection\<close>

type_synonym u8 = "8 word"
type_synonym u16 = "16 word"
type_synonym u32 = "32 word"
type_synonym u64 = "64 word"
type_synonym usize = nat
type_synonym bytes = "u8 list"

text \<open>Positions stay numerals: \<open>n + 2\<close> is not rewritten to successors.\<close>

declare add_2_eq_Suc [simp del] add_2_eq_Suc' [simp del]

section \<open>Results\<close>

abbreviation Ok :: "'a \<Rightarrow> 'e + 'a" where "Ok \<equiv> Inr"
abbreviation Err :: "'e \<Rightarrow> 'e + 'a" where "Err \<equiv> Inl"

text \<open>\<open>bind_r m f\<close> is \<open>let x = m?; f(x)\<close>: an error returns at once.\<close>

fun bind_r :: "'e + 'a \<Rightarrow> ('a \<Rightarrow> 'e + 'b) \<Rightarrow> 'e + 'b" where
  "bind_r (Inl e) f = Inl e"
| "bind_r (Inr a) f = f a"

text \<open>\<open>map_err\<close> converts the error, as \<open>Result::map_err\<close> and the \<open>From\<close> step of \<open>?\<close> do.\<close>

fun map_err :: "('e \<Rightarrow> 'f) \<Rightarrow> 'e + 'a \<Rightarrow> 'f + 'a" where
  "map_err g (Inl e) = Inl (g e)"
| "map_err g (Inr a) = Inr a"

fun is_ok :: "'e + 'a \<Rightarrow> bool" where
  "is_ok (Inl e) = False"
| "is_ok (Inr a) = True"

lemma bind_r_eq_Ok: "bind_r m f = Inr b \<longleftrightarrow> (\<exists>a. m = Inr a \<and> f a = Inr b)"
  by (cases m) auto

lemma bind_r_eq_Err: "bind_r m f = Inl e \<longleftrightarrow> m = Inl e \<or> (\<exists>a. m = Inr a \<and> f a = Inl e)"
  by (cases m) auto

lemma map_err_eq_Ok [simp]: "map_err g m = Inr a \<longleftrightarrow> m = Inr a"
  by (cases m) auto

lemma map_err_eq_Err: "map_err g m = Inl e \<longleftrightarrow> (\<exists>e'. m = Inl e' \<and> e = g e')"
  by (cases m) auto

lemma is_ok_iff: "is_ok m \<longleftrightarrow> (\<exists>a. m = Inr a)"
  by (cases m) auto

lemma bind_r_assoc: "bind_r (bind_r m f) g = bind_r m (\<lambda>x. bind_r (f x) g)"
  by (cases m) auto

lemma bind_r_cong [fundef_cong]:
  "m = m' \<Longrightarrow> (\<And>a. m' = Inr a \<Longrightarrow> f a = f' a) \<Longrightarrow> bind_r m f = bind_r m' f'"
  by (cases m') auto

lemma unat_word_of_nat: "n < 2 ^ LENGTH('a) \<Longrightarrow> unat (word_of_nat n :: 'a::len word) = n"
  by (simp add: unsigned_of_nat take_bit_nat_eq_self)

lemma dvd_4_Suc [simp]: "4 dvd Suc (Suc (Suc (Suc n))) \<longleftrightarrow> 4 dvd n"
  by presburger

section \<open>Big-endian byte strings\<close>

text \<open>
  The reference meaning of the wire format: \<open>be_value\<close> reads a byte string as a number, most
  significant byte first; \<open>be_bytes n x\<close> is the \<open>n\<close>-byte string of \<open>x\<close>.
\<close>

definition be_value :: "bytes \<Rightarrow> nat" where
  "be_value bs = foldl (\<lambda>a b. a * 256 + unat b) 0 bs"

primrec be_bytes :: "nat \<Rightarrow> nat \<Rightarrow> bytes" where
  "be_bytes 0 x = []"
| "be_bytes (Suc n) x = be_bytes n (x div 256) @ [word_of_nat x]"

lemma be_bytes_numeral [codec_simps]:
  "be_bytes (numeral k) x = be_bytes (pred_numeral k) (x div 256) @ [word_of_nat x]"
  by (subst numeral_eq_Suc) (rule be_bytes.simps(2))

lemma be_value_Nil [simp]: "be_value [] = 0"
  by (simp add: be_value_def)

lemma be_value_snoc [simp]: "be_value (bs @ [b]) = be_value bs * 256 + unat b"
  by (simp add: be_value_def)

lemma length_be_bytes [simp]: "length (be_bytes n x) = n"
  by (induction n arbitrary: x) auto

lemma unat_byte_less: "unat (b :: u8) < 256"
  using unsigned_less [of b] by simp

lemma byte_256: "(256 :: u8) = 0"
  by (rule word_eq_iff_unsigned [THEN iffD2]) simp

lemma be_value_bound: "be_value bs < 256 ^ length bs"
proof (induction bs rule: rev_induct)
  case Nil
  then show ?case by simp
next
  case (snoc b bs)
  then have "be_value bs * 256 + unat b < (be_value bs + 1) * 256"
    using unat_byte_less [of b] by simp
  also have "\<dots> \<le> 256 ^ length bs * 256"
    using snoc by (intro mult_right_mono) auto
  finally show ?case by simp
qed

lemma unat_u32_less: "unat (x :: u32) < 2 ^ 32"
  using unsigned_less [of x] by simp

lemma unat_u64_less: "unat (x :: u64) < 2 ^ 64"
  using unsigned_less [of x] by simp

lemma be_value_be_bytes: "be_value (be_bytes n x) = x mod 256 ^ n"
proof (induction n arbitrary: x)
  case 0
  then show ?case by simp
next
  case (Suc n)
  have "x mod (256 * 256 ^ n) = 256 * (x div 256 mod 256 ^ n) + x mod 256"
    by (rule mod_mult2_eq)
  then show ?case
    by (simp add: Suc unat_of_nat)
qed

lemma be_bytes_be_value: "be_bytes (length bs) (be_value bs) = bs"
proof (induction bs rule: rev_induct)
  case Nil
  then show ?case by simp
next
  case (snoc b bs)
  have "(be_value bs * 256 + unat b) div 256 = be_value bs"
    using unat_byte_less [of b] by simp
  moreover have "(word_of_nat (be_value bs * 256 + unat b) :: u8) = b"
    by (simp add: byte_256)
  ultimately show ?case
    using snoc by simp
qed

end
