(* ===== verification/Rust_Std.thy ===== *)
theory Rust_Std
  imports Prelude
begin

text \<open>
  The parts of Rust's standard library the sources compute with: \<open>io::Error\<close>, \<open>Cursor\<close> over
  a byte slice, UTF-8 validation and lossy decoding, and the number formats of \<open>format!\<close>.
  A Rust \<open>String\<close> is its UTF-8 bytes, as an Isabelle \<open>string\<close> (one \<open>char\<close> per byte).
\<close>

section \<open>I/O errors\<close>

datatype io_kind = TimedOut | Interrupted | WouldBlock | UnexpectedEof | NotFound | InvalidInput
  | InvalidData | PermissionDenied | ConnectionRefused | ConnectionReset | BrokenPipe
  | AddrInUse | StorageFull | OtherKind

text \<open>\<open>io_text\<close> is what the error's \<open>Display\<close> prints.\<close>

record io_error =
  io_kind :: io_kind
  io_text :: string

definition eof_error :: io_error where
  "eof_error = \<lparr>io_kind = UnexpectedEof, io_text = ''failed to fill whole buffer''\<rparr>"

definition zero_timeout_error :: io_error where
  "zero_timeout_error = \<lparr>io_kind = InvalidInput, io_text = ''cannot set a 0 duration timeout''\<rparr>"

definition invalid_utf8_error :: io_error where
  "invalid_utf8_error =
     \<lparr>io_kind = InvalidData, io_text = ''stream did not contain valid UTF-8''\<rparr>"

definition not_found_error :: io_error where
  "not_found_error =
     \<lparr>io_kind = NotFound, io_text = ''No such file or directory (os error 2)''\<rparr>"

definition bad_handle_error :: io_error where
  "bad_handle_error = \<lparr>io_kind = OtherKind, io_text = ''Bad file descriptor (os error 9)''\<rparr>"

lemma io_kind_consts [simp]:
  "io_kind eof_error = UnexpectedEof"
  "io_kind zero_timeout_error = InvalidInput"
  "io_kind invalid_utf8_error = InvalidData"
  "io_kind not_found_error = NotFound"
  "io_kind bad_handle_error = OtherKind"
  by (simp_all add: eof_error_def zero_timeout_error_def invalid_utf8_error_def
      not_found_error_def bad_handle_error_def)

section \<open>Cursor\<close>

text \<open>
  \<open>io::Cursor<&[u8]>\<close>: \<open>read_exact\<close> either yields the next \<open>n\<close> bytes and advances, or fails
  with \<open>UnexpectedEof\<close>. The position may be set past the end.
\<close>

record cursor =
  cur_data :: bytes
  cur_pos :: nat

definition cursor_new :: "bytes \<Rightarrow> cursor" where
  "cursor_new d = \<lparr>cur_data = d, cur_pos = 0\<rparr>"

definition set_position :: "nat \<Rightarrow> cursor \<Rightarrow> cursor" where
  "set_position p c = c\<lparr>cur_pos := p\<rparr>"

definition remaining :: "cursor \<Rightarrow> bytes" where
  "remaining c = drop (cur_pos c) (cur_data c)"

definition cursor_read_exact :: "nat \<Rightarrow> cursor \<Rightarrow> io_error + (bytes \<times> cursor)" where
  "cursor_read_exact n c =
     (if length (remaining c) < n then Err eof_error
      else Ok (take n (remaining c), c\<lparr>cur_pos := cur_pos c + n\<rparr>))"

lemma remaining_new [simp]: "remaining (cursor_new d) = d"
  by (simp add: remaining_def cursor_new_def)

lemma cur_pos_new [simp]: "cur_pos (cursor_new d) = 0"
  by (simp add: cursor_new_def)

lemma cur_data_new [simp]: "cur_data (cursor_new d) = d"
  by (simp add: cursor_new_def)

lemma remaining_set_position [simp]: "remaining (set_position p c) = drop p (cur_data c)"
  by (simp add: remaining_def set_position_def)

lemma set_position_sel [simp]:
  "cur_pos (set_position p c) = p" "cur_data (set_position p c) = cur_data c"
  by (simp_all add: set_position_def)

lemma remaining_advance [simp]: "remaining (c\<lparr>cur_pos := cur_pos c + n\<rparr>) = drop n (remaining c)"
  by (simp add: remaining_def add.commute)

lemma remaining_at: "remaining (c\<lparr>cur_pos := p\<rparr>) = drop p (cur_data c)"
  by (simp add: remaining_def)

lemma cursor_read_exact_Ok [cursor_simps]:
  "cursor_read_exact n c = Ok (bs, c') \<longleftrightarrow>
     n \<le> length (remaining c) \<and> bs = take n (remaining c) \<and> c' = c\<lparr>cur_pos := cur_pos c + n\<rparr>"
  by (auto simp: cursor_read_exact_def)

lemma cursor_read_exact_Err:
  "cursor_read_exact n c = Err e \<longleftrightarrow> length (remaining c) < n \<and> e = eof_error"
  by (auto simp: cursor_read_exact_def)

text \<open>A cursor in the middle of its data: \<open>pre\<close> was read, \<open>suf\<close> is to come.\<close>

definition split_cursor :: "bytes \<Rightarrow> bytes \<Rightarrow> cursor" where
  "split_cursor pre suf = \<lparr>cur_data = pre @ suf, cur_pos = length pre\<rparr>"

lemma split_cursor_sel [simp]:
  "remaining (split_cursor pre suf) = suf" "cur_data (split_cursor pre suf) = pre @ suf"
  "cur_pos (split_cursor pre suf) = length pre"
  by (simp_all add: split_cursor_def remaining_def)

lemma cursor_new_split: "cursor_new d = split_cursor [] d"
  by (simp add: cursor_new_def split_cursor_def)

lemma set_position_split:
  "n = length pre \<Longrightarrow> set_position n (cursor_new (pre @ suf)) = split_cursor pre suf"
  by (simp add: set_position_def cursor_new_def split_cursor_def)

section \<open>UTF-8\<close>

text \<open>
  One step of the decoder of \<open>core::str\<close>: at the head of the input there is a well-formed
  character of \<open>w\<close> bytes, or an ill-formed sequence of \<open>n\<close> bytes, or the start of a
  character that the input cuts off.
\<close>

datatype utf8_item = Good nat | Bad nat | Cut

definition is_cont :: "u8 \<Rightarrow> bool" where
  "is_cont b \<longleftrightarrow> 0x80 \<le> b \<and> b \<le> 0xBF"

definition second_ok :: "u8 \<Rightarrow> u8 \<Rightarrow> bool" where
  "second_ok b0 b1 \<longleftrightarrow>
     (if b0 = 0xE0 then 0xA0 \<le> b1 \<and> b1 \<le> 0xBF
      else if b0 = 0xED then 0x80 \<le> b1 \<and> b1 \<le> 0x9F
      else if b0 = 0xF0 then 0x90 \<le> b1 \<and> b1 \<le> 0xBF
      else if b0 = 0xF4 then 0x80 \<le> b1 \<and> b1 \<le> 0x8F
      else is_cont b1)"

definition utf8_width :: "u8 \<Rightarrow> nat" where
  "utf8_width b =
     (if b \<le> 0x7F then 1
      else if 0xC2 \<le> b \<and> b \<le> 0xDF then 2
      else if 0xE0 \<le> b \<and> b \<le> 0xEF then 3
      else if 0xF0 \<le> b \<and> b \<le> 0xF4 then 4
      else 0)"

fun utf8_tail :: "nat \<Rightarrow> nat \<Rightarrow> bytes \<Rightarrow> utf8_item" where
  \<comment> \<open>\<open>k\<close> continuation bytes are still due after \<open>n\<close> good bytes\<close>
  "utf8_tail n 0 bs = Good n"
| "utf8_tail n (Suc k) [] = Cut"
| "utf8_tail n (Suc k) (b # bs) = (if is_cont b then utf8_tail (Suc n) k bs else Bad n)"

fun utf8_next :: "u8 \<Rightarrow> bytes \<Rightarrow> utf8_item" where
  "utf8_next b0 bs =
     (let w = utf8_width b0 in
      if w = 0 then Bad 1
      else if w = 1 then Good 1
      else case bs of
             [] \<Rightarrow> Cut
           | b1 # rest \<Rightarrow> if second_ok b0 b1 then utf8_tail 2 (w - 2) rest else Bad 1)"

lemma utf8_tail_len:
  "utf8_tail n k bs = Good m \<Longrightarrow> m = n + k \<and> k \<le> length bs"
  "utf8_tail n k bs = Bad m \<Longrightarrow> n \<le> m \<and> m < n + k"
  by (induction n k bs rule: utf8_tail.induct) (auto split: if_splits)

declare utf8_next.simps [simp del]

lemma utf8_next_Good_pos:
  assumes "utf8_next b bs = Good m"
  shows "0 < m"
proof -
  have "utf8_width b = 1 \<and> m = 1 \<or> (\<exists>b1 r. bs = b1 # r \<and> utf8_tail 2 (utf8_width b - 2) r = Good m)"
    using assms by (auto simp: utf8_next.simps Let_def split: if_splits list.splits)
  then show ?thesis using utf8_tail_len(1) by fastforce
qed

lemma utf8_next_Bad_pos:
  assumes "utf8_next b bs = Bad m"
  shows "0 < m"
proof -
  have "m = 1 \<or> (\<exists>b1 r. bs = b1 # r \<and> utf8_tail 2 (utf8_width b - 2) r = Bad m)"
    using assms by (auto simp: utf8_next.simps Let_def split: if_splits list.splits)
  then show ?thesis using utf8_tail_len(2) by fastforce
qed

text \<open>\<open>FromUtf8Error\<close>: how many bytes are well formed, and the length of the bad sequence.\<close>

record utf8_error =
  valid_up_to :: nat
  error_len :: "nat option"

function utf8_check :: "nat \<Rightarrow> bytes \<Rightarrow> utf8_error + unit" where
  "utf8_check i [] = Ok ()"
| "utf8_check i (b # bs) =
     (case utf8_next b bs of
        Good w \<Rightarrow> utf8_check (i + w) (drop w (b # bs))
      | Bad n \<Rightarrow> Err \<lparr>valid_up_to = i, error_len = Some n\<rparr>
      | Cut \<Rightarrow> Err \<lparr>valid_up_to = i, error_len = None\<rparr>)"
  by pat_completeness auto
termination
  by (relation "measure (\<lambda>(i, bs). length bs)") (auto dest: utf8_next_Good_pos)

definition string_of_bytes :: "bytes \<Rightarrow> string" where
  "string_of_bytes bs = map (\<lambda>b. char_of (unat b)) bs"

definition bytes_of_string :: "string \<Rightarrow> bytes" where
  "bytes_of_string s = map (\<lambda>c. word_of_nat (of_char c)) s"

text \<open>\<open>String::from_utf8\<close>\<close>

definition from_utf8 :: "bytes \<Rightarrow> utf8_error + string" where
  "from_utf8 bs = bind_r (utf8_check 0 bs) (\<lambda>_. Ok (string_of_bytes bs))"

text \<open>\<open>String::from_utf8_lossy\<close>: each ill-formed sequence becomes U+FFFD (EF BF BD).\<close>

function utf8_lossy :: "bytes \<Rightarrow> bytes" where
  "utf8_lossy [] = []"
| "utf8_lossy (b # bs) =
     (case utf8_next b bs of
        Good w \<Rightarrow> take w (b # bs) @ utf8_lossy (drop w (b # bs))
      | Bad n \<Rightarrow> [0xEF, 0xBF, 0xBD] @ utf8_lossy (drop n (b # bs))
      | Cut \<Rightarrow> [0xEF, 0xBF, 0xBD])"
  by pat_completeness auto
termination
  by (relation "measure length") (auto dest: utf8_next_Good_pos utf8_next_Bad_pos)

lemma string_bytes_inverse [simp]: "bytes_of_string (string_of_bytes bs) = bs"
  by (induction bs) (auto simp: bytes_of_string_def string_of_bytes_def mod_less [OF unat_byte_less])

lemma bytes_string_inverse [simp]: "string_of_bytes (bytes_of_string s) = s"
  by (induction s) (auto simp: bytes_of_string_def string_of_bytes_def unat_of_nat)

lemma string_of_bytes_inject [simp]: "string_of_bytes a = string_of_bytes b \<longleftrightarrow> a = b"
  by (metis string_bytes_inverse)

lemma utf8_next_ascii: "b \<le> 0x7F \<Longrightarrow> utf8_next b bs = Good 1"
  by (simp add: utf8_next.simps utf8_width_def)

lemma utf8_check_ascii: "\<forall>b \<in> set bs. b \<le> 0x7F \<Longrightarrow> utf8_check i bs = Ok ()"
  by (induction bs arbitrary: i) (auto simp: utf8_next_ascii)

lemma utf8_lossy_valid: "utf8_check i bs = Ok () \<Longrightarrow> utf8_lossy bs = bs"
  by (induction i bs rule: utf8_check.induct) (auto split: utf8_item.splits)

section \<open>Number formats\<close>

text \<open>\<open>{}\<close> of an unsigned integer, and \<open>{:02X}\<close> / \<open>{:04X}\<close>.\<close>

definition digit_char :: "nat \<Rightarrow> char" where
  "digit_char d = char_of (if d < 10 then 48 + d else 55 + d)"

fun digits_rev :: "nat \<Rightarrow> nat \<Rightarrow> string" where
  "digits_rev b n =
     (if b \<le> 1 \<or> n < b then [digit_char n] else digit_char (n mod b) # digits_rev b (n div b))"

declare digits_rev.simps [simp del]

definition dec :: "nat \<Rightarrow> string" where
  "dec n = rev (digits_rev 10 n)"

definition hex_pad :: "nat \<Rightarrow> nat \<Rightarrow> string" where
  "hex_pad w n = (let s = rev (digits_rev 16 n) in replicate (w - length s) (CHR ''0'') @ s)"

end
