(* ===== verification/Errors.thy ===== *)
theory Errors
  imports Rust_Std
begin

text \<open>
  \<open>src/error.rs\<close>: the error type of every public operation, its \<open>Display\<close> text, its
  \<open>source\<close>, and the three \<open>From\<close> conversions that the \<open>?\<close> operator applies. An
  \<open>AddrParseError\<close> is the text it prints; a \<open>FromUtf8Error\<close> is the position and length of the
  ill-formed sequence.
\<close>

datatype addr_parse_error = AddrParseError string

datatype ptpip_error =
    Io io_error
  | AddrParse addr_parse_error
  | ProtocolError string
  | DeviceError u32 string
  | SessionError string
  | StringEncoding utf8_error
  | InvalidResumeData
  | DownloadCancelled
  | Timeout
  | Other string

definition display_utf8_error :: "utf8_error \<Rightarrow> string" where
  "display_utf8_error e =
     (case error_len e of
        Some n \<Rightarrow> ''invalid utf-8 sequence of '' @ dec n @ '' bytes from index '' @ dec (valid_up_to e)
      | None \<Rightarrow> ''incomplete utf-8 byte sequence from index '' @ dec (valid_up_to e))"

fun display_error :: "ptpip_error \<Rightarrow> string" where
  "display_error (Io e) = ''IO error: '' @ io_text e"
| "display_error (AddrParse (AddrParseError t)) = ''Address parsing error: '' @ t"
| "display_error (ProtocolError msg) = ''Protocol error: '' @ msg"
| "display_error (DeviceError code message) =
     ''Device error (0x'' @ hex_pad 4 (unat code) @ ''): '' @ message"
| "display_error (SessionError msg) = ''Session error: '' @ msg"
| "display_error (StringEncoding e) = ''String encoding error: '' @ display_utf8_error e"
| "display_error InvalidResumeData = ''Invalid resume data''"
| "display_error DownloadCancelled = ''Download cancelled''"
| "display_error Timeout = ''Operation timed out''"
| "display_error (Other msg) = ''Error: '' @ msg"

datatype error_source = IoSource io_error | AddrSource addr_parse_error | Utf8Source utf8_error

fun source_of :: "ptpip_error \<Rightarrow> error_source option" where
  "source_of (Io e) = Some (IoSource e)"
| "source_of (AddrParse e) = Some (AddrSource e)"
| "source_of (StringEncoding e) = Some (Utf8Source e)"
| "source_of _ = None"

definition from_io_error :: "io_error \<Rightarrow> ptpip_error" where
  "from_io_error err = (if io_kind err = TimedOut then Timeout else Io err)"

definition from_addr_parse_error :: "addr_parse_error \<Rightarrow> ptpip_error" where
  "from_addr_parse_error err = AddrParse err"

definition from_utf8_error :: "utf8_error \<Rightarrow> ptpip_error" where
  "from_utf8_error err = StringEncoding err"

text \<open>\<open>try_io m\<close> is \<open>m?\<close> on an \<open>io::Result\<close> inside a function that returns \<open>PtpIpError\<close>.\<close>

abbreviation try_io :: "io_error + 'a \<Rightarrow> ptpip_error + 'a" where
  "try_io \<equiv> map_err from_io_error"

lemma from_io_error_simps [simp]:
  "io_kind e = TimedOut \<Longrightarrow> from_io_error e = Timeout"
  "io_kind e \<noteq> TimedOut \<Longrightarrow> from_io_error e = Io e"
  by (simp_all add: from_io_error_def)

lemma from_io_error_eof [simp]: "from_io_error eof_error = Io eof_error"
  by simp

lemma from_io_error_eq_Timeout: "from_io_error e = Timeout \<longleftrightarrow> io_kind e = TimedOut"
  by (simp add: from_io_error_def)

lemma from_io_error_neq [simp]:
  "from_io_error e \<noteq> ProtocolError m" "from_io_error e \<noteq> DeviceError c m"
  "from_io_error e \<noteq> StringEncoding u" "from_io_error e \<noteq> InvalidResumeData"
  "from_io_error e \<noteq> Other m"
  by (simp_all add: from_io_error_def)

text \<open>
  An I/O error becomes \<open>Timeout\<close> exactly when its kind is \<open>TimedOut\<close>; every other kind,
  among them the \<open>WouldBlock\<close> that Unix reports for an expired socket timeout, is kept inside
  \<open>Io\<close> and stays reachable as the error's source.
\<close>

theorem from_io_error_classifies:
  "from_io_error e =
     (case io_kind e of TimedOut \<Rightarrow> Timeout | _ \<Rightarrow> Io e) \<and>
   source_of (from_io_error e) =
     (if io_kind e = TimedOut then None else Some (IoSource e))"
  by (simp add: from_io_error_def split: io_kind.split)

end
