(* ===== verification/Types.thy ===== *)
theory Types
  imports Errors
begin

text \<open>
  \<open>src/types.rs\<close>: protocol constants, configuration, the wire enumerations with their
  \<open>repr(u16)\<close> codes, and the records the other modules exchange. Durations are in
  nanoseconds where they become \<open>Duration\<close> values.
\<close>

definition PTPIP_HEADER_SIZE :: usize where "PTPIP_HEADER_SIZE = 10"
definition PTPIP_DEFAULT_PORT :: u16 where "PTPIP_DEFAULT_PORT = 15740"
definition PTPIP_MAX_PACKET_SIZE :: usize where "PTPIP_MAX_PACKET_SIZE = 16384"

record session_config =
  cfg_timeout :: u64
  max_retries :: usize
  retry_delay_ms :: u64
  keep_alive_interval :: u64
  version :: u16

definition default_session_config :: session_config where
  "default_session_config =
     \<lparr>cfg_timeout = 30, max_retries = 3, retry_delay_ms = 1000, keep_alive_interval = 10,
      version = 0x0100\<rparr>"

datatype session_handle = SessionHandle u32

fun session_handle_new :: "u32 \<Rightarrow> session_handle" where
  "session_handle_new v = SessionHandle v"

fun as_u32 :: "session_handle \<Rightarrow> u32" where
  "as_u32 (SessionHandle v) = v"

definition default_session_handle :: session_handle where
  "default_session_handle = SessionHandle 0"

definition session_handle_is_valid :: "session_handle \<Rightarrow> bool" where
  "session_handle_is_valid h \<longleftrightarrow> as_u32 h \<noteq> 0"

definition session_handle_invalid :: session_handle where
  "session_handle_invalid = SessionHandle 0"

record download_stats =
  total_bytes :: u64
  downloaded_bytes :: u64
  chunks :: usize
  retries :: usize
  duration_ms :: u64

definition default_download_stats :: download_stats where
  "default_download_stats =
     \<lparr>total_bytes = 0, downloaded_bytes = 0, chunks = 0, retries = 0, duration_ms = 0\<rparr>"

datatype message_type = DiscoveryRequest | DiscoveryResponse | CommandBlock | DataBlock
  | ResponseBlock | EventBlock

fun message_code :: "message_type \<Rightarrow> u16" where
  "message_code DiscoveryRequest = 0x0001"
| "message_code DiscoveryResponse = 0x0002"
| "message_code CommandBlock = 0x0003"
| "message_code DataBlock = 0x0004"
| "message_code ResponseBlock = 0x0005"
| "message_code EventBlock = 0x0006"

datatype operation_code = OpOk | GetDeviceInfo | OpenSession | CloseSession | GetStorageIDs
  | GetStorageInfo | GetObjectHandles | GetObjectInfo | GetObject | GetThumb | DeleteObject
  | MoveObject | GetDevicePropValue | SetDevicePropValue | InitiateCapture | GetPartialObject
  | GetObjectMetadata | SetObjectMetadata

fun opcode :: "operation_code \<Rightarrow> u16" where
  "opcode OpOk = 0x2001"
| "opcode GetDeviceInfo = 0x1001"
| "opcode OpenSession = 0x1002"
| "opcode CloseSession = 0x1003"
| "opcode GetStorageIDs = 0x1004"
| "opcode GetStorageInfo = 0x1005"
| "opcode GetObjectHandles = 0x1006"
| "opcode GetObjectInfo = 0x1007"
| "opcode GetObject = 0x1008"
| "opcode GetThumb = 0x1009"
| "opcode DeleteObject = 0x1011"
| "opcode MoveObject = 0x1012"
| "opcode GetDevicePropValue = 0x1014"
| "opcode SetDevicePropValue = 0x1015"
| "opcode InitiateCapture = 0x100E"
| "opcode GetPartialObject = 0x101B"
| "opcode GetObjectMetadata = 0x1023"
| "opcode SetObjectMetadata = 0x1024"

datatype event_type = ObjectAdded | ObjectRemoved | StoreAdded | StoreRemoved
  | DevicePropChanged | RequestObjectTransfer

fun event_code :: "event_type \<Rightarrow> u16" where
  "event_code ObjectAdded = 0x4001"
| "event_code ObjectRemoved = 0x4002"
| "event_code StoreAdded = 0x4003"
| "event_code StoreRemoved = 0x4004"
| "event_code DevicePropChanged = 0x4005"
| "event_code RequestObjectTransfer = 0x4006"

text \<open>\<open>Ipv4Addr\<close> is its four octets.\<close>

datatype ipv4 = Ipv4 u8 u8 u8 u8

record discovered_camera =
  ip_address :: ipv4
  cam_port :: u16
  model_name :: string
  vendor_extension_id :: u32
  vendor_extension_version :: u16

record packet =
  pkt_type :: message_type
  pkt_tid :: u32
  payload :: bytes

record device_info =
  manufacturer :: string
  dev_model :: string
  device_version :: string
  serial_number :: string
  supported_operations :: "u16 list"

record storage_info =
  storage_id :: u32
  storage_type :: u16
  filesystem_type :: u16
  access_capability :: u16
  max_capacity :: u64
  free_space_in_bytes :: u64
  free_space_in_objects :: u32
  storage_description :: string
  volume_label :: string

record object_info =
  obj_handle :: u32
  obj_storage_id :: u32
  object_format :: u16
  protection_status :: u8
  object_size :: u64
  thumb_size :: u32
  filename :: string
  capture_date :: string
  modification_date :: string
  obj_keywords :: string

record ptp_event =
  ev_type :: event_type
  ev_tid :: u32
  parameters :: "u32 list"

text \<open>\<open>CCameraInfo\<close>: the name is a C string, by its address on the C heap, or null.\<close>

record c_camera =
  c_ip_address :: bytes
  c_port :: u16
  c_model_name :: "nat option"
  c_vendor_id :: u32

definition ipv4_to_bytes :: "ipv4 \<Rightarrow> bytes" where
  "ipv4_to_bytes ip = (case ip of Ipv4 a b c d \<Rightarrow> [a, b, c, d])"

definition opcode_to_enum :: "u16 \<Rightarrow> operation_code option" where
  "opcode_to_enum code =
     (if code = 0x2001 then Some OpOk
      else if code = 0x1001 then Some GetDeviceInfo
      else if code = 0x1002 then Some OpenSession
      else if code = 0x1003 then Some CloseSession
      else if code = 0x1004 then Some GetStorageIDs
      else if code = 0x1005 then Some GetStorageInfo
      else if code = 0x1006 then Some GetObjectHandles
      else if code = 0x1007 then Some GetObjectInfo
      else if code = 0x1008 then Some GetObject
      else if code = 0x1009 then Some GetThumb
      else if code = 0x1011 then Some DeleteObject
      else if code = 0x1012 then Some MoveObject
      else if code = 0x1014 then Some GetDevicePropValue
      else if code = 0x1015 then Some SetDevicePropValue
      else if code = 0x100E then Some InitiateCapture
      else if code = 0x101B then Some GetPartialObject
      else if code = 0x1023 then Some GetObjectMetadata
      else if code = 0x1024 then Some SetObjectMetadata
      else None)"

definition is_response_opcode :: "u16 \<Rightarrow> bool" where
  "is_response_opcode code \<longleftrightarrow> 0x2000 \<le> code \<and> code \<le> 0x2FFF"

section \<open>The enumerations and their codes\<close>

lemma opcode_inverse [simp]: "opcode_to_enum (opcode c) = Some c"
  by (cases c) (simp_all add: opcode_to_enum_def)

lemma opcode_inject [simp]: "opcode c = opcode d \<longleftrightarrow> c = d"
  by (metis opcode_inverse option.inject)

lemma opcode_to_enum_Some: "opcode_to_enum code = Some c \<Longrightarrow> code = opcode c"
  by (auto simp: opcode_to_enum_def split: if_splits)

lemma message_code_inject [simp]: "message_code a = message_code b \<longleftrightarrow> a = b"
  by (cases a; cases b) simp_all

lemma event_code_inject [simp]: "event_code a = event_code b \<longleftrightarrow> a = b"
  by (cases a; cases b) simp_all

text \<open>The wire codes order the enumerations, so their values can key the library's maps.\<close>

instantiation message_type :: linorder
begin

definition less_eq_message_type :: "message_type \<Rightarrow> message_type \<Rightarrow> bool" where
  "less_eq_message_type a b \<longleftrightarrow> message_code a \<le> message_code b"

definition less_message_type :: "message_type \<Rightarrow> message_type \<Rightarrow> bool" where
  "less_message_type a b \<longleftrightarrow> message_code a < message_code b"

instance
  by standard (auto simp: less_eq_message_type_def less_message_type_def
      dest: order_antisym [THEN message_code_inject [THEN iffD1]])

end

instantiation operation_code :: linorder
begin

definition less_eq_operation_code :: "operation_code \<Rightarrow> operation_code \<Rightarrow> bool" where
  "less_eq_operation_code a b \<longleftrightarrow> opcode a \<le> opcode b"

definition less_operation_code :: "operation_code \<Rightarrow> operation_code \<Rightarrow> bool" where
  "less_operation_code a b \<longleftrightarrow> opcode a < opcode b"

instance
  by standard (auto simp: less_eq_operation_code_def less_operation_code_def
      dest: order_antisym [THEN opcode_inject [THEN iffD1]])

end

text \<open>
  \<open>opcode_to_enum\<close> is the exact inverse of the enumeration's codes: it recognises a code
  as \<open>c\<close> if and only if the code is that of \<open>c\<close>, and the only known code that
  \<open>is_response_opcode\<close> accepts is \<open>Ok\<close>.
\<close>

theorem opcode_to_enum_exact:
  "(opcode_to_enum code = Some c) = (code = opcode c) \<and>
   is_response_opcode (opcode c) = (c = OpOk)"
  by (cases c; auto dest: opcode_to_enum_Some simp: is_response_opcode_def)
   (simp_all add: opcode_to_enum_def)

end
