(* ===== verification/Utils.thy ===== *)
theory Utils
  imports Types
begin

text \<open>
  \<open>src/utils.rs\<close>: the big-endian readers and writers, the checksum, the hex dump, the C string
  conversions and the small helpers. The readers are used on cursors over byte slices only, so
  that is where they are modelled. The contract of a fixed-width integer codec is the locale
  \<open>int_codec\<close>; each width of the module is an interpretation of it. The \<open>byteorder\<close> crate,
  which other modules use for the same purpose, is a parameter (\<open>byteorder\<close> below) whose
  documented behaviour is \<open>byteorder_spec\<close>.
\<close>

section \<open>Shift-and-or decoding\<close>

definition shift_or16 :: "u8 \<Rightarrow> u8 \<Rightarrow> u16" where
  "shift_or16 b0 b1 = push_bit 8 (ucast b0) OR ucast b1"

definition shift_or32 :: "u8 \<Rightarrow> u8 \<Rightarrow> u8 \<Rightarrow> u8 \<Rightarrow> u32" where
  "shift_or32 b0 b1 b2 b3 =
     ((push_bit 24 (ucast b0) OR push_bit 16 (ucast b1)) OR push_bit 8 (ucast b2)) OR ucast b3"

definition shift_or64 :: "u8 \<Rightarrow> u8 \<Rightarrow> u8 \<Rightarrow> u8 \<Rightarrow> u8 \<Rightarrow> u8 \<Rightarrow> u8 \<Rightarrow> u8 \<Rightarrow> u64" where
  "shift_or64 b0 b1 b2 b3 b4 b5 b6 b7 =
     ((((((push_bit 56 (ucast b0) OR push_bit 48 (ucast b1)) OR push_bit 40 (ucast b2))
       OR push_bit 32 (ucast b3)) OR push_bit 24 (ucast b4)) OR push_bit 16 (ucast b5))
       OR push_bit 8 (ucast b6)) OR ucast b7"

definition read_u16_be :: "cursor \<Rightarrow> io_error + (u16 \<times> cursor)" where
  "read_u16_be reader =
     bind_r (cursor_read_exact 2 reader) (\<lambda>(buf, reader).
     Ok (shift_or16 (buf ! 0) (buf ! 1), reader))"

definition read_u32_be :: "cursor \<Rightarrow> io_error + (u32 \<times> cursor)" where
  "read_u32_be reader =
     bind_r (cursor_read_exact 4 reader) (\<lambda>(buf, reader).
     Ok (shift_or32 (buf ! 0) (buf ! 1) (buf ! 2) (buf ! 3), reader))"

definition read_u64_be :: "cursor \<Rightarrow> io_error + (u64 \<times> cursor)" where
  "read_u64_be reader =
     bind_r (cursor_read_exact 8 reader) (\<lambda>(buf, reader).
     Ok (shift_or64 (buf ! 0) (buf ! 1) (buf ! 2) (buf ! 3)
                    (buf ! 4) (buf ! 5) (buf ! 6) (buf ! 7), reader))"

definition write_u16_be :: "u16 \<Rightarrow> bytes" where
  "write_u16_be value = [ucast (drop_bit 8 value), ucast value]"

definition write_u32_be :: "u32 \<Rightarrow> bytes" where
  "write_u32_be value =
     [ucast (drop_bit 24 value), ucast (drop_bit 16 value), ucast (drop_bit 8 value), ucast value]"

definition write_u64_be :: "u64 \<Rightarrow> bytes" where
  "write_u64_be value =
     [ucast (drop_bit 56 value), ucast (drop_bit 48 value), ucast (drop_bit 40 value),
      ucast (drop_bit 32 value), ucast (drop_bit 24 value), ucast (drop_bit 16 value),
      ucast (drop_bit 8 value), ucast value]"

section \<open>Agreement with the reference meaning\<close>

lemma bit_u8_high [simp]: "8 \<le> m \<Longrightarrow> \<not> bit (b :: u8) m"
  by (auto dest: bit_imp_le_length)

lemma ucast_drop_bit_byte:
  "(ucast (drop_bit n (v :: 'a::len word)) :: u8) = word_of_nat (unat v div 2 ^ n)"
  by (metis of_nat_unat unat_drop_bit_eq drop_bit_eq_div)

lemmas write_defs = write_u16_be_def write_u32_be_def write_u64_be_def

lemma write_u16_be_bytes: "write_u16_be v = be_bytes 2 (unat v)"
  unfolding write_defs ucast_drop_bit_byte
  by (simp add: codec_simps)

lemma write_u32_be_bytes: "write_u32_be v = be_bytes 4 (unat v)"
  unfolding write_defs ucast_drop_bit_byte
  by (simp add: codec_simps flip: div_mult2_eq)

lemma write_u64_be_bytes: "write_u64_be v = be_bytes 8 (unat v)"
  unfolding write_defs ucast_drop_bit_byte
  by (simp add: codec_simps flip: div_mult2_eq)

lemma be_bytes_inject:
  "be_bytes n x = be_bytes n y \<Longrightarrow> x < 256 ^ n \<Longrightarrow> y < 256 ^ n \<Longrightarrow> x = y"
  by (metis be_value_be_bytes mod_less)

lemma write_inject:
  "write_u16_be a = write_u16_be b \<Longrightarrow> a = b"
  "write_u32_be c = write_u32_be d \<Longrightarrow> c = d"
  "write_u64_be e = write_u64_be f \<Longrightarrow> e = f"
  unfolding write_u16_be_bytes write_u32_be_bytes write_u64_be_bytes
  using unsigned_less [where ?'a = nat, of a] unsigned_less [where ?'a = nat, of b]
    unsigned_less [where ?'a = nat, of c] unsigned_less [where ?'a = nat, of d]
    unsigned_less [where ?'a = nat, of e] unsigned_less [where ?'a = nat, of f]
  by (auto dest!: be_bytes_inject intro: unsigned_word_eqI)

lemma shift_or16_write: "write_u16_be (shift_or16 b0 b1) = [b0, b1]"
  unfolding write_defs shift_or16_def
  by (auto simp: bit_simps intro!: bit_word_eqI)

lemma shift_or32_write: "write_u32_be (shift_or32 b0 b1 b2 b3) = [b0, b1, b2, b3]"
  unfolding write_defs shift_or32_def
  by (auto simp: bit_simps intro!: bit_word_eqI)

lemma shift_or64_write: "write_u64_be (shift_or64 b0 b1 b2 b3 b4 b5 b6 b7) = [b0, b1, b2, b3, b4, b5, b6, b7]"
  unfolding write_defs shift_or64_def
  by (auto simp: bit_simps intro!: bit_word_eqI)

section \<open>The contract of an integer codec\<close>

text \<open>
  \<open>for _ in 0..count { v.push(read(&mut cursor)?); }\<close>, the loop of every list parser of the
  crate, over the reader it calls.
\<close>

fun read_list :: "(cursor \<Rightarrow> io_error + ('a \<times> cursor)) \<Rightarrow> nat \<Rightarrow> cursor \<Rightarrow> io_error + ('a list \<times> cursor)" where
  "read_list rd 0 c = Ok ([], c)"
| "read_list rd (Suc n) c =
     bind_r (rd c) (\<lambda>(v, c).
     bind_r (read_list rd n c) (\<lambda>(vs, c).
     Ok (v # vs, c)))"

abbreviation advance :: "nat \<Rightarrow> cursor \<Rightarrow> cursor" where
  "advance n c \<equiv> c\<lparr>cur_pos := cur_pos c + n\<rparr>"

lemma advance_advance [simp]: "advance n (advance m c) = advance (m + n) c"
  by simp

locale int_codec =
  fixes rd :: "cursor \<Rightarrow> io_error + ('a \<times> cursor)"
    and wr :: "'a \<Rightarrow> bytes"
    and width :: nat
  assumes rd_short: "length (remaining c) < width \<Longrightarrow> rd c = Err eof_error"
    and rd_wr: "remaining c = wr v @ rest \<Longrightarrow> rd c = Ok (v, advance width c)"
    and length_wr: "length (wr v) = width"
    and wr_surj: "length bs = width \<Longrightarrow> \<exists>v. wr v = bs"
begin

lemma rd_full:
  assumes "width \<le> length (remaining c)"
  obtains v where "wr v = take width (remaining c)" and "rd c = Ok (v, advance width c)"
proof -
  obtain v where v: "wr v = take width (remaining c)"
    using wr_surj [of "take width (remaining c)"] assms by auto
  then have "rd c = Ok (v, advance width c)"
    by (intro rd_wr [of c v "drop width (remaining c)"]) simp
  with v show thesis by (rule that)
qed

lemma rd_Ok_iff:
  "rd c = Ok (v, c') \<longleftrightarrow>
     width \<le> length (remaining c) \<and> wr v = take width (remaining c) \<and> c' = advance width c"
proof
  assume ok: "rd c = Ok (v, c')"
  then have le: "width \<le> length (remaining c)"
    using rd_short [of c] by (cases "length (remaining c) < width") auto
  then show "width \<le> length (remaining c) \<and> wr v = take width (remaining c) \<and> c' = advance width c"
    using ok by (auto elim: rd_full)
next
  assume r: "width \<le> length (remaining c) \<and> wr v = take width (remaining c) \<and> c' = advance width c"
  then have "remaining c = wr v @ drop width (remaining c)" by simp
  with r show "rd c = Ok (v, c')" using rd_wr by blast
qed

lemma rd_Err_iff: "rd c = Err e \<longleftrightarrow> length (remaining c) < width \<and> e = eof_error"
proof (cases "length (remaining c) < width")
  case True
  then show ?thesis by (auto simp: rd_short)
next
  case False
  then obtain v where "rd c = Ok (v, advance width c)"
    using rd_full by (meson not_less)
  with False show ?thesis by simp
qed

lemma rd_is_ok: "is_ok (rd c) \<longleftrightarrow> width \<le> length (remaining c)"
proof (cases "length (remaining c) < width")
  case True
  then show ?thesis by (simp add: rd_short)
next
  case False
  then obtain v where "rd c = Ok (v, advance width c)"
    using rd_full by (meson not_less)
  with False show ?thesis by simp
qed

lemma read_list_wr:
  "remaining c = concat (map wr vs) @ rest \<Longrightarrow>
     read_list rd (length vs) c = Ok (vs, advance (width * length vs) c)"
proof (induction vs arbitrary: c)
  case Nil
  then show ?case by simp
next
  case (Cons v vs)
  then have rd: "rd c = Ok (v, advance width c)"
    by (intro rd_wr) simp
  have "remaining (advance width c) = concat (map wr vs) @ rest"
    using Cons.prems by (simp add: length_wr)
  then have "read_list rd (length vs) (advance width c) = Ok (vs, advance (width + width * length vs) c)"
    using Cons.IH by fastforce
  with rd show ?case by simp
qed

lemma rd_split: "rd (split_cursor pre (wr v @ suf)) = Ok (v, split_cursor (pre @ wr v) suf)"
  using rd_wr [OF split_cursor_sel(1), of pre v suf] length_wr [of v]
  by (simp add: split_cursor_def)

lemma read_list_split:
  "read_list rd (length vs) (split_cursor pre (concat (map wr vs) @ suf)) =
     Ok (vs, split_cursor (pre @ concat (map wr vs)) suf)"
  by (induction vs arbitrary: pre) (simp_all add: rd_split)

lemma read_list_short: "length (remaining c) < n * width \<Longrightarrow> read_list rd n c = Err eof_error"
proof (induction n arbitrary: c)
  case 0
  then show ?case by simp
next
  case (Suc n)
  show ?case
  proof (cases "length (remaining c) < width")
    case True
    then show ?thesis by (simp add: rd_short)
  next
    case False
    then obtain v where "rd c = Ok (v, advance width c)"
      using rd_full by (meson not_less)
    moreover have "length (remaining (advance width c)) < n * width"
      using Suc.prems False by simp
    ultimately show ?thesis by (simp add: Suc.IH)
  qed
qed

lemma read_list_full:
  "n * width \<le> length (remaining c) \<Longrightarrow>
     \<exists>vs. length vs = n \<and> concat (map wr vs) = take (n * width) (remaining c) \<and>
          read_list rd n c = Ok (vs, advance (n * width) c)"
proof (induction n arbitrary: c)
  case 0
  then show ?case by simp
next
  case (Suc n)
  then have "width \<le> length (remaining c)" by simp
  then obtain v where v: "wr v = take width (remaining c)" "rd c = Ok (v, advance width c)"
    by (rule rd_full)
  have "n * width \<le> length (remaining (advance width c))"
    using Suc.prems by simp
  then obtain vs where vs: "length vs = n"
      "concat (map wr vs) = take (n * width) (drop width (remaining c))"
      "read_list rd n (advance width c) = Ok (vs, advance (n * width) (advance width c))"
    using Suc.IH [of "advance width c"] by auto
  then have "length (v # vs) = Suc n \<and>
      concat (map wr (v # vs)) = take (Suc n * width) (remaining c) \<and>
      read_list rd (Suc n) c = Ok (v # vs, advance (Suc n * width) c)"
    using v by (simp add: take_add)
  then show ?case by blast
qed

lemma read_list_Err: "read_list rd n c = Err e \<Longrightarrow> e = eof_error \<and> length (remaining c) < n * width"
  using read_list_full [of n c] read_list_short [of c n]
  by (cases "length (remaining c) < n * width") auto

lemma read_list_Ok:
  "read_list rd n c = Ok (vs, c') \<Longrightarrow>
     length vs = n \<and> n * width \<le> length (remaining c) \<and>
     concat (map wr vs) = take (n * width) (remaining c) \<and> c' = advance (n * width) c"
  using read_list_full [of n c] read_list_short [of c n]
  by (cases "length (remaining c) < n * width") (auto simp: not_less)

end

text \<open>The three widths of the module.\<close>

lemma length_write [simp]:
  "length (write_u16_be a) = 2" "length (write_u32_be b) = 4" "length (write_u64_be c) = 8"
  by (simp_all add: write_defs)

lemma list_take_2: "length bs = 2 \<Longrightarrow> bs = [bs ! 0, bs ! 1]"
  by (auto simp: length_Suc_conv numeral_eq_Suc)

lemma list_take_4: "length bs = 4 \<Longrightarrow> bs = [bs ! 0, bs ! 1, bs ! 2, bs ! 3]"
  by (auto simp: length_Suc_conv numeral_eq_Suc)

lemma list_take_8:
  "length bs = 8 \<Longrightarrow> bs = [bs ! 0, bs ! 1, bs ! 2, bs ! 3, bs ! 4, bs ! 5, bs ! 6, bs ! 7]"
  by (auto simp: length_Suc_conv numeral_eq_Suc)

lemma shift_or_surj:
  "length a = 2 \<Longrightarrow> write_u16_be (shift_or16 (a ! 0) (a ! 1)) = a"
  "length b = 4 \<Longrightarrow> write_u32_be (shift_or32 (b ! 0) (b ! 1) (b ! 2) (b ! 3)) = b"
  "length c = 8 \<Longrightarrow> write_u64_be (shift_or64 (c ! 0) (c ! 1) (c ! 2) (c ! 3)
     (c ! 4) (c ! 5) (c ! 6) (c ! 7)) = c"
  using list_take_2 [of a] list_take_4 [of b] list_take_8 [of c]
  by (simp_all add: shift_or16_write shift_or32_write shift_or64_write)

lemma shift_or16_of_write:
  "shift_or16 (write_u16_be v ! 0) (write_u16_be v ! 1) = v"
  by (intro write_inject shift_or_surj) simp

lemma shift_or32_of_write:
  "shift_or32 (write_u32_be v ! 0) (write_u32_be v ! 1) (write_u32_be v ! 2) (write_u32_be v ! 3) = v"
  by (intro write_inject shift_or_surj) simp

lemma shift_or64_of_write:
  "shift_or64 (write_u64_be v ! 0) (write_u64_be v ! 1) (write_u64_be v ! 2) (write_u64_be v ! 3)
     (write_u64_be v ! 4) (write_u64_be v ! 5) (write_u64_be v ! 6) (write_u64_be v ! 7) = v"
  by (intro write_inject shift_or_surj) simp

interpretation u16: int_codec read_u16_be write_u16_be 2
  by unfold_locales
    (auto simp: read_u16_be_def cursor_read_exact_def shift_or16_of_write [simplified] intro: shift_or_surj)

interpretation u32: int_codec read_u32_be write_u32_be 4
  by unfold_locales
    (auto simp: read_u32_be_def cursor_read_exact_def shift_or32_of_write [simplified] intro: shift_or_surj)

interpretation u64: int_codec read_u64_be write_u64_be 8
  by unfold_locales
    (auto simp: read_u64_be_def cursor_read_exact_def shift_or64_of_write [simplified] intro: shift_or_surj)

lemma read_value:
  "read_u16_be c = Ok (v, c') \<Longrightarrow> unat v = be_value (take 2 (remaining c))"
  "read_u32_be c = Ok (w, c') \<Longrightarrow> unat w = be_value (take 4 (remaining c))"
  "read_u64_be c = Ok (x, c') \<Longrightarrow> unat x = be_value (take 8 (remaining c))"
  using unsigned_less [where ?'a = nat, of v] unsigned_less [where ?'a = nat, of w]
    unsigned_less [where ?'a = nat, of x]
  by (auto simp: u16.rd_Ok_iff u32.rd_Ok_iff u64.rd_Ok_iff write_u16_be_bytes write_u32_be_bytes
      write_u64_be_bytes be_value_be_bytes dest!: arg_cong [of _ _ be_value])

lemma read_eq_be_value:
  "read_u16_be c = (if length (remaining c) < 2 then Err eof_error
     else Ok (word_of_nat (be_value (take 2 (remaining c))), advance 2 c))"
  "read_u32_be c = (if length (remaining c) < 4 then Err eof_error
     else Ok (word_of_nat (be_value (take 4 (remaining c))), advance 4 c))"
  "read_u64_be c = (if length (remaining c) < 8 then Err eof_error
     else Ok (word_of_nat (be_value (take 8 (remaining c))), advance 8 c))"
  using u16.rd_full [of c] u32.rd_full [of c] u64.rd_full [of c]
    read_value(1) [of c] read_value(2) [of c] read_value(3) [of c]
  by (auto simp: u16.rd_short u32.rd_short u64.rd_short not_less)
    (metis of_nat_unat ucast_id)+

text \<open>
  C36. The integer codecs round-trip at every width, whatever follows on the wire, advance the
  cursor by exactly their width, and read the number that the bytes denote, most significant
  byte first; short input is \<open>UnexpectedEof\<close>.
\<close>

theorem codecs_roundtrip:
  "read_u16_be (cursor_new (write_u16_be a @ rest)) =
     Ok (a, \<lparr>cur_data = write_u16_be a @ rest, cur_pos = 2\<rparr>) \<and>
   read_u32_be (cursor_new (write_u32_be b @ rest)) =
     Ok (b, \<lparr>cur_data = write_u32_be b @ rest, cur_pos = 4\<rparr>) \<and>
   read_u64_be (cursor_new (write_u64_be d @ rest)) =
     Ok (d, \<lparr>cur_data = write_u64_be d @ rest, cur_pos = 8\<rparr>) \<and>
   write_u16_be a = be_bytes 2 (unat a) \<and>
   write_u32_be b = be_bytes 4 (unat b) \<and>
   write_u64_be d = be_bytes 8 (unat d) \<and>
   (\<forall>c. read_u32_be c =
      (if length (remaining c) < 4 then Err eof_error
       else Ok (word_of_nat (be_value (take 4 (remaining c))), advance 4 c)))"
proof (intro conjI)
  show "read_u16_be (cursor_new (write_u16_be a @ rest)) =
     Ok (a, \<lparr>cur_data = write_u16_be a @ rest, cur_pos = 2\<rparr>)"
    using u16.rd_wr [OF remaining_new [of "write_u16_be a @ rest"]]
    by (simp add: cursor_new_def numeral_2_eq_2)
  show "read_u32_be (cursor_new (write_u32_be b @ rest)) =
     Ok (b, \<lparr>cur_data = write_u32_be b @ rest, cur_pos = 4\<rparr>)"
    using u32.rd_wr [OF remaining_new [of "write_u32_be b @ rest"]]
    by (simp add: cursor_new_def numeral_2_eq_2)
  show "read_u64_be (cursor_new (write_u64_be d @ rest)) =
     Ok (d, \<lparr>cur_data = write_u64_be d @ rest, cur_pos = 8\<rparr>)"
    using u64.rd_wr [OF remaining_new [of "write_u64_be d @ rest"]]
    by (simp add: cursor_new_def numeral_2_eq_2)
qed (use write_u16_be_bytes write_u32_be_bytes write_u64_be_bytes read_eq_be_value(2) in blast)+

section \<open>The byteorder crate\<close>

text \<open>
  \<open>WriteBytesExt\<close> and \<open>ReadBytesExt\<close> at \<open>BigEndian\<close>, on a \<open>Vec<u8>\<close> and on a cursor. The
  crate is not part of the repository: the functions that use it take it as an argument, and
  \<open>byteorder_spec\<close> is its documented behaviour.
\<close>

record byteorder =
  bo_write_u16 :: "u16 \<Rightarrow> bytes \<Rightarrow> io_error + bytes"
  bo_write_u32 :: "u32 \<Rightarrow> bytes \<Rightarrow> io_error + bytes"
  bo_write_u64 :: "u64 \<Rightarrow> bytes \<Rightarrow> io_error + bytes"
  bo_read_u16 :: "cursor \<Rightarrow> io_error + (u16 \<times> cursor)"
  bo_read_u32 :: "cursor \<Rightarrow> io_error + (u32 \<times> cursor)"
  bo_read_u64 :: "cursor \<Rightarrow> io_error + (u64 \<times> cursor)"

definition byteorder_spec :: "byteorder \<Rightarrow> bool" where
  "byteorder_spec bo \<longleftrightarrow>
     (\<forall>v buf. bo_write_u16 bo v buf = Ok (buf @ be_bytes 2 (unat v))) \<and>
     (\<forall>v buf. bo_write_u32 bo v buf = Ok (buf @ be_bytes 4 (unat v))) \<and>
     (\<forall>v buf. bo_write_u64 bo v buf = Ok (buf @ be_bytes 8 (unat v))) \<and>
     (\<forall>c. bo_read_u16 bo c = (if length (remaining c) < 2 then Err eof_error
        else Ok (word_of_nat (be_value (take 2 (remaining c))), advance 2 c))) \<and>
     (\<forall>c. bo_read_u32 bo c = (if length (remaining c) < 4 then Err eof_error
        else Ok (word_of_nat (be_value (take 4 (remaining c))), advance 4 c))) \<and>
     (\<forall>c. bo_read_u64 bo c = (if length (remaining c) < 8 then Err eof_error
        else Ok (word_of_nat (be_value (take 8 (remaining c))), advance 8 c)))"

text \<open>The module's own functions have that behaviour, so the hypothesis can hold.\<close>

definition utils_byteorder :: byteorder where
  "utils_byteorder =
     \<lparr>bo_write_u16 = (\<lambda>v buf. Ok (buf @ write_u16_be v)),
      bo_write_u32 = (\<lambda>v buf. Ok (buf @ write_u32_be v)),
      bo_write_u64 = (\<lambda>v buf. Ok (buf @ write_u64_be v)),
      bo_read_u16 = read_u16_be, bo_read_u32 = read_u32_be, bo_read_u64 = read_u64_be\<rparr>"

lemma utils_byteorder_spec: "byteorder_spec utils_byteorder"
  by (simp add: byteorder_spec_def utils_byteorder_def read_eq_be_value write_u16_be_bytes
      write_u32_be_bytes write_u64_be_bytes)

lemma bo_simps:
  assumes "byteorder_spec bo"
  shows "bo_write_u16 bo v buf = Ok (buf @ write_u16_be v)"
    and "bo_write_u32 bo w buf = Ok (buf @ write_u32_be w)"
    and "bo_write_u64 bo x buf = Ok (buf @ write_u64_be x)"
    and "bo_read_u16 bo c = read_u16_be c"
    and "bo_read_u32 bo c = read_u32_be c"
    and "bo_read_u64 bo c = read_u64_be c"
  using assms unfolding byteorder_spec_def
  by (auto simp: read_eq_be_value write_u16_be_bytes write_u32_be_bytes write_u64_be_bytes)

end
