(* ===== verification/Utils_Text.thy ===== *)
theory Utils_Text
  imports Utils
begin

text \<open>
  The rest of \<open>src/utils.rs\<close>: checksum, hex dump, C strings, time stamps and chunking. A C
  string pointer is \<open>None\<close> when null and otherwise the memory it points to, from its first byte
  on; \<open>CStr::from_ptr\<close> reads up to the first NUL, which the caller guarantees to be there.
\<close>

section \<open>Checksum\<close>

definition checksum :: "bytes \<Rightarrow> u16" where
  "checksum data = ucast (foldl (\<lambda>sum byte. (sum + ucast byte) mod 0x10000) (0 :: u32) data)"

lemma checksum_fold:
  "unat acc < 65536 \<Longrightarrow>
   unat (foldl (\<lambda>acc byte. (acc + ucast byte) mod 0x10000) (acc :: u32) (data :: bytes)) =
     (unat acc + sum_list (map unat data)) mod 65536"
proof (induction data arbitrary: acc)
  case Nil
  then show ?case by simp
next
  case (Cons b bs)
  have b: "unat (ucast b :: u32) = unat b"
    using unat_byte_less [of b] by (simp add: unsigned_ucast_eq take_bit_nat_eq_self_iff)
  have "unat (acc + ucast b :: u32) = unat acc + unat b"
    using Cons.prems unat_byte_less [of b] by (subst unat_plus_simple [THEN iffD1])
      (simp_all add: b word_le_nat_alt unat_word_ariths)
  then have step: "unat ((acc + ucast b) mod 0x10000 :: u32) = (unat acc + unat b) mod 65536"
    by (simp add: unat_mod_distrib)
  then show ?case
    using Cons.IH [of "(acc + ucast b) mod 0x10000"] by (simp add: mod_simps add.assoc)
qed

text \<open>
  The checksum is the sum of the bytes modulo \<open>2 ^ 16\<close>: the reduction after every byte keeps
  the 32-bit accumulator from overflowing, whatever the length, and loses nothing. In
  particular it does not depend on the order of the bytes and adds over concatenation.
\<close>

theorem checksum_is_sum:
  "unat (checksum data) = sum_list (map unat data) mod 65536 \<and>
   checksum (data @ data2) = checksum data + checksum data2"
proof -
  have eq: "unat (checksum xs) = sum_list (map unat xs) mod 65536" for xs
    using checksum_fold [of 0 xs]
    by (simp add: checksum_def unsigned_ucast_eq take_bit_eq_mod)
  have "unat (checksum data + checksum data2) = unat (checksum (data @ data2))"
    by (simp add: eq unat_word_ariths mod_simps)
  then show ?thesis using eq word_eq_iff_unsigned by metis
qed

section \<open>Hex dump\<close>

fun join :: "string \<Rightarrow> string list \<Rightarrow> string" where
  "join sep [] = []"
| "join sep [x] = x"
| "join sep (x # y # ys) = x @ sep @ join sep (y # ys)"

definition hex_bytes :: "bytes \<Rightarrow> string" where
  "hex_bytes bs = join '' '' (map (\<lambda>b. hex_pad 2 (unat b)) bs)"

definition bytes_to_hex :: "bytes \<Rightarrow> string" where
  "bytes_to_hex data =
     (if length data > 128
      then hex_bytes (take 32 data) @ '' ... ['' @ dec (length data - 64) @
           '' bytes omitted] ... '' @ hex_bytes (drop (length data - 32) data)
      else hex_bytes data)"

lemma digit_char_inject: "a < 16 \<Longrightarrow> b < 16 \<Longrightarrow> digit_char a = digit_char b \<longleftrightarrow> a = b"
  unfolding digit_char_def by (subst inj_on_eq_iff [OF inj_on_char_of_nat]) auto

lemma digit_char_0: "digit_char 0 = CHR ''0''"
  by code_simp

lemma hex_pad_byte:
  assumes "n < 256"
  shows "hex_pad 2 n = [digit_char (n div 16), digit_char (n mod 16)]"
proof (cases "n < 16")
  case True
  then show ?thesis
    by (simp add: hex_pad_def digits_rev.simps [of 16 n] digit_char_0)
next
  case False
  have "n div 16 < 16" using assms by (simp add: less_mult_imp_div_less)
  with False show ?thesis
    by (simp add: hex_pad_def digits_rev.simps [of 16 n] digits_rev.simps [of 16 "n div 16"])
qed

lemma hex_pad_byte_inject:
  "m < 256 \<Longrightarrow> n < 256 \<Longrightarrow> hex_pad 2 m = hex_pad 2 n \<longleftrightarrow> m = n"
  by (simp add: hex_pad_byte digit_char_inject) (metis div_mult_mod_eq)

lemma hex_bytes_Cons: "hex_bytes (b # bs) = hex_pad 2 (unat b) @ (if bs = [] then [] else '' '' @ hex_bytes bs)"
  by (cases bs) (simp_all add: hex_bytes_def)

lemma length_hex_byte [simp]: "length (hex_pad 2 (unat (b :: u8))) = 2"
  by (simp add: hex_pad_byte unat_byte_less)

lemma length_hex_bytes: "length (hex_bytes bs) = 3 * length bs - 1"
  by (induction bs) (auto simp: hex_bytes_Cons hex_bytes_def [of "[]"] neq_Nil_conv)

lemma hex_bytes_inject: "hex_bytes a = hex_bytes b \<Longrightarrow> a = b"
proof (induction a arbitrary: b)
  case Nil
  then show ?case using length_hex_bytes [of b] by (cases b) (auto simp: hex_bytes_def [of "[]"])
next
  case (Cons x xs)
  have ne: "length (hex_bytes (x # xs)) \<noteq> 0" by (simp add: length_hex_bytes)
  then obtain y ys where b: "b = y # ys"
    using Cons.prems by (cases b) (auto simp: hex_bytes_def [of "[]"])
  have len: "length xs = length ys"
    using arg_cong [OF Cons.prems, of length] by (auto simp: length_hex_bytes b)
  have "hex_pad 2 (unat x) = hex_pad 2 (unat y)" and "xs \<noteq> [] \<Longrightarrow> hex_bytes xs = hex_bytes ys"
    using Cons.prems len by (auto simp: b hex_bytes_Cons append_eq_append_conv split: if_splits)
  then show ?case
    using Cons.IH [of ys] len
    by (cases "xs = []") (auto simp: b hex_pad_byte_inject unat_byte_less word_eq_iff_unsigned [where ?'a = nat])
qed

text \<open>
  The hex dump of at most 128 bytes takes three characters a byte, less the last separator,
  and determines the bytes: two dumped arrays of that size with equal dumps are equal.
\<close>

theorem bytes_to_hex_faithful:
  "length data \<le> 128 \<Longrightarrow>
     length (bytes_to_hex data) = 3 * length data - 1 \<and>
     (\<forall>other. length other \<le> 128 \<longrightarrow> bytes_to_hex other = bytes_to_hex data \<longrightarrow> other = data)"
  by (auto simp: bytes_to_hex_def length_hex_bytes dest: hex_bytes_inject)

theorem bytes_to_hex_faithful_witness:
  "length (bytes_to_hex [0x12, 0xAB]) = 5 \<and>
   bytes_to_hex [0xAB, 0x12] \<noteq> bytes_to_hex [0x12, 0xAB] \<and>
   bytes_to_hex [0x12] \<noteq> bytes_to_hex [0x12, 0xAB]"
proof -
  have "length (bytes_to_hex [0x12, 0xAB]) = 5"
    using bytes_to_hex_faithful [of "[0x12, 0xAB]"] by simp
  moreover have "bytes_to_hex other \<noteq> bytes_to_hex [0x12, 0xAB]"
    if "length other \<le> 128" "other \<noteq> [0x12, 0xAB]" for other
    using bytes_to_hex_faithful [of "[0x12, 0xAB]"] that by force
  ultimately show ?thesis by simp
qed

section \<open>C strings\<close>

type_synonym c_ptr = "bytes option"

definition c_str_to_rust :: "c_ptr \<Rightarrow> string option" where
  "c_str_to_rust c_str =
     (case c_str of
        None \<Rightarrow> None
      | Some mem \<Rightarrow>
          (case from_utf8 (takeWhile (\<lambda>b. b \<noteq> 0) mem) of Inl _ \<Rightarrow> None | Inr s \<Rightarrow> Some s))"

definition rust_str_to_c :: "string \<Rightarrow> c_ptr" where
  "rust_str_to_c rust_str =
     (let b = bytes_of_string rust_str in if 0 \<in> set b then None else Some (b @ [0]))"

definition valid_str :: "string \<Rightarrow> bool" where
  "valid_str s \<longleftrightarrow> utf8_check 0 (bytes_of_string s) = Ok ()"

lemma takeWhile_nul: "0 \<notin> set b \<Longrightarrow> takeWhile (\<lambda>x. x \<noteq> 0) (b @ 0 # r) = (b :: bytes)"
  by (subst takeWhile_append2) auto

text \<open>
  Handing a Rust string to C and reading it back is the identity, whatever memory follows the
  terminator; a string with an inner NUL, and only such a string, becomes the null pointer.
\<close>

theorem c_string_roundtrip:
  "valid_str s \<Longrightarrow>
     (case rust_str_to_c s of
        None \<Rightarrow> 0 \<in> set (bytes_of_string s)
      | Some mem \<Rightarrow> 0 \<notin> set (bytes_of_string s) \<and> c_str_to_rust (Some (mem @ after)) = Some s)"
  by (auto simp: rust_str_to_c_def c_str_to_rust_def valid_str_def takeWhile_nul from_utf8_def Let_def)

theorem c_string_roundtrip_witness:
  "case rust_str_to_c ''Z7'' of
     None \<Rightarrow> 0 \<in> set (bytes_of_string ''Z7'')
   | Some mem \<Rightarrow> 0 \<notin> set (bytes_of_string ''Z7'') \<and> c_str_to_rust (Some (mem @ [1])) = Some ''Z7''"
  by (rule c_string_roundtrip) (simp add: valid_str_def bytes_of_string_def utf8_check_ascii
      del: utf8_check.simps)

section \<open>Time stamps and durations\<close>

text \<open>\<open>ns\<close> is the system clock relative to the Unix epoch; an earlier clock gives 0.\<close>

definition get_timestamp :: "int \<Rightarrow> u64" where
  "get_timestamp ns = (if ns < 0 then 0 else word_of_int (ns div 1000000))"

definition duration_between :: "u64 \<Rightarrow> u64 \<Rightarrow> u64" where
  "duration_between start_ts end_ts = (if end_ts > start_ts then end_ts - start_ts else 0)"

lemma duration_between_saturates: "unat (duration_between a b) = unat b - unat a"
  by (auto simp: duration_between_def unat_sub_if' word_less_nat_alt not_less)

section \<open>Chunking\<close>

text \<open>\<open>slice::chunks\<close> panics on a chunk size of 0: the result is then \<open>None\<close>.\<close>

function chunks_of :: "nat \<Rightarrow> 'a list \<Rightarrow> 'a list list" where
  "chunks_of n xs = (if n = 0 \<or> xs = [] then [] else take n xs # chunks_of n (drop n xs))"
  by pat_completeness auto
termination
  by (relation "measure (\<lambda>(n, xs). length xs)") auto

declare chunks_of.simps [simp del]

definition chunk_vector :: "'a list \<Rightarrow> nat \<Rightarrow> 'a list list option" where
  "chunk_vector data chunk_size = (if chunk_size = 0 then None else Some (chunks_of chunk_size data))"

lemma concat_chunks_of: "n \<noteq> 0 \<Longrightarrow> concat (chunks_of n xs) = xs"
  by (induction n xs rule: chunks_of.induct) (subst chunks_of.simps, auto)

lemma chunks_of_sizes: "n \<noteq> 0 \<Longrightarrow> c \<in> set (chunks_of n xs) \<Longrightarrow> 0 < length c \<and> length c \<le> n"
proof (induction n xs rule: chunks_of.induct)
  case (1 n xs)
  then show ?case by (subst (asm) (2) chunks_of.simps) (auto split: if_splits)
qed

lemma chunks_of_full:
  "n \<noteq> 0 \<Longrightarrow> Suc i < length (chunks_of n xs) \<Longrightarrow> length (chunks_of n xs ! i) = n"
proof (induction n xs arbitrary: i rule: chunks_of.induct)
  case (1 n xs)
  have ne: "xs \<noteq> []" and tl: "i < length (chunks_of n (drop n xs))"
    using 1(2,3) by (auto simp: chunks_of.simps [of n xs] split: if_splits)
  then have "drop n xs \<noteq> []"
    by (auto simp: chunks_of.simps [of n "[]"])
  then show ?case
    using 1 ne tl by (cases i) (simp_all add: chunks_of.simps [of n xs])
qed

lemma length_chunks_of: "n \<noteq> 0 \<Longrightarrow> length (chunks_of n xs) = (length xs + n - 1) div n"
proof (induction n xs rule: chunks_of.induct)
  case (1 n xs)
  show ?case
  proof (cases "length xs \<le> n")
    case True
    then show ?thesis using 1(2)
      by (auto simp: chunks_of.simps [of n xs] chunks_of.simps [of n "[]"] le_div_geq Suc_le_eq
          neq_Nil_conv)
  next
    case False
    then have "(length xs + n - 1) div n = Suc ((length xs - n + n - 1) div n)"
      using 1(2) by (subst le_div_geq) auto
    then show ?thesis using 1 False by (auto simp: chunks_of.simps [of n xs])
  qed
qed

text \<open>
  Chunking loses and reorders nothing: the chunks concatenate to the data, all but the last
  have exactly the chunk size, none is empty, and their number is the rounded-up quotient; it
  panics exactly for a chunk size of 0.
\<close>

theorem chunk_vector_partitions:
  "(case chunk_vector data n of
      None \<Rightarrow> n = 0
    | Some cs \<Rightarrow> n \<noteq> 0 \<and> concat cs = data \<and> length cs = (length data + n - 1) div n \<and>
        list_all (\<lambda>c. c \<noteq> [] \<and> length c \<le> n) cs \<and>
        list_all (\<lambda>c. length c = n) (butlast cs))"
proof (cases "n = 0")
  case False
  have "length c = n" if c: "c \<in> set (butlast (chunks_of n data))" for c
  proof -
    obtain i where "i < length (butlast (chunks_of n data))" "c = butlast (chunks_of n data) ! i"
      using c by (auto simp: in_set_conv_nth)
    then show ?thesis using chunks_of_full [OF False, of i data] by (simp add: nth_butlast)
  qed
  then show ?thesis
    using False chunks_of_sizes [OF False, of _ data]
    by (auto simp: chunk_vector_def concat_chunks_of length_chunks_of list_all_iff)
qed (simp add: chunk_vector_def)

end
