(* ===== verification/World.thy ===== *)
theory World
  imports Types
begin

text \<open>
  The environment of the code that does I/O, as one state record threaded through it. The
  connection delivers a script of events (\<open>rx\<close>): bytes, waiting time, and read errors; the end
  of the script is the end of the stream. Writes append to \<open>tx\<close> and fail where \<open>tx_script\<close> says
  so, socket set-up calls where \<open>ctl_script\<close> does, file operations where \<open>fs_script\<close> does
  (an exhausted script means success). The clock counts nanoseconds. \<open>rng\<close> is what the
  \<open>rand\<close> crate draws, a parameter about which nothing is assumed. Every theorem quantifies
  over the whole environment.
\<close>

datatype rx_event = RxByte u8 | RxDelay nat | RxFault io_error

datatype tx_outcome = TxOk | TxErr nat io_error

text \<open>A \<open>Path\<close> is the list of its components, as \<open>Path::components\<close> yields them.\<close>

datatype component = RootDir | CurDir | ParentDir | Normal string

type_synonym path = "component list"

record world =
  rx :: "rx_event list"
  tx :: bytes
  tx_script :: "tx_outcome list"
  clock :: nat
  rng :: "nat \<Rightarrow> u32"
  rng_pos :: nat
  ctl_script :: "io_error option list"
  read_timeout :: "nat option"
  write_timeout :: "nat option"
  nodelay :: bool
  files :: "path \<Rightarrow> bytes option"
  fs_script :: "tx_outcome list"
  progress :: "(usize \<times> usize \<times> bool \<times> download_stats) list"

type_synonym ('a, 'e) io = "world \<Rightarrow> ('e + 'a) \<times> world"

text \<open>A quiet environment: nothing to read, nothing fails, no files.\<close>

definition quiet :: world where
  "quiet = \<lparr>rx = [], tx = [], tx_script = [], clock = 0, rng = (\<lambda>n. word_of_nat n), rng_pos = 1,
     ctl_script = [], read_timeout = None, write_timeout = None, nodelay = False,
     files = (\<lambda>_. None), fs_script = [], progress = []\<rparr>"

section \<open>Sequencing\<close>

text \<open>The combinators are for any state: discovery runs on a datagram socket instead.\<close>

type_synonym ('s, 'a, 'e) run = "'s \<Rightarrow> ('e + 'a) \<times> 's"

text \<open>\<open>bind_io m f\<close> is \<open>let x = m?; f(x)\<close>; the state reached before an error is kept.\<close>

definition bind_io :: "('s, 'a, 'e) run \<Rightarrow> ('a \<Rightarrow> ('s, 'b, 'e) run) \<Rightarrow> ('s, 'b, 'e) run" where
  "bind_io m f w = (case m w of (Inl e, w') \<Rightarrow> (Inl e, w') | (Inr a, w') \<Rightarrow> f a w')"

definition ret :: "'a \<Rightarrow> ('s, 'a, 'e) run" where
  "ret a w = (Inr a, w)"

definition lift_r :: "'e + 'a \<Rightarrow> ('s, 'a, 'e) run" where
  "lift_r r w = (r, w)"

definition io_try :: "('s, 'a, io_error) run \<Rightarrow> ('s, 'a, ptpip_error) run" where
  "io_try m w = (case m w of (r, w') \<Rightarrow> (try_io r, w'))"

lemma bind_io_Ok: "m w = (Inr a, w') \<Longrightarrow> bind_io m f w = f a w'"
  by (simp add: bind_io_def)

lemma bind_io_Err: "m w = (Inl e, w') \<Longrightarrow> bind_io m f w = (Inl e, w')"
  by (simp add: bind_io_def)

lemma bind_io_eq_Ok:
  "bind_io m f w = (Inr b, w'') \<longleftrightarrow> (\<exists>a w'. m w = (Inr a, w') \<and> f a w' = (Inr b, w''))"
  by (auto simp: bind_io_def split: prod.splits sum.splits)

lemma bind_io_eq_Err:
  "bind_io m f w = (Inl e, w'') \<longleftrightarrow>
     m w = (Inl e, w'') \<or> (\<exists>a w'. m w = (Inr a, w') \<and> f a w' = (Inl e, w''))"
  by (auto simp: bind_io_def split: prod.splits sum.splits)

lemma io_try_eq_Ok [simp]: "io_try m w = (Inr a, w') \<longleftrightarrow> m w = (Inr a, w')"
  by (auto simp: io_try_def split: prod.splits)

lemma io_try_eq_Err:
  "io_try m w = (Inl e, w') \<longleftrightarrow> (\<exists>e'. m w = (Inl e', w') \<and> e = from_io_error e')"
  by (auto simp: io_try_def map_err_eq_Err split: prod.splits)

lemma bind_lift_Ok [simp]: "bind_io (lift_r (Inr a)) f w = f a w"
  by (simp add: bind_io_def lift_r_def)

lemma bind_lift_Err [simp]: "bind_io (lift_r (Inl e)) f w = (Inl e, w)"
  by (simp add: bind_io_def lift_r_def)

lemma bind_ret [simp]: "bind_io (ret a) f w = f a w"
  by (simp add: bind_io_def ret_def)

lemma ret_apply: "ret a w = (Inr a, w)"
  by (simp add: ret_def)

lemma lift_r_apply: "lift_r r w = (r, w)"
  by (simp add: lift_r_def)

section \<open>The connection\<close>

text \<open>
  \<open>Read::read_exact\<close>: takes bytes until it has \<open>n\<close>, waiting where the script waits. An
  \<open>Interrupted\<close> read is retried; any other error ends the call, and the bytes taken so far are
  lost. The end of the stream is \<open>UnexpectedEof\<close>.
\<close>

fun take_exact :: "nat \<Rightarrow> rx_event list \<Rightarrow> nat \<Rightarrow> (io_error + bytes) \<times> rx_event list \<times> nat" where
  "take_exact 0 evs t = (Ok [], evs, t)"
| "take_exact (Suc n) [] t = (Err eof_error, [], t)"
| "take_exact (Suc n) (RxByte b # evs) t =
     (case take_exact n evs t of (r, evs', t') \<Rightarrow> (bind_r r (\<lambda>bs. Ok (b # bs)), evs', t'))"
| "take_exact (Suc n) (RxDelay d # evs) t = take_exact (Suc n) evs (t + d)"
| "take_exact (Suc n) (RxFault e # evs) t =
     (if io_kind e = Interrupted then take_exact (Suc n) evs t else (Err e, evs, t))"

definition stream_read_exact :: "nat \<Rightarrow> (bytes, io_error) io" where
  "stream_read_exact n w =
     (case take_exact n (rx w) (clock w) of (r, evs, t) \<Rightarrow> (r, w\<lparr>rx := evs, clock := t\<rparr>))"

text \<open>
  \<open>Write::write_all\<close>: on failure a proper prefix of the data may already be on the wire. Nothing
  is called for empty data.
\<close>

definition stream_write_all :: "bytes \<Rightarrow> (unit, io_error) io" where
  "stream_write_all data w =
     (if data = [] then (Ok (), w)
      else case tx_script w of
             [] \<Rightarrow> (Ok (), w\<lparr>tx := tx w @ data\<rparr>)
           | TxOk # s \<Rightarrow> (Ok (), w\<lparr>tx := tx w @ data, tx_script := s\<rparr>)
           | TxErr k e # s \<Rightarrow> (Err e, w\<lparr>tx := tx w @ take k (butlast data), tx_script := s\<rparr>))"

definition stream_flush :: "(unit, io_error) io" where
  "stream_flush w =
     (case tx_script w of
        [] \<Rightarrow> (Ok (), w)
      | TxOk # s \<Rightarrow> (Ok (), w\<lparr>tx_script := s\<rparr>)
      | TxErr k e # s \<Rightarrow> (Err e, w\<lparr>tx_script := s\<rparr>))"

definition ctl_call :: "(world \<Rightarrow> world) \<Rightarrow> (unit, io_error) io" where
  "ctl_call f w =
     (case ctl_script w of
        [] \<Rightarrow> (Ok (), f w)
      | None # s \<Rightarrow> (Ok (), f (w\<lparr>ctl_script := s\<rparr>))
      | Some e # s \<Rightarrow> (Err e, w\<lparr>ctl_script := s\<rparr>))"

text \<open>The standard library rejects a zero duration before it asks the system.\<close>

definition set_read_timeout :: "nat \<Rightarrow> (unit, io_error) io" where
  "set_read_timeout d w =
     (if d = 0 then (Err zero_timeout_error, w) else ctl_call (\<lambda>w. w\<lparr>read_timeout := Some d\<rparr>) w)"

definition set_write_timeout :: "nat \<Rightarrow> (unit, io_error) io" where
  "set_write_timeout d w =
     (if d = 0 then (Err zero_timeout_error, w) else ctl_call (\<lambda>w. w\<lparr>write_timeout := Some d\<rparr>) w)"

definition set_nodelay :: "bool \<Rightarrow> (unit, io_error) io" where
  "set_nodelay b = ctl_call (\<lambda>w. w\<lparr>nodelay := b\<rparr>)"

definition duration_from_secs :: "u64 \<Rightarrow> nat" where
  "duration_from_secs s = unat s * 1000000000"

definition duration_from_millis :: "u64 \<Rightarrow> nat" where
  "duration_from_millis ms = unat ms * 1000000"

definition sleep :: "nat \<Rightarrow> world \<Rightarrow> world" where
  "sleep d w = w\<lparr>clock := clock w + d\<rparr>"

text \<open>\<open>thread_rng().gen::<u32>()\<close>\<close>

definition generate_transaction_id :: "(u32, 'e) io" where
  "generate_transaction_id w = (Ok (rng w (rng_pos w)), w\<lparr>rng_pos := Suc (rng_pos w)\<rparr>)"

section \<open>What an operation may change\<close>

text \<open>
  \<open>reads w w'\<close>: only input was consumed, from the front, and time passed. \<open>preserves R m\<close>: every
  run of \<open>m\<close>, successful or not, relates its states by \<open>R\<close>.
\<close>

definition reads :: "world \<Rightarrow> world \<Rightarrow> bool" where
  "reads w w' \<longleftrightarrow>
     (\<exists>used evs t. rx w = used @ evs \<and> clock w \<le> t \<and> w' = w\<lparr>rx := evs, clock := t\<rparr>)"

definition preserves :: "(world \<Rightarrow> world \<Rightarrow> bool) \<Rightarrow> ('a, 'e) io \<Rightarrow> bool" where
  "preserves R m \<longleftrightarrow> (\<forall>w r w'. m w = (r, w') \<longrightarrow> R w w')"

lemma preservesD: "preserves R m \<Longrightarrow> m w = (r, w') \<Longrightarrow> R w w'"
  by (simp add: preserves_def)

lemma preserves_bind [keeps]:
  assumes "transp R" "preserves R m" "\<And>a. preserves R (f a)"
  shows "preserves R (bind_io m f)"
  unfolding preserves_def bind_io_def
  using assms by (auto split: prod.splits sum.splits dest: preservesD elim: transpE)

lemma preserves_ret [keeps]: "reflp R \<Longrightarrow> preserves R (ret a)"
  by (auto simp: preserves_def reflp_def ret_def)

lemma preserves_lift [keeps]: "reflp R \<Longrightarrow> preserves R (lift_r r)"
  by (auto simp: preserves_def reflp_def lift_r_def)

lemma preserves_try [keeps]: "preserves R m \<Longrightarrow> preserves R (io_try m)"
  by (auto simp: preserves_def io_try_def split: prod.splits)

lemma reads_refl [simp]: "reads w w"
  unfolding reads_def by (intro exI [of _ "[]"] exI [of _ "rx w"] exI [of _ "clock w"]) simp

lemma readsE:
  assumes "reads w w'"
  obtains used evs t where "rx w = used @ evs" "clock w \<le> t" "w' = w\<lparr>rx := evs, clock := t\<rparr>"
  using assms by (auto simp: reads_def)

lemma reads_trans:
  assumes "reads a b" and "reads b c"
  shows "reads a c"
proof -
  obtain u1 e1 t1 where 1: "rx a = u1 @ e1" "clock a \<le> t1" "b = a\<lparr>rx := e1, clock := t1\<rparr>"
    using assms(1) by (rule readsE)
  obtain u2 e2 t2 where 2: "rx b = u2 @ e2" "clock b \<le> t2" "c = b\<lparr>rx := e2, clock := t2\<rparr>"
    using assms(2) by (rule readsE)
  have "rx a = (u1 @ u2) @ e2 \<and> clock a \<le> t2 \<and> c = a\<lparr>rx := e2, clock := t2\<rparr>"
    using 1 2 by simp
  then show ?thesis unfolding reads_def by blast
qed

lemma reads_equiv [keeps]: "reflp reads" "transp reads"
  by (auto simp: reflp_def transp_def intro: reads_trans)

lemma reads_length: "reads w w' \<Longrightarrow> length (rx w') \<le> length (rx w)"
  by (auto simp: reads_def)

lemma take_exact_used:
  "take_exact n evs t = (r, evs', t') \<Longrightarrow> (\<exists>used. evs = used @ evs') \<and> t \<le> t'"
  by (induction n evs t arbitrary: r rule: take_exact.induct)
    (fastforce split: prod.splits if_splits simp: Cons_eq_append_conv)+

lemma take_exact_Ok:
  "take_exact n evs t = (Ok bs, evs', t') \<Longrightarrow> length bs = n \<and> length evs' + n \<le> length evs"
  by (induction n evs t arbitrary: bs rule: take_exact.induct)
    (fastforce split: prod.splits if_splits simp: bind_r_eq_Ok)+

lemma take_exact_bytes [simp]:
  "take_exact (length bs) (map RxByte bs @ evs) t = (Ok bs, evs, t)"
  by (induction bs) auto

lemma take_exact_short:
  "length bs < n \<Longrightarrow> take_exact n (map RxByte bs) t = (Err eof_error, [], t)"
proof (induction bs arbitrary: n)
  case Nil
  then show ?case by (cases n) auto
next
  case (Cons b bs)
  then show ?case by (cases n) auto
qed

lemma stream_read_exact_reads [keeps]: "preserves reads (stream_read_exact n)"
  unfolding preserves_def stream_read_exact_def reads_def
  by (fastforce split: prod.splits dest: take_exact_used)

lemma stream_read_exact_Ok:
  "stream_read_exact n w = (Ok bs, w') \<Longrightarrow> length bs = n \<and> length (rx w') + n \<le> length (rx w)"
  by (auto simp: stream_read_exact_def split: prod.splits dest: take_exact_Ok)

lemma stream_read_exact_bytes:
  "rx w = map RxByte bs @ evs \<Longrightarrow> n = length bs \<Longrightarrow>
     stream_read_exact n w = (Ok bs, w\<lparr>rx := evs\<rparr>)"
  by (simp add: stream_read_exact_def)

lemma stream_read_exact_short:
  "rx w = map RxByte bs \<Longrightarrow> length bs < n \<Longrightarrow>
     stream_read_exact n w = (Err eof_error, w\<lparr>rx := []\<rparr>)"
  by (simp add: stream_read_exact_def take_exact_short)

end
