(* ===== verification/Transport.thy ===== *)
theory Transport
  imports Utils Utils_Text World
begin

text \<open>
  The packet layer of \<open>src/transport.rs\<close>: the header codec, sending with retry, receiving, and the
  type filter. Functions that use the \<open>byteorder\<close> crate take it as the argument \<open>bo\<close>.
  The \<open>unwrap\<close> of \<open>from_stream\<close> on a cursor over eight bytes is modelled as an error return;
  \<open>header_type_total\<close> shows that it cannot fail.
\<close>

section \<open>Header\<close>

record header =
  h_message_type :: u16
  h_reserved :: u16
  h_transaction_id :: u32
  h_payload_length :: u32

definition HEADER_AFTER_TYPE_SIZE :: usize where "HEADER_AFTER_TYPE_SIZE = 6"
definition FULL_HEADER_SIZE :: usize where "FULL_HEADER_SIZE = 8"

definition header_type :: "byteorder \<Rightarrow> u16 option \<Rightarrow> cursor \<Rightarrow> io_error + (u16 \<times> cursor)" where
  "header_type bo message_type reader =
     (case message_type of Some t \<Rightarrow> Ok (t, reader) | None \<Rightarrow> bo_read_u16 bo reader)"

definition header_from_stream :: "byteorder \<Rightarrow> u16 option \<Rightarrow> (header, ptpip_error) io" where
  "header_from_stream bo message_type =
     (let read_size = (if message_type \<noteq> None then HEADER_AFTER_TYPE_SIZE else FULL_HEADER_SIZE) in
      bind_io (io_try (stream_read_exact read_size)) (\<lambda>header_bytes.
      bind_io (lift_r (try_io (header_type bo message_type (cursor_new header_bytes)))) (\<lambda>(message_type, reader).
      bind_io (lift_r (try_io (bo_read_u16 bo reader))) (\<lambda>(reserved, reader).
      bind_io (lift_r (try_io (bo_read_u32 bo reader))) (\<lambda>(transaction_id, reader).
      bind_io
        (if message_type = message_code DataBlock
         then bind_io (io_try (stream_read_exact 4)) (\<lambda>len_bytes.
              ret (shift_or32 (len_bytes ! 0) (len_bytes ! 1) (len_bytes ! 2) (len_bytes ! 3)))
         else ret 0) (\<lambda>payload_length.
      ret \<lparr>h_message_type = message_type, h_reserved = reserved,
           h_transaction_id = transaction_id, h_payload_length = payload_length\<rparr>))))))"

definition header_to_bytes :: "byteorder \<Rightarrow> header \<Rightarrow> ptpip_error + bytes" where
  "header_to_bytes bo h =
     bind_r (try_io (bo_write_u16 bo (h_message_type h) [])) (\<lambda>bytes.
     bind_r (try_io (bo_write_u16 bo (h_reserved h) bytes)) (\<lambda>bytes.
     bind_r (try_io (bo_write_u32 bo (h_transaction_id h) bytes)) (\<lambda>bytes.
     if h_message_type h = message_code DataBlock
     then try_io (bo_write_u32 bo (h_payload_length h) bytes)
     else Ok bytes)))"

section \<open>Sending\<close>

definition configure_stream :: "session_config \<Rightarrow> (unit, ptpip_error) io" where
  "configure_stream config =
     bind_io (io_try (set_read_timeout (duration_from_secs (cfg_timeout config)))) (\<lambda>_.
     bind_io (io_try (set_write_timeout (duration_from_secs (cfg_timeout config)))) (\<lambda>_.
     bind_io (io_try (set_nodelay True)) (\<lambda>_.
     ret ())))"

definition packet_header :: "packet \<Rightarrow> header" where
  "packet_header packet =
     \<lparr>h_message_type = message_code (pkt_type packet), h_reserved = 0,
      h_transaction_id = pkt_tid packet, h_payload_length = word_of_nat (length (payload packet))\<rparr>"

definition send_packet :: "byteorder \<Rightarrow> packet \<Rightarrow> (unit, ptpip_error) io" where
  "send_packet bo packet =
     bind_io (lift_r (header_to_bytes bo (packet_header packet))) (\<lambda>header_bytes.
     bind_io (io_try (stream_write_all header_bytes)) (\<lambda>_.
     bind_io (if payload packet \<noteq> [] then io_try (stream_write_all (payload packet)) else ret ()) (\<lambda>_.
     bind_io (io_try stream_flush) (\<lambda>_.
     ret ()))))"

definition retry_error :: "session_config \<Rightarrow> ptpip_error \<Rightarrow> ptpip_error" where
  "retry_error config e =
     Other (''Failed to send packet after '' @ dec (max_retries config) @
            '' retries: '' @ display_error e)"

function send_retry_loop :: "byteorder \<Rightarrow> packet \<Rightarrow> session_config \<Rightarrow> usize \<Rightarrow> (unit, ptpip_error) io" where
  "send_retry_loop bo packet config n w =
     (case send_packet bo packet w of
        (Inr _, w') \<Rightarrow> (Ok (), w')
      | (Inl e, w') \<Rightarrow>
          let n = n + 1 in
          if n > max_retries config
          then (Err (retry_error config e), w')
          else send_retry_loop bo packet config n (sleep (duration_from_millis (retry_delay_ms config)) w'))"
  by pat_completeness auto
termination
  by (relation "measure (\<lambda>(bo, packet, config, n, w). max_retries config + 1 - n)") auto

declare send_retry_loop.simps [simp del]

definition send_packet_with_retry :: "byteorder \<Rightarrow> packet \<Rightarrow> session_config \<Rightarrow> (unit, ptpip_error) io" where
  "send_packet_with_retry bo packet config = send_retry_loop bo packet config 0"

section \<open>Receiving\<close>

definition known_message_type :: "u16 \<Rightarrow> ptpip_error + message_type" where
  "known_message_type code =
     (if code = 0x0003 then Ok CommandBlock
      else if code = 0x0004 then Ok DataBlock
      else if code = 0x0005 then Ok ResponseBlock
      else if code = 0x0006 then Ok EventBlock
      else Err (ProtocolError (''Unknown message type: 0x'' @ hex_pad 4 (unat code))))"

text \<open>The tail of \<open>recv_packet\<close>: read \<open>n\<close> payload bytes, if any, and build the packet.\<close>

definition read_payload :: "message_type \<Rightarrow> header \<Rightarrow> usize \<Rightarrow> (packet, ptpip_error) io" where
  "read_payload message_type header n =
     bind_io (if n > 0 then io_try (stream_read_exact n) else ret []) (\<lambda>payload.
     ret \<lparr>pkt_type = message_type, pkt_tid = h_transaction_id header, payload = payload\<rparr>)"

text \<open>
  A response carries a total length, itself included. A length that cannot be read, or is below 4,
  yields a packet without payload.
\<close>

definition read_response :: "header \<Rightarrow> (packet, ptpip_error) io" where
  "read_response header w =
     (case stream_read_exact 4 w of
        (Inl _, w') \<Rightarrow> read_payload ResponseBlock header 0 w'
      | (Inr len_bytes, w') \<Rightarrow>
          let total_len = shift_or32 (len_bytes ! 0) (len_bytes ! 1) (len_bytes ! 2) (len_bytes ! 3) in
          if total_len \<ge> 4 then read_payload ResponseBlock header (unat (total_len - 4)) w'
          else read_payload ResponseBlock header 0 w')"

definition recv_packet :: "byteorder \<Rightarrow> (packet, ptpip_error) io" where
  "recv_packet bo =
     bind_io (io_try (stream_read_exact 2)) (\<lambda>type_bytes.
     bind_io (header_from_stream bo (Some (shift_or16 (type_bytes ! 0) (type_bytes ! 1)))) (\<lambda>header.
     bind_io (lift_r (known_message_type (h_message_type header))) (\<lambda>message_type.
     if message_type = DataBlock
     then read_payload message_type header (unat (h_payload_length header))
     else if message_type = ResponseBlock
     then (if h_payload_length header = 0 then read_response header
           else read_payload message_type header 0)
     else read_payload message_type header 0)))"

section \<open>Frames and consumption\<close>

lemma header_from_stream_reads [keeps]: "preserves reads (header_from_stream bo t)"
  unfolding header_from_stream_def Let_def
  by (auto intro!: keeps split: prod.splits)

lemma read_payload_reads [keeps]: "preserves reads (read_payload t h n)"
  unfolding read_payload_def by (auto intro!: keeps)

lemma read_response_reads [keeps]: "preserves reads (read_response h)"
  unfolding preserves_def read_response_def Let_def
  by (auto split: prod.splits sum.splits if_splits intro: reads_trans
      dest!: preservesD [OF stream_read_exact_reads] preservesD [OF read_payload_reads])

lemma recv_packet_reads [keeps]: "preserves reads (recv_packet bo)"
  unfolding recv_packet_def by (auto intro!: keeps)

lemma recv_packet_consumes [shrinks]:
  assumes "recv_packet bo w = (Ok p, w')"
  shows "length (rx w') + 2 \<le> length (rx w)"
proof -
  obtain tb w1 where 1: "stream_read_exact 2 w = (Ok tb, w1)" and
    rest: "bind_io (header_from_stream bo (Some (shift_or16 (tb ! 0) (tb ! 1)))) (\<lambda>header.
     bind_io (lift_r (known_message_type (h_message_type header))) (\<lambda>message_type.
     if message_type = DataBlock
     then read_payload message_type header (unat (h_payload_length header))
     else if message_type = ResponseBlock
     then (if h_payload_length header = 0 then read_response header
           else read_payload message_type header 0)
     else read_payload message_type header 0)) w1 = (Ok p, w')" (is "?m w1 = _")
    using assms by (auto simp: recv_packet_def bind_io_eq_Ok)
  have "preserves reads ?m" by (auto intro!: keeps)
  with rest have "length (rx w') \<le> length (rx w1)"
    by (auto dest: preservesD reads_length)
  with stream_read_exact_Ok [OF 1] show ?thesis by simp
qed

text \<open>
  \<open>recv_packet_filtered\<close>: the loop ends because every packet it skips consumes input.
\<close>

function recv_filter_loop :: "byteorder \<Rightarrow> nat \<Rightarrow> message_type option \<Rightarrow> session_config \<Rightarrow>
    (packet, ptpip_error) io" where
  "recv_filter_loop bo start_time expected config w =
     (if clock w - start_time > duration_from_secs (cfg_timeout config) then (Err Timeout, w)
      else case recv_packet bo w of
             (Inl e, w') \<Rightarrow> (Err e, w')
           | (Inr packet, w') \<Rightarrow>
               (case expected of
                  None \<Rightarrow> (Ok packet, w')
                | Some t \<Rightarrow>
                    if pkt_type packet \<noteq> t then recv_filter_loop bo start_time expected config w'
                    else (Ok packet, w')))"
  by pat_completeness auto
termination
  by (relation "measure (\<lambda>(bo, s, e, c, w). length (rx w))")
    (auto dest!: recv_packet_consumes [OF sym])

declare recv_filter_loop.simps [simp del]

definition recv_packet_filtered :: "byteorder \<Rightarrow> message_type option \<Rightarrow> session_config \<Rightarrow>
    (packet, ptpip_error) io" where
  "recv_packet_filtered bo expected config w = recv_filter_loop bo (clock w) expected config w"

section \<open>The wire format\<close>

text \<open>
  What \<open>send_packet\<close> puts on the wire, and what a peer must send for \<open>recv_packet\<close> to deliver a
  packet: the two formats agree on data blocks only. A response carries its length (four tail
  than its payload); command and event packets are read without payload.
\<close>

definition wire_header :: "packet \<Rightarrow> bytes" where
  "wire_header p =
     write_u16_be (message_code (pkt_type p)) @ write_u16_be 0 @ write_u32_be (pkt_tid p) @
     (if pkt_type p = DataBlock then write_u32_be (word_of_nat (length (payload p))) else [])"

definition wire_out :: "packet \<Rightarrow> bytes" where
  "wire_out p = wire_header p @ payload p"

definition wire_in :: "packet \<Rightarrow> bytes" where
  "wire_in p =
     (if pkt_type p = ResponseBlock
      then wire_header p @ write_u32_be (word_of_nat (length (payload p) + 4)) @ payload p
      else wire_out p)"

fun receivable :: "packet \<Rightarrow> bool" where
  "receivable p =
     (case pkt_type p of
        DataBlock \<Rightarrow> length (payload p) < 2 ^ 32
      | ResponseBlock \<Rightarrow> length (payload p) + 4 < 2 ^ 32
      | CommandBlock \<Rightarrow> payload p = []
      | EventBlock \<Rightarrow> payload p = []
      | _ \<Rightarrow> False)"

declare receivable.simps [simp del]

abbreviation rx_bytes :: "bytes \<Rightarrow> rx_event list" where
  "rx_bytes \<equiv> map RxByte"

lemma header_type_total:
  "byteorder_spec bo \<Longrightarrow> FULL_HEADER_SIZE \<le> length bs \<Longrightarrow> is_ok (header_type bo t (cursor_new bs))"
  by (cases t) (simp_all add: header_type_def bo_simps u16.rd_is_ok FULL_HEADER_SIZE_def)

lemma header_to_bytes_eq:
  "byteorder_spec bo \<Longrightarrow> header_to_bytes bo h =
     Ok (write_u16_be (h_message_type h) @ write_u16_be (h_reserved h) @
         write_u32_be (h_transaction_id h) @
         (if h_message_type h = message_code DataBlock then write_u32_be (h_payload_length h) else []))"
  by (simp add: header_to_bytes_def bo_simps)

lemma packet_header_bytes:
  "byteorder_spec bo \<Longrightarrow> header_to_bytes bo (packet_header p) = Ok (wire_header p)"
  by (simp add: header_to_bytes_eq packet_header_def wire_header_def flip: message_code.simps(4))

lemma stream_read_prefix:
  "rx w = rx_bytes (bs @ tail) @ evs \<Longrightarrow> n = length bs \<Longrightarrow>
     stream_read_exact n w = (Ok bs, w\<lparr>rx := rx_bytes tail @ evs\<rparr>)"
  by (rule stream_read_exact_bytes) simp_all

lemma cursor_u16_u32:
  assumes "c = cursor_new (write_u16_be r @ write_u32_be t)"
  shows "read_u16_be c = Ok (r, advance 2 c)" and "read_u32_be (advance 2 c) = Ok (t, advance 6 c)"
  using assms u16.rd_wr [of c r "write_u32_be t"] u32.rd_wr [of "advance 2 c" t "[]"]
  by (simp_all add: remaining_at)

lemma header_from_stream_bytes:
  assumes bo: "byteorder_spec bo"
    and rx: "rx w = rx_bytes (write_u16_be r @ write_u32_be tid @
               (if t = message_code DataBlock then write_u32_be len else []) @ tail) @ evs"
  shows "header_from_stream bo (Some t) w =
     (Ok \<lparr>h_message_type = t, h_reserved = r, h_transaction_id = tid,
          h_payload_length = if t = message_code DataBlock then len else 0\<rparr>,
      w\<lparr>rx := rx_bytes tail @ evs\<rparr>)"
proof -
  let ?hb = "write_u16_be r @ write_u32_be tid"
  let ?rest = "(if t = message_code DataBlock then write_u32_be len else []) @ tail"
  have 1: "stream_read_exact 6 w = (Ok ?hb, w\<lparr>rx := rx_bytes ?rest @ evs\<rparr>)"
    by (rule stream_read_prefix) (use rx in simp_all)
  have 2: "t = message_code DataBlock \<Longrightarrow>
      stream_read_exact 4 (w\<lparr>rx := rx_bytes ?rest @ evs\<rparr>) =
      (Ok (write_u32_be len), w\<lparr>rx := rx_bytes tail @ evs\<rparr>)"
    by (subst stream_read_prefix [of _ "write_u32_be len" tail evs]) simp_all
  show ?thesis
    using 1 2 cursor_u16_u32 [OF refl, of r tid]
    by (cases "t = message_code DataBlock")
      (simp_all add: header_from_stream_def HEADER_AFTER_TYPE_SIZE_def header_type_def bo_simps [OF bo]
        bind_io_def io_try_def ret_apply lift_r_apply shift_or32_of_write [simplified] del: message_code.simps)
qed

lemma read_payload_bytes:
  assumes "rx w = rx_bytes (pl @ tail) @ evs"
  shows "read_payload t h (length pl) w =
     (Ok \<lparr>pkt_type = t, pkt_tid = h_transaction_id h, payload = pl\<rparr>, w\<lparr>rx := rx_bytes tail @ evs\<rparr>)"
proof (cases "pl = []")
  case True
  with assms have "w\<lparr>rx := rx_bytes tail @ evs\<rparr> = w" by simp
  with True show ?thesis by (simp add: read_payload_def ret_apply)
next
  case False
  then show ?thesis
    using stream_read_prefix [OF assms refl]
    by (simp add: read_payload_def bind_io_def io_try_def ret_apply)
qed

lemma read_response_bytes:
  assumes rx: "rx w = rx_bytes (write_u32_be (word_of_nat (length pl + 4)) @ pl @ tail) @ evs"
    and len: "length pl + 4 < 2 ^ 32"
  shows "read_response h w =
     (Ok \<lparr>pkt_type = ResponseBlock, pkt_tid = h_transaction_id h, payload = pl\<rparr>,
      w\<lparr>rx := rx_bytes tail @ evs\<rparr>)"
proof -
  let ?n = "word_of_nat (length pl + 4) :: u32"
  have n: "unat ?n = length pl + 4"
    using len by (intro unat_word_of_nat) simp
  then have ge: "4 \<le> ?n" by (simp add: word_le_nat_alt)
  have sub: "unat (?n - 4) = length pl"
    using unat_sub [OF ge] n by simp
  have rd: "stream_read_exact 4 w = (Ok (write_u32_be ?n), w\<lparr>rx := rx_bytes (pl @ tail) @ evs\<rparr>)"
    by (rule stream_read_prefix) (use rx in simp_all)
  show ?thesis
    using read_payload_bytes [of "w\<lparr>rx := rx_bytes (pl @ tail) @ evs\<rparr>" pl tail evs ResponseBlock h]
    unfolding read_response_def rd Let_def prod.case sum.case shift_or32_of_write sub
    using ge by simp
qed

lemma recv_packet_frame:
  assumes bo: "byteorder_spec bo" and ok: "receivable p"
    and rx: "rx w = rx_bytes (wire_in p @ tail) @ evs"
  shows "recv_packet bo w = (Ok p, w\<lparr>rx := rx_bytes tail @ evs\<rparr>)"
proof -
  let ?body = "(if pkt_type p = ResponseBlock then write_u32_be (word_of_nat (length (payload p) + 4)) else [])
     @ payload p @ tail"
  let ?t = "message_code (pkt_type p)"
  let ?h = "\<lparr>h_message_type = ?t, h_reserved = 0, h_transaction_id = pkt_tid p,
     h_payload_length = if ?t = message_code DataBlock then word_of_nat (length (payload p)) else 0\<rparr>"
  let ?hdr = "write_u16_be 0 @ write_u32_be (pkt_tid p) @
     (if ?t = message_code DataBlock then write_u32_be (word_of_nat (length (payload p))) else []) @ ?body"
  let ?w1 = "w\<lparr>rx := rx_bytes ?hdr @ evs\<rparr>"
  let ?w2 = "w\<lparr>rx := rx_bytes ?body @ evs\<rparr>"
  have rx': "rx w = rx_bytes (write_u16_be ?t @ ?hdr) @ evs"
    using rx by (auto simp: wire_in_def wire_out_def wire_header_def simp del: message_code.simps)
  have 1: "stream_read_exact 2 w = (Ok (write_u16_be ?t), ?w1)"
    by (rule stream_read_prefix [OF rx']) simp
  have 2: "header_from_stream bo (Some ?t) ?w1 = (Ok ?h, ?w2)"
    using header_from_stream_bytes [OF bo, of ?w1 0 "pkt_tid p" ?t "word_of_nat (length (payload p))" ?body evs]
    by (simp del: message_code.simps)
  have len: "pkt_type p = DataBlock \<Longrightarrow> unat (word_of_nat (length (payload p)) :: u32) = length (payload p)"
    using ok by (intro unat_word_of_nat) (simp add: receivable.simps)
  have p: "p = \<lparr>pkt_type = pkt_type p, pkt_tid = pkt_tid p, payload = payload p\<rparr>" by simp
  note step = recv_packet_def bind_io_def io_try_def 1 2 map_err.simps prod.case sum.case
    shift_or16_of_write
  show ?thesis
  proof (cases "pkt_type p")
    case ResponseBlock
    have "read_response ?h ?w2 = (Ok p, w\<lparr>rx := rx_bytes tail @ evs\<rparr>)"
      using ok read_response_bytes [of ?w2 "payload p" tail evs ?h] ResponseBlock p
      by (simp add: receivable.simps)
    then show ?thesis
      unfolding step by (simp add: ResponseBlock known_message_type_def lift_r_apply)
  next
    case DataBlock
    have "read_payload DataBlock ?h (length (payload p)) ?w2 = (Ok p, w\<lparr>rx := rx_bytes tail @ evs\<rparr>)"
      using read_payload_bytes [of ?w2 "payload p" tail evs DataBlock ?h] DataBlock p by simp
    then show ?thesis
      unfolding step by (simp add: DataBlock known_message_type_def lift_r_apply len)
  next
    case CommandBlock
    have "read_payload CommandBlock ?h 0 ?w2 = (Ok p, w\<lparr>rx := rx_bytes tail @ evs\<rparr>)"
      using read_payload_bytes [of ?w2 "[]" tail evs CommandBlock ?h] CommandBlock p ok
      by (simp add: receivable.simps)
    then show ?thesis
      unfolding step by (simp add: CommandBlock known_message_type_def lift_r_apply)
  next
    case EventBlock
    have "read_payload EventBlock ?h 0 ?w2 = (Ok p, w\<lparr>rx := rx_bytes tail @ evs\<rparr>)"
      using read_payload_bytes [of ?w2 "[]" tail evs EventBlock ?h] EventBlock p ok
      by (simp add: receivable.simps)
    then show ?thesis
      unfolding step by (simp add: EventBlock known_message_type_def lift_r_apply)
  qed (use ok in \<open>simp_all add: receivable.simps\<close>)
qed

end
