(* ===== verification/Transport_Facts.thy ===== *)
theory Transport_Facts
  imports Transport
begin

text \<open>
  What the packet layer of \<open>src/transport.rs\<close> guarantees: the bytes a send leaves on the wire, with
  and without failures and retries; that receiving inverts the wire format; that the type filter
  delivers the first matching packet of the stream; and the two places where it falls short
  (a retry after a partial write, and event payloads).
\<close>

section \<open>Sending\<close>

text \<open>\<open>sends bs w w'\<close>: exactly \<open>bs\<close> was appended to the wire; only write outcomes were consumed.\<close>

definition sends :: "bytes \<Rightarrow> world \<Rightarrow> world \<Rightarrow> bool" where
  "sends bs w w' \<longleftrightarrow> (\<exists>used s. tx_script w = used @ s \<and> w' = w\<lparr>tx := tx w @ bs, tx_script := s\<rparr>)"

lemma sends_Nil [simp]: "sends [] w w"
  unfolding sends_def by (intro exI [of _ "[]"] exI [of _ "tx_script w"]) simp

lemma sends_trans: "sends a w w' \<Longrightarrow> sends b w' w'' \<Longrightarrow> sends (a @ b) w w''"
  unfolding sends_def by clarsimp (metis append_assoc)

lemma write_all_sends:
  assumes "stream_write_all data w = (r, w')"
  shows "\<exists>k. sends (take k data) w w' \<and> (is_ok r \<longrightarrow> take k data = data)"
proof (cases "data = []")
  case True
  with assms show ?thesis by (auto simp: stream_write_all_def)
next
  case False
  show ?thesis
  proof (cases "tx_script w")
    case Nil
    with assms False have "sends data w w' \<and> r = Ok ()"
      by (auto simp: stream_write_all_def sends_def)
    then show ?thesis by (intro exI [of _ "length data"]) simp
  next
    case (Cons x s)
    show ?thesis
    proof (cases x)
      case TxOk
      have "sends data w (w\<lparr>tx := tx w @ data, tx_script := s\<rparr>)"
        unfolding sends_def by (rule exI [of _ "[x]"]) (use Cons in auto)
      with assms False Cons TxOk have "sends data w w' \<and> r = Ok ()"
        by (auto simp: stream_write_all_def)
      then show ?thesis by (intro exI [of _ "length data"]) simp
    next
      case (TxErr k e)
      have "sends (take (min k (length data - 1)) data) w
          (w\<lparr>tx := tx w @ take k (butlast data), tx_script := s\<rparr>)"
        unfolding sends_def butlast_conv_take take_take
        by (rule exI [of _ "[x]"]) (use Cons in auto)
      with assms False Cons TxErr show ?thesis
        by (intro exI [of _ "min k (length data - 1)"]) (auto simp: stream_write_all_def)
    qed
  qed
qed

lemma flush_sends: "stream_flush w = (r, w') \<Longrightarrow> sends [] w w'"
  unfolding sends_def stream_flush_def
  by (auto split: list.splits tx_outcome.splits intro: exI [of _ "[]"] exI [of _ "[x]" for x])

lemma write_all_clean:
  "tx_script w = [] \<Longrightarrow> stream_write_all data w = (Ok (), w\<lparr>tx := tx w @ data\<rparr>)"
  by (simp add: stream_write_all_def)

lemma send_packet_clean:
  assumes "byteorder_spec bo" and "tx_script w = []"
  shows "send_packet bo p w = (Ok (), w\<lparr>tx := tx w @ wire_out p\<rparr>)"
  using assms
  by (simp add: send_packet_def packet_header_bytes bind_io_def io_try_def write_all_clean
      stream_flush_def ret_apply lift_r_apply wire_out_def)

lemma send_packet_sends:
  assumes bo: "byteorder_spec bo" and run: "send_packet bo p w = (r, w')"
  shows "\<exists>k. sends (take k (wire_out p)) w w' \<and> (is_ok r \<longrightarrow> take k (wire_out p) = wire_out p)"
proof -
  obtain r1 w1 where 1: "stream_write_all (wire_header p) w = (r1, w1)" by fastforce
  obtain k1 where k1: "sends (take k1 (wire_header p)) w w1" "is_ok r1 \<longrightarrow> take k1 (wire_header p) = wire_header p"
    using write_all_sends [OF 1] by auto
  show ?thesis
  proof (cases r1)
    case (Inl e)
    have "w' = w1" "\<not> is_ok r"
      using run Inl by (auto simp: send_packet_def packet_header_bytes [OF bo] bind_io_def io_try_def
          lift_r_apply 1)
    then show ?thesis using k1
      by (intro exI [of _ "min k1 (length (wire_header p))"])
        (auto simp: wire_out_def min_def split: if_splits)
  next
    case (Inr u)
    then have h: "sends (wire_header p) w w1" using k1 by auto
    obtain r2 w2 where 2: "stream_write_all (payload p) w1 = (r2, w2)" by fastforce
    obtain k2 where k2: "sends (take k2 (payload p)) w1 w2" "is_ok r2 \<longrightarrow> take k2 (payload p) = payload p"
      using write_all_sends [OF 2] by auto
    have hp: "sends (take (length (wire_header p) + k2) (wire_out p)) w w2"
      using sends_trans [OF h k2(1)] by (simp add: wire_out_def)
    obtain r3 w3 where 3: "stream_flush w2 = (r3, w3)" by fastforce
    have all: "sends (take (length (wire_header p) + k2) (wire_out p)) w w3"
      using sends_trans [OF hp flush_sends [OF 3]] by simp
    have pay: "(if payload p \<noteq> [] then io_try (stream_write_all (payload p)) else ret ()) w1 = (try_io r2, w2)"
      using 2 by (auto simp: io_try_def ret_apply stream_write_all_def)
    have "r2 = Ok () \<and> w' = w3 \<or> \<not> is_ok r2 \<and> \<not> is_ok r \<and> w' = w2"
      using run Inr 3
      by (cases r2; cases r3) (auto simp: send_packet_def packet_header_bytes [OF bo] bind_io_def
          io_try_def 1 pay ret_apply lift_r_apply)
    then show ?thesis
    proof
      assume "r2 = Ok () \<and> w' = w3"
      then show ?thesis using k2 all
        by (intro exI [of _ "length (wire_header p) + k2"]) (auto simp: wire_out_def)
    next
      assume "\<not> is_ok r2 \<and> \<not> is_ok r \<and> w' = w2"
      then show ?thesis using hp by blast
    qed
  qed
qed

lemma send_packet_Ok: "byteorder_spec bo \<Longrightarrow> send_packet bo p w = (Ok u, w') \<Longrightarrow> sends (wire_out p) w w'"
  using send_packet_sends by fastforce

lemma send_packet_Err:
  "byteorder_spec bo \<Longrightarrow> send_packet bo p w = (Err e, w') \<Longrightarrow> \<exists>k. sends (take k (wire_out p)) w w'"
  using send_packet_sends by blast

section \<open>Retrying\<close>

lemma sends_fields:
  "sends bs w w' \<Longrightarrow> clock w' = clock w \<and> rx w' = rx w \<and> tx w' = tx w @ bs \<and> files w' = files w"
  by (auto simp: sends_def)

definition attempts :: "packet \<Rightarrow> nat list \<Rightarrow> bytes" where
  "attempts p ks = concat (map (\<lambda>k. take k (wire_out p)) ks)"

lemma send_retry_loop_wire:
  assumes bo: "byteorder_spec bo" and n: "n \<le> max_retries cfg"
    and run: "send_retry_loop bo p cfg n w = (r, w')"
  shows "(\<exists>ks. r = Ok () \<and> n + length ks \<le> max_retries cfg \<and>
            tx w' = tx w @ attempts p ks @ wire_out p \<and>
            clock w' = clock w + length ks * duration_from_millis (retry_delay_ms cfg)) \<or>
         (\<exists>k ks e. r = Err (retry_error cfg e) \<and> n + length ks = max_retries cfg \<and>
            tx w' = tx w @ attempts p (ks @ [k]) \<and>
            clock w' = clock w + length ks * duration_from_millis (retry_delay_ms cfg))"
    (is "?sent n w \<or> ?gave_up n w")
  using n run
proof (induction "max_retries cfg - n" arbitrary: n w)
  case (0 n w)
  obtain r1 w1 where 1: "send_packet bo p w = (r1, w1)" by fastforce
  show ?case
  proof (cases r1)
    case (Inr u)
    with 0 1 have "r = Ok () \<and> w' = w1" by (simp add: send_retry_loop.simps [of _ _ _ n])
    then have "?sent n w" using send_packet_Ok [OF bo, of p w u w1] 1 Inr 0
      by (intro exI [of _ "[]"]) (auto simp: attempts_def dest: sends_fields)
    then show ?thesis ..
  next
    case (Inl e)
    then obtain k where k: "sends (take k (wire_out p)) w w1"
      using send_packet_Err [OF bo] 1 by blast
    from 0 1 Inl have "r = Err (retry_error cfg e) \<and> w' = w1"
      by (simp add: send_retry_loop.simps [of _ _ _ n])
    then have "?gave_up n w" using sends_fields [OF k] 0
      by (intro exI [of _ k] exI [of _ "[]"] exI [of _ e]) (auto simp: attempts_def)
    then show ?thesis ..
  qed
next
  case (Suc m n w)
  obtain r1 w1 where 1: "send_packet bo p w = (r1, w1)" by fastforce
  let ?w2 = "sleep (duration_from_millis (retry_delay_ms cfg)) w1"
  have n: "Suc n \<le> max_retries cfg" using Suc.hyps(2) by simp
  show ?case
  proof (cases r1)
    case (Inr u)
    with Suc.prems 1 have "r = Ok () \<and> w' = w1" by (simp add: send_retry_loop.simps [of _ _ _ n])
    then have "?sent n w" using send_packet_Ok [OF bo, of p w u w1] 1 Inr Suc.prems
      by (intro exI [of _ "[]"]) (auto simp: attempts_def dest: sends_fields)
    then show ?thesis ..
  next
    case (Inl e)
    then obtain k where k: "sends (take k (wire_out p)) w w1"
      using send_packet_Err [OF bo] 1 by blast
    have "send_retry_loop bo p cfg (Suc n) ?w2 = (r, w')"
      using Suc.prems n 1 Inl by (simp add: send_retry_loop.simps [of _ _ _ n])
    then have "?sent (Suc n) ?w2 \<or> ?gave_up (Suc n) ?w2"
      using Suc.hyps(2) n by (intro Suc.hyps(1)) simp_all
    then show ?thesis
    proof
      assume "?sent (Suc n) ?w2"
      then obtain ks where "r = Ok ()" "Suc n + length ks \<le> max_retries cfg"
        "tx w' = tx ?w2 @ attempts p ks @ wire_out p"
        "clock w' = clock ?w2 + length ks * duration_from_millis (retry_delay_ms cfg)" by blast
      then have "?sent n w" using sends_fields [OF k]
        by (intro exI [of _ "k # ks"]) (simp add: attempts_def sleep_def)
      then show ?thesis ..
    next
      assume "?gave_up (Suc n) ?w2"
      then obtain k' ks e' where "r = Err (retry_error cfg e')" "Suc n + length ks = max_retries cfg"
        "tx w' = tx ?w2 @ attempts p (ks @ [k'])"
        "clock w' = clock ?w2 + length ks * duration_from_millis (retry_delay_ms cfg)" by blast
      then have "?gave_up n w" using sends_fields [OF k]
        by (intro exI [of _ k'] exI [of _ "k # ks"] exI [of _ e']) (simp add: attempts_def sleep_def)
      then show ?thesis ..
    qed
  qed
qed

text \<open>
  C16. A send with retries succeeds only after a complete copy of the packet is on the wire, makes
  at most \<open>max_retries + 1\<close> attempts, sleeps the configured delay between attempts and only
  then, and reports exhaustion as \<open>Other\<close>. What failed attempts wrote stays on the wire in
  front of the packet: each left some prefix of it.
\<close>

theorem send_with_retry_wire:
  assumes "byteorder_spec bo" and "send_packet_with_retry bo p cfg w = (r, w')"
  shows "(\<exists>ks. r = Ok () \<and> length ks \<le> max_retries cfg \<and>
            tx w' = tx w @ attempts p ks @ wire_out p \<and>
            clock w' = clock w + length ks * duration_from_millis (retry_delay_ms cfg)) \<or>
         (\<exists>ks e. r = Err (retry_error cfg e) \<and> length ks = max_retries cfg + 1 \<and>
            tx w' = tx w @ attempts p ks \<and>
            clock w' = clock w + max_retries cfg * duration_from_millis (retry_delay_ms cfg))"
  using send_retry_loop_wire [OF assms(1) _ assms(2) [unfolded send_packet_with_retry_def]]
  by (fastforce intro: exI [of _ "_ @ [_]"])

theorem send_with_retry_wire_witness:
  "\<exists>r w'. send_packet_with_retry utils_byteorder
       \<lparr>pkt_type = DataBlock, pkt_tid = 7, payload = [1, 2]\<rparr> default_session_config
       (quiet\<lparr>tx_script := [TxOk, TxErr 1 not_found_error]\<rparr>) = (r, w') \<and>
     ((\<exists>ks. r = Ok () \<and> length ks \<le> 3 \<and>
        tx w' = attempts \<lparr>pkt_type = DataBlock, pkt_tid = 7, payload = [1, 2]\<rparr> ks @
          wire_out \<lparr>pkt_type = DataBlock, pkt_tid = 7, payload = [1, 2]\<rparr>) \<or>
      (\<exists>ks. length ks = 4 \<and> tx w' = attempts \<lparr>pkt_type = DataBlock, pkt_tid = 7, payload = [1, 2]\<rparr> ks))"
proof -
  let ?p = "\<lparr>pkt_type = DataBlock, pkt_tid = 7, payload = [1, 2]\<rparr>"
  obtain r w' where run: "send_packet_with_retry utils_byteorder ?p default_session_config
       (quiet\<lparr>tx_script := [TxOk, TxErr 1 not_found_error]\<rparr>) = (r, w')" by fastforce
  from send_with_retry_wire [OF utils_byteorder_spec this]
  show ?thesis
    using run by (intro exI [of _ r] exI [of _ w']) (auto simp: quiet_def default_session_config_def)
qed

text \<open>
  C17. A retry starts the packet again although part of it may be on the wire. When the header of a
  data block went out and its payload failed, the retried send reports success, the wire holds
  the header twice, and a receiver takes the second header for the beginning of the payload.
\<close>

theorem retry_breaks_framing:
  assumes "byteorder_spec bo" and "pkt_type p = DataBlock"
    and "payload p \<noteq> []" and "length (payload p) < 2 ^ 32"
    and "1 \<le> max_retries cfg" and "tx_script w = [TxOk, TxErr 0 e]"
  shows "\<exists>w'. send_packet_with_retry bo p cfg w = (Ok (), w') \<and>
     tx w' = tx w @ wire_header p @ wire_out p \<and>
     fst (recv_packet bo (w\<lparr>rx := rx_bytes (wire_header p @ wire_out p)\<rparr>)) =
       Ok (p\<lparr>payload := take (length (payload p)) (wire_out p)\<rparr>)"
proof -
  let ?w1 = "w\<lparr>tx := tx w @ wire_header p, tx_script := []\<rparr>"
  let ?w2 = "sleep (duration_from_millis (retry_delay_ms cfg)) ?w1"
  let ?q = "p\<lparr>payload := take (length (payload p)) (wire_out p)\<rparr>"
  have ne: "wire_header p \<noteq> []"
    by (simp add: wire_header_def write_defs)
  have "send_packet bo p w = (Err (from_io_error e), ?w1)"
    using assms ne by (simp add: send_packet_def packet_header_bytes bind_io_def io_try_def
        stream_write_all_def lift_r_apply)
  moreover have "send_packet bo p ?w2 = (Ok (), ?w2\<lparr>tx := tx ?w2 @ wire_out p\<rparr>)"
    using assms by (intro send_packet_clean) (simp_all add: sleep_def)
  ultimately have sent: "send_packet_with_retry bo p cfg w = (Ok (), ?w2\<lparr>tx := tx ?w2 @ wire_out p\<rparr>)"
    using assms(5) by (simp add: send_packet_with_retry_def send_retry_loop.simps [of bo p cfg 0]
        send_retry_loop.simps [of bo p cfg "Suc 0"])
  have len: "length (take (length (payload p)) (wire_out p)) = length (payload p)"
    by (simp add: wire_out_def)
  then have hq: "wire_in ?q = wire_header p @ take (length (payload p)) (wire_out p)"
    using assms(2) by (simp add: wire_in_def wire_out_def [of ?q] wire_header_def [of ?q] wire_header_def [of p])
  have "receivable ?q"
    using assms(2,4) len by (simp add: receivable.simps)
  then have "fst (recv_packet bo (w\<lparr>rx := rx_bytes (wire_in ?q @ drop (length (payload p)) (wire_out p))\<rparr>)) = Ok ?q"
    using recv_packet_frame [OF assms(1), of ?q "w\<lparr>rx := rx_bytes (wire_in ?q @ drop (length (payload p)) (wire_out p))\<rparr>"
        "drop (length (payload p)) (wire_out p)" "[]"] by simp
  then have "fst (recv_packet bo (w\<lparr>rx := rx_bytes (wire_header p @ wire_out p)\<rparr>)) = Ok ?q"
    by (simp add: hq del: map_append)
  with sent show ?thesis by (simp add: sleep_def)
qed

theorem retry_breaks_framing_witness:
  "\<exists>w'. send_packet_with_retry utils_byteorder
       \<lparr>pkt_type = DataBlock, pkt_tid = 7, payload = [1, 2]\<rparr> default_session_config
       (quiet\<lparr>tx_script := [TxOk, TxErr 0 not_found_error]\<rparr>) = (Ok (), w') \<and>
     tx w' = [0, 4, 0, 0, 0, 0, 0, 7, 0, 0, 0, 2, 0, 4, 0, 0, 0, 0, 0, 7, 0, 0, 0, 2, 1, 2] \<and>
     fst (recv_packet utils_byteorder (quiet\<lparr>tx_script := [TxOk, TxErr 0 not_found_error],
        rx := rx_bytes [0, 4, 0, 0, 0, 0, 0, 7, 0, 0, 0, 2, 0, 4, 0, 0, 0, 0, 0, 7, 0, 0, 0, 2, 1, 2]\<rparr>)) =
       Ok \<lparr>pkt_type = DataBlock, pkt_tid = 7, payload = [0, 4]\<rparr>"
  using retry_breaks_framing [OF utils_byteorder_spec, of "\<lparr>pkt_type = DataBlock, pkt_tid = 7, payload = [1, 2]\<rparr>"
      default_session_config "quiet\<lparr>tx_script := [TxOk, TxErr 0 not_found_error]\<rparr>" not_found_error]
  by (simp add: quiet_def default_session_config_def wire_header_def wire_out_def write_defs)

section \<open>Receiving\<close>

text \<open>
  C15. Framing round-trips: a data block that \<open>send_packet\<close> wrote is what \<open>recv_packet\<close> delivers, with
  its transaction and every payload byte, and the bytes that follow it stay unread, whatever was
  on the wire before and comes after.
\<close>

theorem data_block_roundtrip:
  assumes "byteorder_spec bo" and "pkt_type p = DataBlock" and "length (payload p) < 2 ^ 32"
    and "tx_script w = []" and "rx peer = rx_bytes (wire_out p) @ evs"
  shows "send_packet bo p w = (Ok (), w\<lparr>tx := tx w @ wire_out p\<rparr>) \<and>
     recv_packet bo peer = (Ok p, peer\<lparr>rx := evs\<rparr>)"
proof -
  have "receivable p" and "wire_in p = wire_out p"
    using assms(2,3) by (simp_all add: receivable.simps wire_in_def)
  then show ?thesis
    using send_packet_clean [OF assms(1,4)] recv_packet_frame [OF assms(1), of p peer "[]" evs] assms(5)
    by simp
qed

theorem data_block_roundtrip_witness:
  "recv_packet utils_byteorder
     (quiet\<lparr>rx := rx_bytes (wire_out \<lparr>pkt_type = DataBlock, pkt_tid = 9, payload = [5, 6, 7]\<rparr>)\<rparr>) =
     (Ok \<lparr>pkt_type = DataBlock, pkt_tid = 9, payload = [5, 6, 7]\<rparr>, quiet)"
  using data_block_roundtrip [OF utils_byteorder_spec, of "\<lparr>pkt_type = DataBlock, pkt_tid = 9, payload = [5, 6, 7]\<rparr>"
      quiet "quiet\<lparr>rx := rx_bytes (wire_out \<lparr>pkt_type = DataBlock, pkt_tid = 9, payload = [5, 6, 7]\<rparr>)\<rparr>" "[]"]
  by (simp add: quiet_def)

lemma read_payload_Ok:
  "read_payload t h n w = (Ok p, w') \<Longrightarrow> pkt_type p = t \<and> length (payload p) = n"
  by (auto simp: read_payload_def bind_io_eq_Ok ret_apply split: if_splits dest!: stream_read_exact_Ok)

lemma read_response_Ok:
  "read_response h w = (Ok p, w') \<Longrightarrow> pkt_type p = ResponseBlock \<and> length (payload p) < 2 ^ 32"
  by (auto simp: read_response_def Let_def split: prod.splits sum.splits if_splits
      dest!: read_payload_Ok intro: unat_u32_less [simplified])

lemma recv_packet_Ok:
  assumes "recv_packet bo w = (Ok p, w')"
  shows "pkt_type p \<in> {CommandBlock, DataBlock, ResponseBlock, EventBlock}"
    and "pkt_type p \<in> {CommandBlock, EventBlock} \<longrightarrow> payload p = []"
    and "length (payload p) < 2 ^ 32"
  using assms
  by (auto simp: recv_packet_def bind_io_eq_Ok lift_r_apply known_message_type_def
      split: if_splits dest!: read_payload_Ok read_response_Ok intro: unat_u32_less [simplified])

text \<open>
  An event packet never carries data: \<open>recv_packet\<close> reads no length and no payload for events
  and commands, so whatever the camera sends after the eight header bytes of an event is left on
  the stream, to be read as the next packet's header.
\<close>

theorem event_payload_dropped:
  assumes "byteorder_spec bo" and "rx w = rx_bytes (wire_header p @ body) @ evs"
    and "pkt_type p = EventBlock"
  shows "recv_packet bo w = (Ok (p\<lparr>payload := []\<rparr>), w\<lparr>rx := rx_bytes body @ evs\<rparr>)"
proof -
  have "wire_in (p\<lparr>payload := []\<rparr>) = wire_header p" and "receivable (p\<lparr>payload := []\<rparr>)"
    using assms(3) by (simp_all add: wire_in_def wire_out_def wire_header_def receivable.simps)
  then show ?thesis
    using recv_packet_frame [OF assms(1), of "p\<lparr>payload := []\<rparr>" w body evs] assms(2) by simp
qed

theorem event_payload_dropped_witness:
  "recv_packet utils_byteorder (quiet\<lparr>rx := rx_bytes
       [0, 6, 0, 0, 0, 0, 0, 1, 0x40, 1, 0, 1, 0, 0, 0, 10]\<rparr>) =
     (Ok \<lparr>pkt_type = EventBlock, pkt_tid = 1, payload = []\<rparr>,
      quiet\<lparr>rx := rx_bytes [0x40, 1, 0, 1, 0, 0, 0, 10]\<rparr>)"
  using event_payload_dropped [OF utils_byteorder_spec, of
      "quiet\<lparr>rx := rx_bytes [0, 6, 0, 0, 0, 0, 0, 1, 0x40, 1, 0, 1, 0, 0, 0, 10]\<rparr>"
      "\<lparr>pkt_type = EventBlock, pkt_tid = 1, payload = [0x40, 1]\<rparr>" "[0x40, 1, 0, 1, 0, 0, 0, 10]" "[]"]
  by (simp add: quiet_def wire_header_def write_defs)

section \<open>The type filter\<close>

definition frames :: "packet list \<Rightarrow> rx_event list" where
  "frames ps = concat (map (\<lambda>p. rx_bytes (wire_in p)) ps)"

lemma frames_simps [simp]:
  "frames [] = []" "frames (p # ps) = rx_bytes (wire_in p) @ frames ps"
  by (simp_all add: frames_def)

lemma recv_packet_frames:
  "byteorder_spec bo \<Longrightarrow> receivable p \<Longrightarrow> rx w = frames (p # ps) @ evs \<Longrightarrow>
     recv_packet bo w = (Ok p, w\<lparr>rx := frames ps @ evs\<rparr>)"
  using recv_packet_frame [of bo p w "[]" "frames ps @ evs"] by simp

lemma recv_filter_loop_frames:
  assumes bo: "byteorder_spec bo"
    and "\<forall>p \<in> set ps. receivable p" and "rx w = frames ps @ evs"
    and "clock w - t0 \<le> duration_from_secs (cfg_timeout cfg)"
    and "dropWhile (\<lambda>p. pkt_type p \<noteq> t) ps = q # qs"
  shows "recv_filter_loop bo t0 (Some t) cfg w = (Ok q, w\<lparr>rx := frames qs @ evs\<rparr>)"
  using assms(2-)
proof (induction ps arbitrary: w)
  case Nil
  then show ?case by simp
next
  case (Cons p ps)
  have step: "recv_packet bo w = (Ok p, w\<lparr>rx := frames ps @ evs\<rparr>)"
    using recv_packet_frames [OF bo] Cons.prems by simp
  show ?case
  proof (cases "pkt_type p = t")
    case True
    with Cons.prems step show ?thesis by (simp add: recv_filter_loop.simps [of _ _ _ _ w])
  next
    case False
    have "recv_filter_loop bo t0 (Some t) cfg (w\<lparr>rx := frames ps @ evs\<rparr>) =
        (Ok q, w\<lparr>rx := frames qs @ evs\<rparr>)"
      using Cons.IH [of "w\<lparr>rx := frames ps @ evs\<rparr>"] Cons.prems False by simp
    with Cons.prems step False show ?thesis by (simp add: recv_filter_loop.simps [of _ _ _ _ w])
  qed
qed

lemma filter_loop_delivers:
  assumes "byteorder_spec bo" and "\<forall>p \<in> set ps. receivable p" and "rx w = frames ps @ evs"
    and "dropWhile (\<lambda>p. pkt_type p \<noteq> t) ps = q # qs"
  shows "recv_packet_filtered bo (Some t) cfg w = (Ok q, w\<lparr>rx := frames qs @ evs\<rparr>)"
  using recv_filter_loop_frames [OF assms(1-3) _ assms(4)] by (simp add: recv_packet_filtered_def)

text \<open>
  The type filter delivers exactly the first packet of the wanted type from the stream: every
  earlier packet is discarded, and every later byte stays unread.
\<close>

theorem filter_first_match:
  assumes "byteorder_spec bo" and "\<forall>p \<in> set ps. receivable p" and "rx w = frames ps @ evs"
    and "dropWhile (\<lambda>p. pkt_type p \<noteq> t) ps = q # qs"
  shows "recv_packet_filtered bo (Some t) cfg w = (Ok q, w\<lparr>rx := frames qs @ evs\<rparr>)"
  using filter_loop_delivers [OF assms] .

theorem filter_first_match_witness:
  "recv_packet_filtered utils_byteorder (Some ResponseBlock) default_session_config
     (quiet\<lparr>rx := frames [\<lparr>pkt_type = EventBlock, pkt_tid = 3, payload = []\<rparr>,
        \<lparr>pkt_type = ResponseBlock, pkt_tid = 4, payload = [1, 2]\<rparr>]\<rparr>) =
     (Ok \<lparr>pkt_type = ResponseBlock, pkt_tid = 4, payload = [1, 2]\<rparr>, quiet)"
  using filter_first_match [OF utils_byteorder_spec, of
      "[\<lparr>pkt_type = EventBlock, pkt_tid = 3, payload = []\<rparr>, \<lparr>pkt_type = ResponseBlock, pkt_tid = 4, payload = [1, 2]\<rparr>]"
      "quiet\<lparr>rx := frames [\<lparr>pkt_type = EventBlock, pkt_tid = 3, payload = []\<rparr>,
        \<lparr>pkt_type = ResponseBlock, pkt_tid = 4, payload = [1, 2]\<rparr>]\<rparr>" "[]" ResponseBlock]
  by (simp add: receivable.simps quiet_def)

lemma recv_filter_loop_reads: "recv_filter_loop bo t0 e cfg w = (r, w') \<Longrightarrow> reads w w'"
proof (induction bo t0 e cfg w arbitrary: r rule: recv_filter_loop.induct)
  case (1 bo t0 e cfg w)
  obtain r1 w1 where run: "recv_packet bo w = (r1, w1)" by fastforce
  have rd: "reads w w1" using preservesD [OF recv_packet_reads run] .
  show ?case
    using "1.prems" "1.IH" [OF _ run [symmetric]] rd
    by (subst (asm) recv_filter_loop.simps)
      (auto simp: run split: sum.splits option.splits if_splits intro: reads_trans)
qed

lemma recv_filtered_reads [keeps]: "preserves reads (recv_packet_filtered bo e cfg)"
  by (auto simp: preserves_def recv_packet_filtered_def dest: recv_filter_loop_reads)

lemma recv_filter_loop_Ok:
  "recv_filter_loop bo t0 e cfg w = (Ok p, w') \<Longrightarrow>
     (\<exists>w1. reads w w1 \<and> recv_packet bo w1 = (Ok p, w') \<and>
           clock w1 - t0 \<le> duration_from_secs (cfg_timeout cfg)) \<and>
     (\<forall>t. e = Some t \<longrightarrow> pkt_type p = t)"
proof (induction bo t0 e cfg w rule: recv_filter_loop.induct)
  case (1 bo t0 e cfg w)
  obtain r1 w1 where run: "recv_packet bo w = (r1, w1)" by fastforce
  have rd: "reads w w1" using preservesD [OF recv_packet_reads run] .
  show ?case
    using "1.prems" "1.IH" [OF _ run [symmetric]] rd run
    by (subst (asm) recv_filter_loop.simps)
      (auto split: sum.splits option.splits if_splits intro: reads_refl not_less [THEN iffD1],
       meson reads_trans)
qed

lemma recv_filtered_consumes [shrinks]:
  "recv_packet_filtered bo e cfg w = (Ok p, w') \<Longrightarrow> length (rx w') + 2 \<le> length (rx w)"
  by (auto simp: recv_packet_filtered_def dest!: recv_filter_loop_Ok recv_packet_consumes reads_length)

lemma recv_filtered_type: "recv_packet_filtered bo (Some t) cfg w = (Ok p, w') \<Longrightarrow> pkt_type p = t"
  by (auto simp: recv_packet_filtered_def dest!: recv_filter_loop_Ok)

end
