(* ===== verification/Parse.thy ===== *)
theory Parse
  imports Utils_Text
begin

text \<open>
  The response parsers of \<open>src/transport.rs\<close>: device information, storage information, and the
  extraction of a string from an offset and a length. The 64-bit reader of that module goes
  through the \<open>byteorder\<close> crate, so \<open>parse_storage_info\<close> takes the crate as its argument.
  Offsets and lengths come from 32-bit fields: their sum stays far below \<open>2 ^ 64\<close>
  (\<open>extract_offset_bound\<close>), so \<open>offset + length\<close> cannot wrap.
\<close>

section \<open>Strings\<close>

definition extract_string :: "bytes \<Rightarrow> usize \<Rightarrow> usize \<Rightarrow> ptpip_error + string" where
  "extract_string data offset len =
     (if offset + len > length data
      then Err (ProtocolError (''String extraction out of bounds: offset='' @ dec offset @
              '', length='' @ dec len @ '', data length='' @ dec (length data)))
      else map_err from_utf8_error
             (from_utf8 (takeWhile (\<lambda>b. b \<noteq> 0) (take len (drop offset data)))))"

lemma extract_offset_bound: "unat (offset :: u32) + unat (len :: u32) < 2 ^ 64"
  using unat_u32_less [of offset] unat_u32_less [of len] by simp

text \<open>A string that survives on the wire: well-formed UTF-8 without NUL.\<close>

definition wire_string :: "string \<Rightarrow> bool" where
  "wire_string s \<longleftrightarrow> valid_str s \<and> 0 \<notin> set (bytes_of_string s)"

lemma takeWhile_no_nul: "0 \<notin> set b \<Longrightarrow> takeWhile (\<lambda>x. x \<noteq> 0) b = (b :: bytes)"
  by (auto simp: takeWhile_eq_all_conv)

lemma extract_string_at:
  assumes "wire_string s" and "data = pre @ bytes_of_string s @ post"
    and "off = length pre" and "len = length (bytes_of_string s)"
  shows "extract_string data off len = Ok s"
  using assms by (simp add: extract_string_def wire_string_def valid_str_def takeWhile_no_nul from_utf8_def)

lemma extract_string_Ok_bounds:
  "extract_string data off len = Ok s \<Longrightarrow> off + len \<le> length data \<and> 0 \<notin> set (bytes_of_string s) \<and> valid_str s"
  by (auto simp: extract_string_def from_utf8_def bind_r_eq_Ok valid_str_def split: if_splits
      dest: set_takeWhileD)

section \<open>Device information\<close>

definition parse_device_info :: "bytes \<Rightarrow> ptpip_error + device_info" where
  "parse_device_info data =
     (if length data < 24
      then Err (ProtocolError ''Insufficient data length for device info'')
      else
        bind_r (try_io (read_u32_be (set_position 8 (cursor_new data)))) (\<lambda>(manufacturer_offset, cursor).
        bind_r (try_io (read_u32_be cursor)) (\<lambda>(manufacturer_len, cursor).
        bind_r (try_io (read_u32_be cursor)) (\<lambda>(model_offset, cursor).
        bind_r (try_io (read_u32_be cursor)) (\<lambda>(model_len, cursor).
        bind_r (try_io (read_u32_be cursor)) (\<lambda>(version_offset, cursor).
        bind_r (try_io (read_u32_be cursor)) (\<lambda>(version_len, cursor).
        bind_r (try_io (read_u32_be cursor)) (\<lambda>(serial_offset, cursor).
        bind_r (try_io (read_u32_be cursor)) (\<lambda>(serial_len, cursor).
        bind_r (try_io (read_u16_be cursor)) (\<lambda>(ops_count, cursor).
        bind_r (try_io (read_list read_u16_be (unat ops_count) cursor)) (\<lambda>(ops, cursor).
        bind_r (extract_string data (unat manufacturer_offset) (unat manufacturer_len)) (\<lambda>manuf.
        bind_r (extract_string data (unat model_offset) (unat model_len)) (\<lambda>model.
        bind_r (extract_string data (unat version_offset) (unat version_len)) (\<lambda>vers.
        bind_r (extract_string data (unat serial_offset) (unat serial_len)) (\<lambda>serial.
        Ok \<lparr>manufacturer = manuf, dev_model = model, device_version = vers,
            serial_number = serial, supported_operations = ops\<rparr>)))))))))))))))"

section \<open>Layouts\<close>

text \<open>
  How a peer lays strings out: a table of offset and length pairs, and, from offset \<open>base\<close> on, the
  strings one after the other.
\<close>

fun string_refs :: "nat \<Rightarrow> string list \<Rightarrow> bytes" where
  "string_refs base [] = []"
| "string_refs base (s # ss) =
     write_u32_be (word_of_nat base) @ write_u32_be (word_of_nat (length (bytes_of_string s))) @
     string_refs (base + length (bytes_of_string s)) ss"

definition string_area :: "string list \<Rightarrow> bytes" where
  "string_area ss = concat (map bytes_of_string ss)"

lemma string_area_simps [simp]:
  "string_area [] = []" "string_area (s # ss) = bytes_of_string s @ string_area ss"
  by (simp_all add: string_area_def)

lemma length_string_refs [simp]: "length (string_refs base ss) = 8 * length ss"
  by (induction ss arbitrary: base) simp_all

lemma extract_string_area:
  assumes "wire_string s" and "data = tab @ string_area pre @ bytes_of_string s @ post"
    and "off = length tab + length (string_area pre)"
  shows "extract_string data off (length (bytes_of_string s)) = Ok s"
  using assms by (intro extract_string_at [where pre = "tab @ string_area pre"]) simp_all

lemma length_concat_write16 [simp]: "length (concat (map write_u16_be vs)) = 2 * length vs"
  by (induction vs) simp_all

lemma length_concat_write32 [simp]: "length (concat (map write_u32_be vs)) = 4 * length vs"
  by (induction vs) simp_all

lemma unat_u32_of_nat: "n < 2 ^ 32 \<Longrightarrow> unat (word_of_nat n :: u32) = n"
  by (rule unat_word_of_nat) simp

lemma unat_u16_of_nat: "n < 2 ^ 16 \<Longrightarrow> unat (word_of_nat n :: u16) = n"
  by (rule unat_word_of_nat) simp

text \<open>The response that a camera sends for \<open>i\<close>: a header, the string table, the operations, the strings.\<close>

definition device_strings :: "device_info \<Rightarrow> string list" where
  "device_strings i = [manufacturer i, dev_model i, device_version i, serial_number i]"

definition device_info_wire :: "bytes \<Rightarrow> device_info \<Rightarrow> bytes" where
  "device_info_wire hdr i =
     hdr @ string_refs (42 + 2 * length (supported_operations i)) (device_strings i) @
     write_u16_be (word_of_nat (length (supported_operations i))) @
     concat (map write_u16_be (supported_operations i)) @ string_area (device_strings i)"

definition device_info_ok :: "device_info \<Rightarrow> bool" where
  "device_info_ok i \<longleftrightarrow>
     list_all wire_string (device_strings i) \<and> length (supported_operations i) < 2 ^ 16"

lemma device_info_parses:
  assumes hdr: "length hdr = 8" and ok: "device_info_ok i"
    and len: "length (device_info_wire hdr i) < 2 ^ 32"
  shows "parse_device_info (device_info_wire hdr i) = Ok i"
proof -
  let ?ops = "supported_operations i"
  let ?o = "42 + 2 * length ?ops"
  let ?tab = "hdr @ string_refs ?o (device_strings i) @ write_u16_be (word_of_nat (length ?ops)) @
     concat (map write_u16_be ?ops)"
  let ?data = "device_info_wire hdr i"
  let ?B = bytes_of_string
  have tab: "length ?tab = ?o"
    using hdr by (simp add: device_strings_def)
  have data: "?data = ?tab @ string_area (device_strings i)"
    by (simp add: device_info_wire_def)
  have un: "unat (word_of_nat k :: u32) = k" if "k \<le> length ?data" for k
    using len that by (intro unat_u32_of_nat) simp
  have total: "length ?data = ?o + length (string_area (device_strings i))"
    using tab by (simp add: data del: append_assoc)
  have ws: "wire_string (manufacturer i)" "wire_string (dev_model i)" "wire_string (device_version i)"
      "wire_string (serial_number i)"
    using ok by (simp_all add: device_info_ok_def device_strings_def)
  note area = extract_string_area [where tab = ?tab and data = ?data]
  have ex1: "extract_string ?data ?o (length (?B (manufacturer i))) = Ok (manufacturer i)"
    by (rule area [OF ws(1), where pre = "[]"]) (use tab in \<open>simp_all add: data device_strings_def\<close>)
  have ex2: "extract_string ?data (?o + length (?B (manufacturer i))) (length (?B (dev_model i))) =
      Ok (dev_model i)"
    by (rule area [OF ws(2), where pre = "[manufacturer i]"])
      (use tab in \<open>simp_all add: data device_strings_def\<close>)
  have ex3: "extract_string ?data (?o + length (?B (manufacturer i)) + length (?B (dev_model i)))
      (length (?B (device_version i))) = Ok (device_version i)"
    by (rule area [OF ws(3), where pre = "[manufacturer i, dev_model i]"])
      (use tab in \<open>simp_all add: data device_strings_def\<close>)
  have ex4: "extract_string ?data (?o + length (?B (manufacturer i)) + length (?B (dev_model i)) +
      length (?B (device_version i))) (length (?B (serial_number i))) = Ok (serial_number i)"
    by (rule area [OF ws(4), where pre = "[manufacturer i, dev_model i, device_version i]"])
      (use tab in \<open>simp_all add: data device_strings_def\<close>)
  have ops: "unat (word_of_nat (length ?ops) :: u16) = length ?ops"
    using ok by (intro unat_u16_of_nat) (simp add: device_info_ok_def)
  have start: "set_position 8 (cursor_new ?data) = split_cursor hdr
      (string_refs ?o (device_strings i) @ write_u16_be (word_of_nat (length ?ops)) @
       concat (map write_u16_be ?ops) @ string_area (device_strings i))"
    unfolding device_info_wire_def by (rule set_position_split) (simp add: hdr)
  show ?thesis
    unfolding parse_device_info_def start
    using total ex1 ex2 ex3 ex4
    by (simp add: device_strings_def u32.rd_split u16.rd_split ops u16.read_list_split un
        del: of_nat_add of_nat_mult of_nat_numeral)
qed

text \<open>
  Parsing inverts the wire layout of device information: whatever the eight header bytes are,
  the parser returns every string and every operation code of the record that was laid out,
  provided the strings are NUL-free UTF-8 and the response is shorter than \<open>2 ^ 32\<close> bytes.
\<close>

theorem device_info_roundtrip:
  assumes hdr: "length hdr = 8" and ok: "device_info_ok i"
    and len: "length (device_info_wire hdr i) < 2 ^ 32"
  shows "parse_device_info (device_info_wire hdr i) = Ok i"
  using assms by (rule device_info_parses)

theorem device_info_roundtrip_witness:
  "parse_device_info (device_info_wire [0, 0, 0x20, 1, 0, 0, 0, 0]
     \<lparr>manufacturer = ''Nikon'', dev_model = ''Z7'', device_version = ''1.0'', serial_number = ''SN1'',
      supported_operations = [0x1001, 0x1002]\<rparr>) =
   Ok \<lparr>manufacturer = ''Nikon'', dev_model = ''Z7'', device_version = ''1.0'', serial_number = ''SN1'',
      supported_operations = [0x1001, 0x1002]\<rparr>"
  by (rule device_info_roundtrip)
    (simp_all add: device_info_ok_def device_strings_def wire_string_def valid_str_def
      bytes_of_string_def utf8_check_ascii device_info_wire_def del: utf8_check.simps)

text \<open>
  \<open>needs k f\<close>: a parser that reads from a cursor with fewer than \<open>k\<close> bytes left fails with the end
  of the input. A chain of reads needs the sum of its widths.
\<close>

definition needs :: "nat \<Rightarrow> (cursor \<Rightarrow> ptpip_error + 'a) \<Rightarrow> bool" where
  "needs k f \<longleftrightarrow> (\<forall>c. length (remaining c) < k \<longrightarrow> f c = Err (Io eof_error))"

lemma needsD: "needs k f \<Longrightarrow> length (remaining c) < k \<Longrightarrow> f c = Err (Io eof_error)"
  by (simp add: needs_def)

lemma needs_0: "needs 0 f"
  by (simp add: needs_def)

context int_codec
begin

lemma needs_rd:
  assumes "\<And>v. needs k (f v)"
  shows "needs (k + width) (\<lambda>c. bind_r (try_io (rd c)) (case_prod f))"
  unfolding needs_def
proof (intro allI impI)
  fix c
  assume short: "length (remaining c) < k + width"
  show "bind_r (try_io (rd c)) (case_prod f) = Err (Io eof_error)"
  proof (cases "length (remaining c) < width")
    case True
    then show ?thesis by (simp add: rd_short)
  next
    case False
    then obtain v where v: "rd c = Ok (v, advance width c)"
      using rd_full by (meson not_less)
    have "length (remaining (advance width c)) < k"
      using short False by simp
    then show ?thesis
      using assms [of v] by (simp add: v needs_def)
  qed
qed

end

text \<open>
  A response that is too short for the fixed part of device information is always an error,
  never a wrong record or a panic: below 24 bytes a protocol error, from 24 to 41 bytes the end of
  the input while the fixed part is read.
\<close>

theorem device_info_short:
  "length data < 42 \<Longrightarrow>
     parse_device_info data =
       (if length data < 24 then Err (ProtocolError ''Insufficient data length for device info'')
        else Err (Io eof_error))"
  unfolding parse_device_info_def
  by (simp, intro impI, rule needsD [where k = "0 + 2 + 4 + 4 + 4 + 4 + 4 + 4 + 4 + 4"])
    (intro u32.needs_rd u16.needs_rd needs_0, simp)

theorem device_info_short_witness:
  "parse_device_info (replicate 30 0) = Err (Io eof_error)"
  using device_info_short [of "replicate 30 0"] by simp

section \<open>Storage information\<close>

definition read_u64 :: "byteorder \<Rightarrow> cursor \<Rightarrow> ptpip_error + (u64 \<times> cursor)" where
  "read_u64 bo reader = try_io (bo_read_u64 bo reader)"

definition parse_storage_info :: "byteorder \<Rightarrow> bytes \<Rightarrow> ptpip_error + storage_info" where
  "parse_storage_info bo data =
     (if length data < 40
      then Err (ProtocolError ''Insufficient data length for storage info'')
      else
        bind_r (try_io (read_u32_be (set_position 8 (cursor_new data)))) (\<lambda>(sid, cursor).
        bind_r (try_io (read_u16_be cursor)) (\<lambda>(stype, cursor).
        bind_r (try_io (read_u16_be cursor)) (\<lambda>(fstype, cursor).
        bind_r (try_io (read_u16_be cursor)) (\<lambda>(access, cursor).
        bind_r (read_u64 bo cursor) (\<lambda>(capacity, cursor).
        bind_r (read_u64 bo cursor) (\<lambda>(free_bytes, cursor).
        bind_r (try_io (read_u32_be cursor)) (\<lambda>(free_objects, cursor).
        bind_r (try_io (read_u32_be cursor)) (\<lambda>(desc_offset, cursor).
        bind_r (try_io (read_u32_be cursor)) (\<lambda>(desc_len, cursor).
        bind_r (try_io (read_u32_be cursor)) (\<lambda>(label_offset, cursor).
        bind_r (try_io (read_u32_be cursor)) (\<lambda>(label_len, cursor).
        bind_r (extract_string data (unat desc_offset) (unat desc_len)) (\<lambda>desc.
        bind_r (extract_string data (unat label_offset) (unat label_len)) (\<lambda>label.
        Ok \<lparr>storage_id = sid, storage_type = stype, filesystem_type = fstype,
            access_capability = access, max_capacity = capacity, free_space_in_bytes = free_bytes,
            free_space_in_objects = free_objects, storage_description = desc,
            volume_label = label\<rparr>))))))))))))))"

definition storage_strings :: "storage_info \<Rightarrow> string list" where
  "storage_strings i = [storage_description i, volume_label i]"

definition storage_info_wire :: "bytes \<Rightarrow> storage_info \<Rightarrow> bytes" where
  "storage_info_wire hdr i =
     hdr @ write_u32_be (storage_id i) @ write_u16_be (storage_type i) @
     write_u16_be (filesystem_type i) @ write_u16_be (access_capability i) @
     write_u64_be (max_capacity i) @ write_u64_be (free_space_in_bytes i) @
     write_u32_be (free_space_in_objects i) @ string_refs 54 (storage_strings i) @
     string_area (storage_strings i)"

lemma read_u64_split:
  "byteorder_spec bo \<Longrightarrow> read_u64 bo (split_cursor pre (write_u64_be v @ suf)) =
     Ok (v, split_cursor (pre @ write_u64_be v) suf)"
  by (simp add: read_u64_def bo_simps u64.rd_split)

text \<open>
  Parsing inverts the wire layout of storage information, field by field, for every value of
  the nine fields that can travel.
\<close>

theorem storage_info_roundtrip:
  assumes bo: "byteorder_spec bo" and hdr: "length hdr = 8"
    and ok: "list_all wire_string (storage_strings i)"
    and len: "length (storage_info_wire hdr i) < 2 ^ 32"
  shows "parse_storage_info bo (storage_info_wire hdr i) = Ok i"
proof -
  let ?fixed = "write_u32_be (storage_id i) @ write_u16_be (storage_type i) @
     write_u16_be (filesystem_type i) @ write_u16_be (access_capability i) @
     write_u64_be (max_capacity i) @ write_u64_be (free_space_in_bytes i) @
     write_u32_be (free_space_in_objects i) @ string_refs 54 (storage_strings i)"
  let ?data = "storage_info_wire hdr i"
  have tab: "length (hdr @ ?fixed) = 54"
    using hdr by (simp add: storage_strings_def)
  have data: "?data = (hdr @ ?fixed) @ string_area (storage_strings i)"
    by (simp add: storage_info_wire_def)
  have total: "length ?data = 54 + length (string_area (storage_strings i))"
    using tab by (simp add: data del: append_assoc)
  have un: "unat (word_of_nat k :: u32) = k" if "k \<le> length ?data" for k
    using len that by (intro unat_u32_of_nat) simp
  have ws: "wire_string (storage_description i)" "wire_string (volume_label i)"
    using ok by (simp_all add: storage_strings_def)
  note area = extract_string_area [where tab = "hdr @ ?fixed" and data = ?data]
  have ex1: "extract_string ?data 54 (length (bytes_of_string (storage_description i))) =
      Ok (storage_description i)"
    by (rule area [OF ws(1), where pre = "[]"]) (use tab in \<open>simp_all add: data storage_strings_def\<close>)
  have ex2: "extract_string ?data (54 + length (bytes_of_string (storage_description i)))
      (length (bytes_of_string (volume_label i))) = Ok (volume_label i)"
    by (rule area [OF ws(2), where pre = "[storage_description i]"])
      (use tab in \<open>simp_all add: data storage_strings_def\<close>)
  have start: "set_position 8 (cursor_new ?data) = split_cursor hdr (?fixed @ string_area (storage_strings i))"
    using set_position_split [of 8 hdr "?fixed @ string_area (storage_strings i)"] hdr
    by (simp add: storage_info_wire_def)
  show ?thesis
    unfolding parse_storage_info_def start
    using total ex1 ex2 un [of 54]
    by (simp add: storage_strings_def u32.rd_split u16.rd_split read_u64_split [OF bo] un
        del: of_nat_add of_nat_mult of_nat_numeral)
qed

theorem storage_info_roundtrip_witness:
  "parse_storage_info utils_byteorder (storage_info_wire (replicate 8 0)
     \<lparr>storage_id = 1, storage_type = 1, filesystem_type = 2, access_capability = 3,
      max_capacity = 65536, free_space_in_bytes = 32768, free_space_in_objects = 100,
      storage_description = ''Internal Storage'', volume_label = ''SD Card''\<rparr>) =
   Ok \<lparr>storage_id = 1, storage_type = 1, filesystem_type = 2, access_capability = 3,
      max_capacity = 65536, free_space_in_bytes = 32768, free_space_in_objects = 100,
      storage_description = ''Internal Storage'', volume_label = ''SD Card''\<rparr>"
  by (rule storage_info_roundtrip [OF utils_byteorder_spec])
    (simp_all add: storage_strings_def wire_string_def valid_str_def
      bytes_of_string_def utf8_check_ascii storage_info_wire_def del: utf8_check.simps)

end
