(* ===== verification/Commands.thy ===== *)
theory Commands
  imports Transport_Facts Parse
begin

text \<open>
  The command layer of \<open>src/commands.rs\<close>: encoding and sending a PTP command, waiting for its
  response, checking the response code, collecting data blocks, and the parsers of this module.
  Loops over received packets end because every packet consumes input.
\<close>

section \<open>Commands\<close>

record ptp_command =
  cmd_opcode :: u16
  parameter_count :: u16
  cmd_parameters :: "u32 list"

definition ptp_command_new :: "u16 \<Rightarrow> u32 list \<Rightarrow> ptp_command" where
  "ptp_command_new code params =
     \<lparr>cmd_opcode = code, parameter_count = word_of_nat (length params), cmd_parameters = params\<rparr>"

fun write_params :: "byteorder \<Rightarrow> u32 list \<Rightarrow> bytes \<Rightarrow> ptpip_error + bytes" where
  "write_params bo [] bytes = Ok bytes"
| "write_params bo (param # ps) bytes =
     bind_r (try_io (bo_write_u32 bo param bytes)) (\<lambda>bytes. write_params bo ps bytes)"

definition ptp_command_to_bytes :: "byteorder \<Rightarrow> ptp_command \<Rightarrow> ptpip_error + bytes" where
  "ptp_command_to_bytes bo c =
     bind_r (try_io (bo_write_u16 bo 0x0000 [])) (\<lambda>bytes.
     bind_r (try_io (bo_write_u16 bo (cmd_opcode c) bytes)) (\<lambda>bytes.
     bind_r (try_io (bo_write_u32 bo (ucast (parameter_count c)) bytes)) (\<lambda>bytes.
     write_params bo (cmd_parameters c) bytes)))"

text \<open>The \<open>while cursor.position() < parameters.len()\<close> loop of \<open>send_command\<close>.\<close>

function parse_params :: "cursor \<Rightarrow> io_error + u32 list" where
  "parse_params cursor =
     (if cur_pos cursor < length (cur_data cursor)
      then bind_r (read_u32_be cursor) (\<lambda>(v, cursor).
           bind_r (parse_params cursor) (\<lambda>vs. Ok (v # vs)))
      else Ok [])"
  by pat_completeness auto
termination
  by (relation "measure (\<lambda>c. length (cur_data c) - cur_pos c)") (auto simp: u32.rd_Ok_iff)

declare parse_params.simps [simp del]

definition send_command :: "byteorder \<Rightarrow> u16 \<Rightarrow> u32 \<Rightarrow> bytes \<Rightarrow> session_config \<Rightarrow> (unit, ptpip_error) io" where
  "send_command bo code transaction_id params config =
     bind_io (lift_r (try_io (parse_params (cursor_new params)))) (\<lambda>ps.
     bind_io (lift_r (ptp_command_to_bytes bo (ptp_command_new code ps))) (\<lambda>command_bytes.
     bind_io (send_packet_with_retry bo
       \<lparr>pkt_type = CommandBlock, pkt_tid = transaction_id, payload = command_bytes\<rparr> config) (\<lambda>_.
     ret ())))"

section \<open>Responses\<close>

definition device_error_message :: "u16 \<Rightarrow> string" where
  "device_error_message response_code =
     (if response_code = 0x2002 then ''General error''
      else if response_code = 0x2003 then ''Session not open''
      else if response_code = 0x2004 then ''Invalid transaction ID''
      else if response_code = 0x2005 then ''Unsupported operation''
      else if response_code = 0x2006 then ''Unsupported parameter''
      else if response_code = 0x2007 then ''Incomplete transfer''
      else if response_code = 0x2008 then ''Invalid storage ID''
      else if response_code = 0x2009 then ''Invalid object handle''
      else ''Unknown error (0x'' @ hex_pad 4 (unat response_code) @ '')'')"

definition check_response_error :: "packet \<Rightarrow> ptpip_error + unit" where
  "check_response_error packet =
     (if length (payload packet) < 8
      then Err (ProtocolError ''Insufficient response packet length'')
      else
        bind_r (try_io (read_u16_be (set_position 2 (cursor_new (payload packet))))) (\<lambda>(response_code, _).
        if response_code \<noteq> opcode OpOk
        then Err (DeviceError (ucast response_code) (device_error_message response_code))
        else Ok ()))"

function get_response :: "byteorder \<Rightarrow> u32 \<Rightarrow> session_config \<Rightarrow> (packet, ptpip_error) io" where
  "get_response bo expected_transaction_id config w =
     (case recv_packet_filtered bo (Some ResponseBlock) config w of
        (Inl e, w') \<Rightarrow> (Err e, w')
      | (Inr packet, w') \<Rightarrow>
          if pkt_tid packet \<noteq> expected_transaction_id
          then get_response bo expected_transaction_id config w'
          else (bind_r (check_response_error packet) (\<lambda>_. Ok packet), w'))"
  by pat_completeness auto
termination
  by (relation "measure (\<lambda>(bo, t, c, w). length (rx w))") (auto dest!: recv_filtered_consumes [OF sym])

declare get_response.simps [simp del]

function receive_data_loop :: "byteorder \<Rightarrow> u32 \<Rightarrow> session_config \<Rightarrow> bytes \<Rightarrow> (bytes, ptpip_error) io" where
  "receive_data_loop bo expected_transaction_id config total_data w =
     (case recv_packet_filtered bo (Some DataBlock) config w of
        (Inl e, w') \<Rightarrow> (Err e, w')
      | (Inr packet, w') \<Rightarrow>
          if pkt_tid packet \<noteq> expected_transaction_id
          then receive_data_loop bo expected_transaction_id config total_data w'
          else if payload packet = [] then (Ok total_data, w')
          else receive_data_loop bo expected_transaction_id config (total_data @ payload packet) w')"
  by pat_completeness auto
termination
  by (relation "measure (\<lambda>(bo, t, c, d, w). length (rx w))") (auto dest!: recv_filtered_consumes [OF sym])

declare receive_data_loop.simps [simp del]

definition receive_data_block :: "byteorder \<Rightarrow> u32 \<Rightarrow> session_config \<Rightarrow> (bytes, ptpip_error) io" where
  "receive_data_block bo expected_transaction_id config =
     receive_data_loop bo expected_transaction_id config []"

section \<open>Parsers\<close>

definition parse_storage_ids :: "bytes \<Rightarrow> ptpip_error + u32 list" where
  "parse_storage_ids data =
     (if length data < 10
      then Err (ProtocolError ''Insufficient data for storage ID list'')
      else
        bind_r (try_io (read_u32_be (set_position 8 (cursor_new data)))) (\<lambda>(count, cursor).
        bind_r (try_io (read_list read_u32_be (unat count) cursor)) (\<lambda>(storage_ids, cursor).
        Ok storage_ids)))"

definition parse_object_handles :: "bytes \<Rightarrow> ptpip_error + u32 list" where
  "parse_object_handles data =
     (if length data < 10
      then Err (ProtocolError ''Insufficient data length for object handles'')
      else
        bind_r (try_io (read_u32_be (set_position 8 (cursor_new data)))) (\<lambda>(count, cursor).
        bind_r (try_io (read_list read_u32_be (unat count) cursor)) (\<lambda>(handles, cursor).
        Ok handles)))"

definition read_u8_be :: "cursor \<Rightarrow> io_error + (u8 \<times> cursor)" where
  "read_u8_be reader =
     bind_r (cursor_read_exact 1 reader) (\<lambda>(buf, reader). Ok (buf ! 0, reader))"

text \<open>This module has its own copy of \<open>extract_string\<close>.\<close>

definition extract_object_string :: "bytes \<Rightarrow> usize \<Rightarrow> usize \<Rightarrow> ptpip_error + string" where
  "extract_object_string data offset len =
     (if offset + len > length data
      then Err (ProtocolError (''String extraction out of bounds: offset='' @ dec offset @
              '', length='' @ dec len @ '', data length='' @ dec (length data)))
      else map_err from_utf8_error
             (from_utf8 (takeWhile (\<lambda>b. b \<noteq> 0) (take len (drop offset data)))))"

definition parse_object_info :: "bytes \<Rightarrow> u32 \<Rightarrow> ptpip_error + object_info" where
  "parse_object_info data object_handle =
     (if length data < 64
      then Err (ProtocolError ''Insufficient data length for object info'')
      else
        bind_r (try_io (read_u32_be (set_position 8 (cursor_new data)))) (\<lambda>(sid, cursor).
        bind_r (try_io (read_u16_be cursor)) (\<lambda>(format, cursor).
        bind_r (try_io (read_u8_be cursor)) (\<lambda>(protection, cursor).
        bind_r (try_io (read_u64_be (set_position (cur_pos cursor + 1) cursor))) (\<lambda>(size, cursor).
        bind_r (try_io (read_u32_be cursor)) (\<lambda>(thumb, cursor).
        bind_r (try_io (read_u32_be cursor)) (\<lambda>(filename_offset, cursor).
        bind_r (try_io (read_u32_be cursor)) (\<lambda>(filename_len, cursor).
        bind_r (try_io (read_u32_be cursor)) (\<lambda>(capture_date_offset, cursor).
        bind_r (try_io (read_u32_be cursor)) (\<lambda>(capture_date_len, cursor).
        bind_r (try_io (read_u32_be cursor)) (\<lambda>(modification_date_offset, cursor).
        bind_r (try_io (read_u32_be cursor)) (\<lambda>(modification_date_len, cursor).
        bind_r (try_io (read_u32_be cursor)) (\<lambda>(keywords_offset, cursor).
        bind_r (try_io (read_u32_be cursor)) (\<lambda>(keywords_len, cursor).
        bind_r (extract_object_string data (unat filename_offset) (unat filename_len)) (\<lambda>name.
        bind_r (extract_object_string data (unat capture_date_offset) (unat capture_date_len)) (\<lambda>captured.
        bind_r (extract_object_string data (unat modification_date_offset) (unat modification_date_len)) (\<lambda>modified.
        bind_r (extract_object_string data (unat keywords_offset) (unat keywords_len)) (\<lambda>kws.
        Ok \<lparr>obj_handle = object_handle, obj_storage_id = sid, object_format = format,
            protection_status = protection, object_size = size, thumb_size = thumb,
            filename = name, capture_date = captured, modification_date = modified,
            obj_keywords = kws\<rparr>))))))))))))))))))"

definition known_event_type :: "u16 \<Rightarrow> ptpip_error + event_type" where
  "known_event_type code =
     (if code = 0x4001 then Ok ObjectAdded
      else if code = 0x4002 then Ok ObjectRemoved
      else if code = 0x4003 then Ok StoreAdded
      else if code = 0x4004 then Ok StoreRemoved
      else if code = 0x4005 then Ok DevicePropChanged
      else if code = 0x4006 then Ok RequestObjectTransfer
      else Err (ProtocolError (''Unknown event type: 0x'' @ hex_pad 4 (unat code))))"

definition parse_event_packet :: "packet \<Rightarrow> ptpip_error + ptp_event" where
  "parse_event_packet packet =
     (if length (payload packet) < 6
      then Err (ProtocolError ''Insufficient data length for event packet'')
      else
        bind_r (try_io (read_u16_be (cursor_new (payload packet)))) (\<lambda>(code, cursor).
        bind_r (try_io (read_u16_be cursor)) (\<lambda>(param_count, cursor).
        bind_r (try_io (read_list read_u32_be (unat param_count) cursor)) (\<lambda>(params, cursor).
        bind_r (known_event_type code) (\<lambda>ty.
        Ok \<lparr>ev_type = ty, ev_tid = pkt_tid packet, parameters = params\<rparr>)))))"

lemma extract_object_string_eq [simp]: "extract_object_string = extract_string"
  by (intro ext) (simp add: extract_object_string_def extract_string_def)

interpretation u8: int_codec read_u8_be "\<lambda>b. [b]" 1
  by unfold_locales
    (auto simp: read_u8_be_def cursor_read_exact_def length_Suc_conv)

end
