(* ===== verification/Commands_Facts.thy ===== *)
theory Commands_Facts
  imports Commands
begin

text \<open>
  What the command layer of \<open>src/commands.rs\<close> guarantees: the bytes of a command, which response a
  command gets and how its code is classified, how data blocks are collected, and that the
  parsers accept exactly the layouts of their responses.
\<close>

section \<open>Sending a command\<close>

lemma parse_params_words:
  "remaining c = concat (map write_u32_be vs) \<Longrightarrow> cur_pos c \<le> length (cur_data c) \<Longrightarrow>
     parse_params c = Ok vs"
proof (induction vs arbitrary: c)
  case Nil
  then show ?case by (simp add: parse_params.simps [of c] remaining_def)
next
  case (Cons v vs)
  have rd: "read_u32_be c = Ok (v, advance 4 c)"
    using Cons.prems by (intro u32.rd_wr) simp
  have len: "length (cur_data c) - cur_pos c = 4 + 4 * length vs"
    using arg_cong [OF Cons.prems(1), of length] by (simp add: remaining_def)
  have "remaining (advance 4 c) = concat (map write_u32_be vs)"
    using Cons.prems(1) by simp
  then have "parse_params (advance 4 c) = Ok vs"
    using len by (intro Cons.IH) auto
  with rd len show ?case by (simp add: parse_params.simps [of c])
qed

lemma parse_params_partial:
  "\<not> 4 dvd length (remaining c) \<Longrightarrow> parse_params c = Err eof_error"
proof (induction c rule: parse_params.induct)
  case (1 c)
  have more: "cur_pos c < length (cur_data c)"
    using "1.prems" by (rule contrapos_np) (simp add: remaining_def)
  show ?case
  proof (cases "read_u32_be c")
    case (Inl e)
    with more show ?thesis
      by (simp add: parse_params.simps [of c] u32.rd_Err_iff [THEN iffD1, OF Inl])
  next
    case (Inr vc)
    then obtain v where v: "read_u32_be c = Ok (v, advance 4 c)" "4 \<le> length (remaining c)"
      by (cases vc) (auto simp: u32.rd_Ok_iff)
    have "\<not> 4 dvd length (remaining (advance 4 c))"
      using "1.prems" v(2) by (simp add: dvd_minus_self)
    then have "parse_params (advance 4 c) = Err eof_error"
      using "1.IH" [OF more v(1) refl] by simp
    with more v show ?thesis by (simp add: parse_params.simps [of c])
  qed
qed

lemma words_of_bytes: "4 dvd length bs \<Longrightarrow> \<exists>vs. concat (map write_u32_be vs) = bs"
proof (induction bs rule: length_induct)
  case (1 bs)
  show ?case
  proof (cases "bs = []")
    case True
    then show ?thesis by (intro exI [of _ "[]"]) simp
  next
    case False
    with "1.prems" have 4: "4 \<le> length bs" by (simp add: dvd_imp_le)
    then obtain v where v: "write_u32_be v = take 4 bs"
      using u32.wr_surj [of "take 4 bs"] by auto
    obtain vs where "concat (map write_u32_be vs) = drop 4 bs"
      using "1.IH" "1.prems" 4 by (metis dvd_minus_self diff_less length_drop not_less zero_less_numeral
          less_le_trans)
    with v have "concat (map write_u32_be (v # vs)) = bs" by simp
    then show ?thesis ..
  qed
qed

lemma write_params_eq:
  "byteorder_spec bo \<Longrightarrow> write_params bo vs bs = Ok (bs @ concat (map write_u32_be vs))"
  by (induction vs arbitrary: bs) (simp_all add: bo_simps)

text \<open>The payload of a command: version 0, the operation code, the parameter count, the parameters.\<close>

definition command_payload :: "u16 \<Rightarrow> bytes \<Rightarrow> bytes" where
  "command_payload code params =
     write_u16_be 0 @ write_u16_be code @
     write_u32_be (ucast (word_of_nat (length params div 4) :: u16)) @ params"

abbreviation command_packet :: "u16 \<Rightarrow> u32 \<Rightarrow> bytes \<Rightarrow> packet" where
  "command_packet code tid params \<equiv>
     \<lparr>pkt_type = CommandBlock, pkt_tid = tid, payload = command_payload code params\<rparr>"

lemma bind_io_ret [simp]: "bind_io m ret = m"
  by (rule ext) (auto simp: bind_io_def ret_apply split: prod.splits sum.splits)

lemma send_command_eq:
  assumes bo: "byteorder_spec bo"
  shows "send_command bo code tid params cfg w =
     (if 4 dvd length params
      then send_packet_with_retry bo (command_packet code tid params) cfg w
      else (Err (Io eof_error), w))"
proof (cases "4 dvd length params")
  case True
  then obtain vs where vs: "concat (map write_u32_be vs) = params"
    using words_of_bytes by blast
  then have pp: "parse_params (cursor_new params) = Ok vs"
    by (intro parse_params_words) simp_all
  have cnt: "length vs = length params div 4"
    using arg_cong [OF vs, of length] by simp
  have "ptp_command_to_bytes bo (ptp_command_new code vs) = Ok (command_payload code params)"
    by (simp add: ptp_command_to_bytes_def ptp_command_new_def bo_simps [OF bo] write_params_eq [OF bo]
        command_payload_def vs cnt)
  with True pp show ?thesis by (simp add: send_command_def)
next
  case False
  then have "parse_params (cursor_new params) = Err eof_error"
    by (intro parse_params_partial) simp
  with False show ?thesis by (simp add: send_command_def)
qed

lemma send_command_clean:
  assumes "byteorder_spec bo" and "tx_script w = []" and "4 dvd length params"
  shows "send_command bo code tid params cfg w =
     (Ok (), w\<lparr>tx := tx w @ wire_out (command_packet code tid params)\<rparr>)"
  using assms by (simp add: send_command_eq send_packet_with_retry_def send_packet_clean
      send_retry_loop.simps [of _ _ _ 0])

text \<open>
  A command is sent exactly when its parameters are whole 32-bit words: then the packet holds
  version, operation code, parameter count and the parameter bytes unchanged, and goes out with
  retries; otherwise nothing is sent and the caller gets the end-of-input error. The count field
  equals the number of parameters as long as that is below \<open>2 ^ 16\<close>.
\<close>

theorem send_command_frame:
  assumes "byteorder_spec bo" and "length params < 2 ^ 18"
  shows "send_command bo code tid params cfg w =
     (if 4 dvd length params
      then send_packet_with_retry bo
        \<lparr>pkt_type = CommandBlock, pkt_tid = tid,
         payload = write_u16_be 0 @ write_u16_be code @
           be_bytes 4 (length params div 4) @ params\<rparr> cfg w
      else (Err (Io eof_error), w))"
proof -
  have "length params div 4 < 2 ^ 16" using assms(2) by simp
  then have "unat (ucast (word_of_nat (length params div 4) :: u16) :: u32) = length params div 4"
    by (simp add: unsigned_ucast_eq unsigned_of_nat take_bit_nat_eq_self_iff take_bit_nat_eq_self)
  then show ?thesis
    using send_command_eq [OF assms(1)] by (simp add: command_payload_def write_u32_be_bytes)
qed

theorem send_command_frame_witness:
  "send_command utils_byteorder (opcode OpenSession) 7 [0, 0, 0, 1] default_session_config quiet =
     (Ok (), quiet\<lparr>tx := [0, 3, 0, 0, 0, 0, 0, 7, 0, 0, 0x10, 2, 0, 0, 0, 1, 0, 0, 0, 1]\<rparr>)"
  by (subst send_command_frame [OF utils_byteorder_spec])
    (simp_all add: send_packet_with_retry_def send_packet_clean [OF utils_byteorder_spec] quiet_def
      send_retry_loop.simps [of _ _ _ 0] wire_out_def wire_header_def write_defs codec_simps)

section \<open>Responses\<close>

lemma check_response_error_eq:
  "check_response_error p =
     (if length (payload p) < 8 then Err (ProtocolError ''Insufficient response packet length'')
      else let code = word_of_nat (be_value (take 2 (drop 2 (payload p)))) :: u16 in
           if code = 0x2001 then Ok ()
           else Err (DeviceError (ucast code) (device_error_message code)))"
  by (cases "length (payload p) < 8") (simp_all add: check_response_error_def read_eq_be_value Let_def)

text \<open>\<open>answers tid p\<close>: \<open>p\<close> is a response to transaction \<open>tid\<close>.\<close>

definition answers :: "u32 \<Rightarrow> packet \<Rightarrow> bool" where
  "answers tid p \<longleftrightarrow> pkt_type p = ResponseBlock \<and> pkt_tid p = tid"

lemma dropWhile_Cons_set:
  "dropWhile P xs = y # ys \<Longrightarrow> \<exists>pre. xs = pre @ y # ys \<and> (\<forall>x \<in> set pre. P x) \<and> \<not> P y"
  by (metis dropWhile_eq_Cons_conv set_takeWhileD)

lemma get_response_frames:
  assumes bo: "byteorder_spec bo"
  shows "\<forall>p \<in> set pre. \<not> answers tid p \<Longrightarrow> \<forall>p \<in> set (pre @ q # qs). receivable p \<Longrightarrow> answers tid q \<Longrightarrow>
     rx w = frames (pre @ q # qs) @ evs \<Longrightarrow>
     get_response bo tid cfg w = (bind_r (check_response_error q) (\<lambda>_. Ok q), w\<lparr>rx := frames qs @ evs\<rparr>)"
proof (induction pre arbitrary: w rule: length_induct)
  case (1 pre)
  let ?resp = "\<lambda>p. pkt_type p = ResponseBlock"
  show ?case
  proof (cases "dropWhile (\<lambda>p. \<not> ?resp p) pre")
    case Nil
    then have "dropWhile (\<lambda>p. \<not> ?resp p) (pre @ q # qs) = q # qs"
      using 1 by (auto simp: answers_def dropWhile_append)
    then have "recv_packet_filtered bo (Some ResponseBlock) cfg w = (Ok q, w\<lparr>rx := frames qs @ evs\<rparr>)"
      using 1 by (intro filter_loop_delivers [OF bo]) auto
    with 1 show ?thesis by (simp add: get_response.simps [of bo tid cfg w] answers_def)
  next
    case (Cons r rs)
    then obtain skipped where pre: "pre = skipped @ r # rs" "?resp r" "\<forall>p \<in> set skipped. \<not> ?resp p"
      using dropWhile_Cons_set [OF Cons] by auto
    have "dropWhile (\<lambda>p. \<not> ?resp p) (pre @ q # qs) = r # rs @ q # qs"
      using pre by (subst pre(1)) (auto simp: dropWhile_append pre(3))
    then have got: "recv_packet_filtered bo (Some ResponseBlock) cfg w =
        (Ok r, w\<lparr>rx := frames (rs @ q # qs) @ evs\<rparr>)"
      using 1 by (intro filter_loop_delivers [OF bo]) auto
    have "get_response bo tid cfg (w\<lparr>rx := frames (rs @ q # qs) @ evs\<rparr>) =
        (bind_r (check_response_error q) (\<lambda>_. Ok q), w\<lparr>rx := frames qs @ evs\<rparr>)"
      using 1 pre by (subst "1.IH" [rule_format]) auto
    moreover have "pkt_tid r \<noteq> tid"
      using 1 pre by (auto simp: answers_def)
    ultimately show ?thesis
      using got by (simp add: get_response.simps [of bo tid cfg w])
  qed
qed

text \<open>
  C7. A command gets its own response: of all the packets on the stream, \<open>get_response\<close> takes the
  first response of that transaction, discards everything before it (events, data, responses to
  other transactions), leaves everything after it, and returns the packet if its code is \<open>Ok\<close> and
  otherwise the device error that the code names.
\<close>

theorem get_response_own:
  assumes "byteorder_spec bo" and "\<forall>p \<in> set ps. receivable p" and "rx w = frames ps @ evs"
    and "dropWhile (\<lambda>p. \<not> answers tid p) ps = q # qs"
  shows "get_response bo tid cfg w =
     ((if length (payload q) < 8 then Err (ProtocolError ''Insufficient response packet length'')
       else let code = word_of_nat (be_value (take 2 (drop 2 (payload q)))) in
            if code = opcode OpOk then Ok q
            else Err (DeviceError (ucast code) (device_error_message code))),
      w\<lparr>rx := frames qs @ evs\<rparr>)"
proof -
  obtain pre where pre: "ps = pre @ q # qs" "\<forall>p \<in> set pre. \<not> answers tid p" "answers tid q"
    using dropWhile_Cons_set [OF assms(4)] by auto
  show ?thesis
    using get_response_frames [OF assms(1) pre(2) _ pre(3), of qs w evs cfg] assms(2,3) pre(1)
    by (simp add: check_response_error_eq Let_def)
qed

theorem get_response_own_witness:
  "get_response utils_byteorder 4 default_session_config
     (quiet\<lparr>rx := frames [\<lparr>pkt_type = ResponseBlock, pkt_tid = 3, payload = []\<rparr>,
        \<lparr>pkt_type = ResponseBlock, pkt_tid = 4, payload = [0, 0, 0x20, 3, 0, 0, 0, 0]\<rparr>]\<rparr>) =
     (Err (DeviceError 0x2003 ''Session not open''), quiet)"
  using get_response_own [OF utils_byteorder_spec, of
      "[\<lparr>pkt_type = ResponseBlock, pkt_tid = 3, payload = []\<rparr>,
        \<lparr>pkt_type = ResponseBlock, pkt_tid = 4, payload = [0, 0, 0x20, 3, 0, 0, 0, 0]\<rparr>]"
      "quiet\<lparr>rx := frames [\<lparr>pkt_type = ResponseBlock, pkt_tid = 3, payload = []\<rparr>,
        \<lparr>pkt_type = ResponseBlock, pkt_tid = 4, payload = [0, 0, 0x20, 3, 0, 0, 0, 0]\<rparr>]\<rparr>" "[]" 4]
  by (simp add: receivable.simps quiet_def answers_def be_value_def device_error_message_def)

lemma get_response_Ok:
  "get_response bo tid cfg w = (Ok p, w') \<Longrightarrow> answers tid p \<and> check_response_error p = Ok () \<and> reads w w'"
proof (induction bo tid cfg w rule: get_response.induct)
  case (1 bo tid cfg w)
  obtain r1 w1 where run: "recv_packet_filtered bo (Some ResponseBlock) cfg w = (r1, w1)" by fastforce
  have rd: "reads w w1" using preservesD [OF recv_filtered_reads run] .
  show ?case
  proof (cases r1)
    case (Inl e)
    with "1.prems" run show ?thesis by (simp add: get_response.simps [of bo tid cfg w])
  next
    case (Inr q)
    have ty: "pkt_type q = ResponseBlock"
      using recv_filtered_type run Inr by simp
    show ?thesis
    proof (cases "pkt_tid q = tid")
      case True
      with "1.prems" run Inr ty rd show ?thesis
        by (auto simp: get_response.simps [of bo tid cfg w] answers_def bind_r_eq_Ok)
    next
      case False
      with "1.prems" run Inr have "get_response bo tid cfg w1 = (Ok p, w')"
        by (simp add: get_response.simps [of bo tid cfg w])
      with "1.IH" [OF run [symmetric]] Inr False rd show ?thesis
        by (auto intro: reads_trans)
    qed
  qed
qed

lemma get_response_reads [keeps]: "preserves reads (get_response bo tid cfg)"
proof -
  have "get_response bo tid cfg w = (r, w') \<Longrightarrow> reads w w'" for w r w'
  proof (induction bo tid cfg w rule: get_response.induct)
    case (1 bo tid cfg w)
    obtain r1 w1 where run: "recv_packet_filtered bo (Some ResponseBlock) cfg w = (r1, w1)" by fastforce
    have "reads w w1" using preservesD [OF recv_filtered_reads run] .
    with "1.prems" "1.IH" [OF run [symmetric]] run show ?case
      by (auto simp: get_response.simps [of bo tid cfg w] split: sum.splits if_splits intro: reads_trans)
  qed
  then show ?thesis by (simp add: preserves_def)
qed


section \<open>Data blocks\<close>

definition data_of :: "u32 \<Rightarrow> packet \<Rightarrow> bool" where
  "data_of tid p \<longleftrightarrow> pkt_type p = DataBlock \<and> pkt_tid p = tid"

lemma receive_data_loop_frames:
  assumes bo: "byteorder_spec bo"
  shows "\<forall>p \<in> set pre. data_of tid p \<longrightarrow> payload p \<noteq> [] \<Longrightarrow>
     \<forall>p \<in> set (pre @ q # qs). receivable p \<Longrightarrow> data_of tid q \<Longrightarrow> payload q = [] \<Longrightarrow>
     rx w = frames (pre @ q # qs) @ evs \<Longrightarrow>
     receive_data_loop bo tid cfg acc w =
       (Ok (acc @ concat (map payload (filter (data_of tid) pre))), w\<lparr>rx := frames qs @ evs\<rparr>)"
proof (induction pre arbitrary: w acc rule: length_induct)
  case (1 pre)
  let ?data = "\<lambda>p. pkt_type p = DataBlock"
  show ?case
  proof (cases "dropWhile (\<lambda>p. \<not> ?data p) pre")
    case Nil
    then have none: "\<forall>p \<in> set pre. \<not> ?data p" by simp
    then have "dropWhile (\<lambda>p. \<not> ?data p) (pre @ q # qs) = q # qs"
      using "1.prems"(3) by (simp add: data_of_def dropWhile_append)
    then have "recv_packet_filtered bo (Some DataBlock) cfg w = (Ok q, w\<lparr>rx := frames qs @ evs\<rparr>)"
      using 1 by (intro filter_loop_delivers [OF bo]) auto
    moreover have "filter (data_of tid) pre = []"
      using none by (auto simp: filter_empty_conv data_of_def)
    ultimately show ?thesis
      using "1.prems"(4) "1.prems"(3) [unfolded data_of_def]
      by (simp add: receive_data_loop.simps [of bo tid cfg acc w])
  next
    case (Cons r rs)
    then obtain skipped where pre: "pre = skipped @ r # rs" "?data r" "\<forall>p \<in> set skipped. \<not> ?data p"
      using dropWhile_Cons_set [OF Cons] by auto
    have "dropWhile (\<lambda>p. \<not> ?data p) (pre @ q # qs) = r # rs @ q # qs"
      using pre by (subst pre(1)) (auto simp: dropWhile_append pre(3))
    then have got: "recv_packet_filtered bo (Some DataBlock) cfg w =
        (Ok r, w\<lparr>rx := frames (rs @ q # qs) @ evs\<rparr>)"
      using 1 by (intro filter_loop_delivers [OF bo]) auto
    have rest: "receive_data_loop bo tid cfg acc' (w\<lparr>rx := frames (rs @ q # qs) @ evs\<rparr>) =
        (Ok (acc' @ concat (map payload (filter (data_of tid) rs))), w\<lparr>rx := frames qs @ evs\<rparr>)" for acc'
      using 1 pre by (subst "1.IH" [rule_format]) auto
    have "filter (data_of tid) skipped = []"
      using pre(3) by (auto simp: filter_empty_conv data_of_def)
    moreover have "data_of tid r \<longleftrightarrow> pkt_tid r = tid" and "data_of tid r \<longrightarrow> payload r \<noteq> []"
      using pre "1.prems"(1) by (auto simp: data_of_def)
    ultimately show ?thesis
      using got rest by (simp add: receive_data_loop.simps [of bo tid cfg acc w] pre(1))
  qed
qed

text \<open>
  C8. \<open>receive_data_block\<close> reassembles a transfer: it returns the concatenation, in order, of the
  payloads of the data blocks of its transaction up to the first empty one, ignores every other
  packet in between, and leaves what follows the empty block unread.
\<close>

theorem receive_data_reassembles:
  assumes "byteorder_spec bo" and "\<forall>p \<in> set (ps @ fin # qs). receivable p"
    and "rx w = frames (ps @ fin # qs) @ evs"
    and "\<forall>p \<in> set ps. data_of tid p \<longrightarrow> payload p \<noteq> []"
    and "data_of tid fin" and "payload fin = []"
  shows "receive_data_block bo tid cfg w =
     (Ok (concat (map payload (filter (data_of tid) ps))), w\<lparr>rx := frames qs @ evs\<rparr>)"
  using receive_data_loop_frames [OF assms(1,4,2,5,6,3), of cfg "[]"]
  by (simp add: receive_data_block_def)

theorem receive_data_reassembles_witness:
  "receive_data_block utils_byteorder 4 default_session_config
     (quiet\<lparr>rx := frames ([\<lparr>pkt_type = DataBlock, pkt_tid = 4, payload = [1, 2]\<rparr>,
        \<lparr>pkt_type = DataBlock, pkt_tid = 9, payload = [7]\<rparr>,
        \<lparr>pkt_type = DataBlock, pkt_tid = 4, payload = [3]\<rparr>] @
        \<lparr>pkt_type = DataBlock, pkt_tid = 4, payload = []\<rparr> # [])\<rparr>) = (Ok [1, 2, 3], quiet)"
  by (subst receive_data_reassembles [OF utils_byteorder_spec, where evs = "[]"
        and ps = "[\<lparr>pkt_type = DataBlock, pkt_tid = 4, payload = [1, 2]\<rparr>,
        \<lparr>pkt_type = DataBlock, pkt_tid = 9, payload = [7]\<rparr>,
        \<lparr>pkt_type = DataBlock, pkt_tid = 4, payload = [3]\<rparr>]" and qs = "[]"
        and fin = "\<lparr>pkt_type = DataBlock, pkt_tid = 4, payload = []\<rparr>"])
    (simp_all add: receivable.simps quiet_def data_of_def)

lemma receive_data_loop_reads: "receive_data_loop bo tid cfg acc w = (r, w') \<Longrightarrow> reads w w'"
proof (induction bo tid cfg acc w rule: receive_data_loop.induct)
  case (1 bo tid cfg acc w)
  obtain r1 w1 where run: "recv_packet_filtered bo (Some DataBlock) cfg w = (r1, w1)" by fastforce
  have "reads w w1" using preservesD [OF recv_filtered_reads run] .
  with "1.prems" "1.IH" [OF run [symmetric]] run show ?case
    by (auto simp: receive_data_loop.simps [of bo tid cfg acc w] split: sum.splits if_splits
        intro: reads_trans)
qed

lemma receive_data_block_reads [keeps]: "preserves reads (receive_data_block bo tid cfg)"
  by (auto simp: preserves_def receive_data_block_def dest: receive_data_loop_reads)

section \<open>Lists of identifiers\<close>

definition id_list_wire :: "bytes \<Rightarrow> u32 list \<Rightarrow> bytes" where
  "id_list_wire hdr ids = hdr @ write_u32_be (word_of_nat (length ids)) @ concat (map write_u32_be ids)"

lemma parse_storage_ids_wire:
  assumes "length hdr = 8" and "length ids < 2 ^ 32"
  shows "parse_storage_ids (id_list_wire hdr ids @ tail) = Ok ids"
proof -
  have "unat (word_of_nat (length ids) :: u32) = length ids"
    using assms(2) by (intro unat_u32_of_nat) simp
  moreover have "set_position 8 (cursor_new (id_list_wire hdr ids @ tail)) =
      split_cursor hdr (write_u32_be (word_of_nat (length ids)) @ concat (map write_u32_be ids) @ tail)"
    by (simp add: id_list_wire_def set_position_split assms(1))
  moreover have "10 \<le> length (id_list_wire hdr ids @ tail)"
    by (simp add: id_list_wire_def assms(1))
  ultimately show ?thesis
    by (simp add: parse_storage_ids_def u32.rd_split u32.read_list_split)
qed

lemma parse_storage_ids_Ok:
  assumes "parse_storage_ids data = Ok ids"
  shows "length ids < 2 ^ 32 \<and> (\<exists>hdr tail. length hdr = 8 \<and> data = id_list_wire hdr ids @ tail)"
proof -
  obtain n c c' where r: "read_u32_be (set_position 8 (cursor_new data)) = Ok (n, c)"
    and l: "read_list read_u32_be (unat n) c = Ok (ids, c')" and "10 \<le> length data"
    using assms by (auto simp: parse_storage_ids_def bind_r_eq_Ok split: if_splits)
  have n: "write_u32_be n = take 4 (drop 8 data)" "12 \<le> length data"
    and c: "remaining c = drop 12 data"
    using r by (auto simp: u32.rd_Ok_iff remaining_at)
  have ids: "length ids = unat n" "concat (map write_u32_be ids) = take (unat n * 4) (drop 12 data)"
    using u32.read_list_Ok [OF l] by (simp_all add: c)
  have "drop 12 data = drop 4 (drop 8 data)" by simp
  then have "data = take 8 data @ take 4 (drop 8 data) @ take (unat n * 4) (drop 12 data) @
      drop (unat n * 4) (drop 12 data)"
    by (simp only: append_take_drop_id)
  then have "data = id_list_wire (take 8 data) ids @ drop (unat n * 4) (drop 12 data)"
    using n(1) ids by (simp add: id_list_wire_def)
  moreover have "length ids < 2 ^ 32"
    using ids(1) unat_u32_less [of n] by simp
  moreover have "length (take 8 data) = 8" using n(2) by simp
  ultimately show ?thesis by blast
qed

lemma parse_object_handles_eq:
  "parse_object_handles data =
     (if length data < 10 then Err (ProtocolError ''Insufficient data length for object handles'')
      else parse_storage_ids data)"
  by (simp add: parse_object_handles_def parse_storage_ids_def)

text \<open>
  The parsers of storage identifiers and of object handles accept exactly the same layout: an
  eight-byte header, a 32-bit count, and that many 32-bit identifiers, which they return in
  order; bytes after the list are ignored. In particular a count that promises more than the
  response holds is always rejected.
\<close>

theorem id_lists_exact:
  "(parse_storage_ids data = Ok ids) =
     (length ids < 2 ^ 32 \<and> (\<exists>hdr tail. length hdr = 8 \<and>
        data = hdr @ write_u32_be (word_of_nat (length ids)) @ concat (map write_u32_be ids) @ tail)) \<and>
   (parse_object_handles data = Ok ids) = (parse_storage_ids data = Ok ids)"
proof -
  have "(parse_storage_ids data = Ok ids) =
     (length ids < 2 ^ 32 \<and> (\<exists>hdr tail. length hdr = 8 \<and> data = id_list_wire hdr ids @ tail))"
    using parse_storage_ids_Ok parse_storage_ids_wire by blast
  moreover have "(parse_object_handles data = Ok ids) = (parse_storage_ids data = Ok ids)"
    by (simp add: parse_object_handles_eq parse_storage_ids_def)
  ultimately show ?thesis by (simp add: id_list_wire_def)
qed

section \<open>Object information and events\<close>

definition object_strings :: "object_info \<Rightarrow> string list" where
  "object_strings i = [filename i, capture_date i, modification_date i, obj_keywords i]"

definition object_info_wire :: "bytes \<Rightarrow> u8 \<Rightarrow> object_info \<Rightarrow> bytes" where
  "object_info_wire hdr pad i =
     hdr @ write_u32_be (obj_storage_id i) @ write_u16_be (object_format i) @
     [protection_status i] @ [pad] @ write_u64_be (object_size i) @ write_u32_be (thumb_size i) @
     string_refs 60 (object_strings i) @ string_area (object_strings i)"

lemma skip_byte:
  "n = length pre + 1 \<Longrightarrow>
     set_position n (split_cursor pre (b # suf)) = split_cursor (pre @ [b]) suf"
  by (simp add: set_position_def split_cursor_def)

lemma read_u8_split: "read_u8_be (split_cursor pre (b # suf)) = Ok (b, split_cursor (pre @ [b]) suf)"
  using u8.rd_split [of pre b suf] by simp

text \<open>
  C34. Parsing inverts the wire layout of object information: identifier, format, protection, the
  64-bit size, and the four strings come back, under the handle the caller asked for, whatever the
  reserved byte is. The layout takes 60 bytes and the strings; the parser asks for 64, so a record
  whose strings together have fewer than four bytes does not round-trip.
\<close>

theorem object_info_roundtrip:
  assumes hdr: "length hdr = 8" and ok: "list_all wire_string (object_strings i)"
    and four: "4 \<le> length (string_area (object_strings i))"
    and len: "length (object_info_wire hdr pad i) < 2 ^ 32"
  shows "parse_object_info (object_info_wire hdr pad i) (obj_handle i) = Ok i"
proof -
  let ?fixed = "write_u32_be (obj_storage_id i) @ write_u16_be (object_format i) @
     [protection_status i] @ [pad] @ write_u64_be (object_size i) @ write_u32_be (thumb_size i) @
     string_refs 60 (object_strings i)"
  let ?data = "object_info_wire hdr pad i"
  let ?B = bytes_of_string
  have tab: "length (hdr @ ?fixed) = 60"
    using hdr by (simp add: object_strings_def)
  have data: "?data = (hdr @ ?fixed) @ string_area (object_strings i)"
    by (simp add: object_info_wire_def)
  have total: "length ?data = 60 + length (string_area (object_strings i))"
    using tab by (simp add: data del: append_assoc)
  have un: "unat (word_of_nat k :: u32) = k" if "k \<le> length ?data" for k
    using len that by (intro unat_u32_of_nat) simp
  have ws: "wire_string (filename i)" "wire_string (capture_date i)" "wire_string (modification_date i)"
      "wire_string (obj_keywords i)"
    using ok by (simp_all add: object_strings_def)
  note area = extract_string_area [where tab = "hdr @ ?fixed" and data = ?data]
  have ex1: "extract_string ?data 60 (length (?B (filename i))) = Ok (filename i)"
    by (rule area [OF ws(1), where pre = "[]"]) (use tab in \<open>simp_all add: data object_strings_def\<close>)
  have ex2: "extract_string ?data (60 + length (?B (filename i))) (length (?B (capture_date i))) =
      Ok (capture_date i)"
    by (rule area [OF ws(2), where pre = "[filename i]"])
      (use tab in \<open>simp_all add: data object_strings_def\<close>)
  have ex3: "extract_string ?data (60 + length (?B (filename i)) + length (?B (capture_date i)))
      (length (?B (modification_date i))) = Ok (modification_date i)"
    by (rule area [OF ws(3), where pre = "[filename i, capture_date i]"])
      (use tab in \<open>simp_all add: data object_strings_def\<close>)
  have ex4: "extract_string ?data (60 + length (?B (filename i)) + length (?B (capture_date i)) +
      length (?B (modification_date i))) (length (?B (obj_keywords i))) = Ok (obj_keywords i)"
    by (rule area [OF ws(4), where pre = "[filename i, capture_date i, modification_date i]"])
      (use tab in \<open>simp_all add: data object_strings_def\<close>)
  have start: "set_position 8 (cursor_new ?data) = split_cursor hdr (?fixed @ string_area (object_strings i))"
    using set_position_split [of 8 hdr "?fixed @ string_area (object_strings i)"] hdr
    by (simp add: object_info_wire_def)
  show ?thesis
    unfolding parse_object_info_def start
    using total four ex1 ex2 ex3 ex4 un [of 60]
    by (simp add: object_strings_def u32.rd_split u16.rd_split u64.rd_split read_u8_split skip_byte hdr un
        del: of_nat_add of_nat_mult of_nat_numeral)
qed

theorem object_info_roundtrip_witness:
  "parse_object_info (object_info_wire (replicate 8 0) 0xFF
     \<lparr>obj_handle = 5, obj_storage_id = 1, object_format = 0x3801, protection_status = 1,
      object_size = 0x100000000, thumb_size = 20, filename = ''a.jpg'', capture_date = [],
      modification_date = ''now'', obj_keywords = []\<rparr>) 5 =
   Ok \<lparr>obj_handle = 5, obj_storage_id = 1, object_format = 0x3801, protection_status = 1,
      object_size = 0x100000000, thumb_size = 20, filename = ''a.jpg'', capture_date = [],
      modification_date = ''now'', obj_keywords = []\<rparr>"
  using object_info_roundtrip [where hdr = "replicate 8 0" and pad = "0xFF" and i = "\<lparr>obj_handle = 5,
      obj_storage_id = 1, object_format = 0x3801, protection_status = 1, object_size = 0x100000000,
      thumb_size = 20, filename = ''a.jpg'', capture_date = [], modification_date = ''now'',
      obj_keywords = []\<rparr>"]
  by (simp add: object_strings_def wire_string_def valid_str_def
      bytes_of_string_def utf8_check_ascii object_info_wire_def del: utf8_check.simps)

definition event_wire :: "ptp_event \<Rightarrow> bytes" where
  "event_wire ev = write_u16_be (event_code (ev_type ev)) @
     write_u16_be (word_of_nat (length (parameters ev))) @ concat (map write_u32_be (parameters ev))"

lemma known_event_code: "known_event_type (event_code t) = Ok t"
  by (cases t) (simp_all add: known_event_type_def)

lemma known_event_Ok: "known_event_type code = Ok t \<Longrightarrow> code = event_code t"
  by (auto simp: known_event_type_def split: if_splits)

lemma event_roundtrip:
  assumes "parameters ev \<noteq> []" and "length (parameters ev) < 2 ^ 16"
    and "payload p = event_wire ev @ tail" and "pkt_tid p = ev_tid ev"
  shows "parse_event_packet p = Ok ev"
proof -
  have n: "unat (word_of_nat (length (parameters ev)) :: u16) = length (parameters ev)"
    using assms(2) by (intro unat_u16_of_nat) simp
  have "6 \<le> length (payload p)"
    using assms(1) by (cases "parameters ev") (simp_all add: assms(3) event_wire_def)
  then show ?thesis
    using assms(4)
    by (simp add: parse_event_packet_def assms(3) event_wire_def cursor_new_split u16.rd_split
        u32.read_list_split n known_event_code)
qed

lemma event_payload_empty:
  assumes "recv_packet_filtered bo (Some EventBlock) cfg w = (Ok p, w')"
  shows "parse_event_packet p = Err (ProtocolError ''Insufficient data length for event packet'')"
proof -
  have "payload p = []"
    using recv_filtered_type [OF assms] assms
    by (auto simp: recv_packet_filtered_def dest!: recv_filter_loop_Ok dest: recv_packet_Ok(2))
  then show ?thesis by (simp add: parse_event_packet_def)
qed

text \<open>
  No event ever reaches the application over a connection: a packet that the type filter
  delivers as an event has no payload, and the event parser rejects every packet without payload,
  although it decodes a well-formed event payload correctly.
\<close>

theorem events_never_delivered:
  assumes "recv_packet_filtered bo (Some EventBlock) cfg w = (Ok p, w')"
  shows "parse_event_packet p = Err (ProtocolError ''Insufficient data length for event packet'') \<and>
     parse_event_packet (p\<lparr>payload := [0x40, 0x01, 0, 1, 0, 0, 0, 10]\<rparr>) =
       Ok \<lparr>ev_type = ObjectAdded, ev_tid = pkt_tid p, parameters = [10]\<rparr>"
proof -
  note event_payload_empty [OF assms]
  moreover have "parse_event_packet (p\<lparr>payload := [0x40, 0x01, 0, 1, 0, 0, 0, 10]\<rparr>) =
      Ok \<lparr>ev_type = ObjectAdded, ev_tid = pkt_tid p, parameters = [10]\<rparr>"
    by (rule event_roundtrip [where tail = "[]"]) (simp_all add: event_wire_def write_defs)
  ultimately show ?thesis by simp
qed

theorem events_never_delivered_witness:
  "\<exists>p w'. recv_packet_filtered utils_byteorder (Some EventBlock) default_session_config
       (quiet\<lparr>rx := rx_bytes [0, 6, 0, 0, 0, 0, 0, 1, 0x40, 1, 0, 1, 0, 0, 0, 10]\<rparr>) = (Ok p, w') \<and>
     parse_event_packet p = Err (ProtocolError ''Insufficient data length for event packet'')"
proof -
  let ?w = "quiet\<lparr>rx := rx_bytes [0, 6, 0, 0, 0, 0, 0, 1, 0x40, 1, 0, 1, 0, 0, 0, 10]\<rparr>"
  let ?p = "\<lparr>pkt_type = EventBlock, pkt_tid = 1, payload = []\<rparr>"
  have "recv_packet_filtered utils_byteorder (Some EventBlock) default_session_config ?w =
      (Ok ?p, ?w\<lparr>rx := frames [] @ rx_bytes [0x40, 1, 0, 1, 0, 0, 0, 10]\<rparr>)"
    by (rule filter_loop_delivers [OF utils_byteorder_spec, where ps = "[?p]"])
      (simp_all add: receivable.simps wire_in_def wire_out_def wire_header_def write_defs)
  from events_never_delivered [OF this] this show ?thesis by blast
qed

end
