(* ===== verification/Client.thy ===== *)
theory Client
  imports Commands_Facts
begin

text \<open>
  \<open>CameraClient\<close> of \<open>src/commands.rs\<close>: connecting, the operations, closing, and the event listener
  thread. The stream of the client is the world its operations run in. The event channel is the
  list of events sent so far, or \<open>None\<close> once its receiver is gone; \<open>connect\<close> leaves it empty and
  the listener is the separate function \<open>event_listener\<close>, since the thread outlives the call.
\<close>

record camera_client =
  cl_session_id :: u32
  cl_config :: session_config
  cl_events :: "ptp_event list option"

text \<open>
  \<open>TcpStream::connect\<close> and \<open>try_clone\<close> are calls to the system that succeed or fail as the
  environment decides; the world is the connection they yield.
\<close>

definition tcp_connect :: "string \<Rightarrow> u16 \<Rightarrow> (unit, io_error) io" where
  "tcp_connect ip port = ctl_call (\<lambda>w. w)"

definition try_clone :: "(unit, io_error) io" where
  "try_clone = ctl_call (\<lambda>w. w)"

definition client_connect :: "byteorder \<Rightarrow> string \<Rightarrow> u16 \<Rightarrow> session_config \<Rightarrow> (camera_client, ptpip_error) io" where
  "client_connect bo ip port config =
     bind_io (io_try (tcp_connect ip port)) (\<lambda>_.
     bind_io (configure_stream config) (\<lambda>_.
     bind_io generate_transaction_id (\<lambda>session_id.
     bind_io generate_transaction_id (\<lambda>transaction_id.
     bind_io (lift_r (try_io (bo_write_u32 bo session_id []))) (\<lambda>params.
     bind_io (send_command bo (opcode OpenSession) transaction_id params config) (\<lambda>_.
     bind_io (get_response bo transaction_id config) (\<lambda>_.
     bind_io (io_try try_clone) (\<lambda>_.
     ret \<lparr>cl_session_id = session_id, cl_config = config, cl_events = Some []\<rparr>))))))))"

definition client_get_device_info :: "byteorder \<Rightarrow> camera_client \<Rightarrow> (device_info, ptpip_error) io" where
  "client_get_device_info bo c =
     bind_io generate_transaction_id (\<lambda>transaction_id.
     bind_io (send_command bo (opcode GetDeviceInfo) transaction_id [] (cl_config c)) (\<lambda>_.
     bind_io (get_response bo transaction_id (cl_config c)) (\<lambda>response.
     lift_r (parse_device_info (payload response)))))"

definition client_get_storage_ids :: "byteorder \<Rightarrow> camera_client \<Rightarrow> (u32 list, ptpip_error) io" where
  "client_get_storage_ids bo c =
     bind_io generate_transaction_id (\<lambda>transaction_id.
     bind_io (send_command bo (opcode GetStorageIDs) transaction_id [] (cl_config c)) (\<lambda>_.
     bind_io (get_response bo transaction_id (cl_config c)) (\<lambda>response.
     lift_r (parse_storage_ids (payload response)))))"

definition client_get_storage_info :: "byteorder \<Rightarrow> camera_client \<Rightarrow> u32 \<Rightarrow> (storage_info, ptpip_error) io" where
  "client_get_storage_info bo c sid =
     bind_io generate_transaction_id (\<lambda>transaction_id.
     bind_io (lift_r (try_io (bo_write_u32 bo sid []))) (\<lambda>params.
     bind_io (send_command bo (opcode GetStorageInfo) transaction_id params (cl_config c)) (\<lambda>_.
     bind_io (get_response bo transaction_id (cl_config c)) (\<lambda>response.
     lift_r (parse_storage_info bo (payload response))))))"

definition client_get_object_handles :: "byteorder \<Rightarrow> camera_client \<Rightarrow> u32 \<Rightarrow> u16 \<Rightarrow> u32 \<Rightarrow>
    (u32 list, ptpip_error) io" where
  "client_get_object_handles bo c sid format max_count =
     bind_io generate_transaction_id (\<lambda>transaction_id.
     bind_io (lift_r (try_io (bo_write_u32 bo sid []))) (\<lambda>params.
     bind_io (lift_r (try_io (bo_write_u16 bo format params))) (\<lambda>params.
     bind_io (lift_r (try_io (bo_write_u16 bo 0x0000 params))) (\<lambda>params.
     bind_io (lift_r (try_io (bo_write_u32 bo 0 params))) (\<lambda>params.
     bind_io (lift_r (try_io (bo_write_u32 bo max_count params))) (\<lambda>params.
     bind_io (send_command bo (opcode GetObjectHandles) transaction_id params (cl_config c)) (\<lambda>_.
     bind_io (get_response bo transaction_id (cl_config c)) (\<lambda>response.
     lift_r (parse_object_handles (payload response))))))))))"

definition client_get_object_info :: "byteorder \<Rightarrow> camera_client \<Rightarrow> u32 \<Rightarrow> (object_info, ptpip_error) io" where
  "client_get_object_info bo c object_handle =
     bind_io generate_transaction_id (\<lambda>transaction_id.
     bind_io (lift_r (try_io (bo_write_u32 bo object_handle []))) (\<lambda>params.
     bind_io (send_command bo (opcode GetObjectInfo) transaction_id params (cl_config c)) (\<lambda>_.
     bind_io (get_response bo transaction_id (cl_config c)) (\<lambda>response.
     lift_r (parse_object_info (payload response) object_handle)))))"

definition capture_handle :: "bytes \<Rightarrow> ptpip_error + u32" where
  "capture_handle data =
     (if length data < 12
      then Err (ProtocolError ''Insufficient data length for capture response'')
      else bind_r (try_io (read_u32_be (set_position 8 (cursor_new data)))) (\<lambda>(object_handle, _).
           Ok object_handle))"

definition client_initiate_capture :: "byteorder \<Rightarrow> camera_client \<Rightarrow> u32 \<Rightarrow> u16 \<Rightarrow> (u32, ptpip_error) io" where
  "client_initiate_capture bo c sid format =
     bind_io generate_transaction_id (\<lambda>transaction_id.
     bind_io (lift_r (try_io (bo_write_u32 bo sid []))) (\<lambda>params.
     bind_io (lift_r (try_io (bo_write_u16 bo format params))) (\<lambda>params.
     bind_io (lift_r (try_io (bo_write_u16 bo 0x0000 params))) (\<lambda>params.
     bind_io (send_command bo (opcode InitiateCapture) transaction_id params (cl_config c)) (\<lambda>_.
     bind_io (get_response bo transaction_id (cl_config c)) (\<lambda>response.
     lift_r (capture_handle (payload response))))))))"

definition client_delete_object :: "byteorder \<Rightarrow> camera_client \<Rightarrow> u32 \<Rightarrow> (unit, ptpip_error) io" where
  "client_delete_object bo c object_handle =
     bind_io generate_transaction_id (\<lambda>transaction_id.
     bind_io (lift_r (try_io (bo_write_u32 bo object_handle []))) (\<lambda>params.
     bind_io (send_command bo (opcode DeleteObject) transaction_id params (cl_config c)) (\<lambda>_.
     bind_io (get_response bo transaction_id (cl_config c)) (\<lambda>_.
     ret ()))))"

definition client_event_receiver :: "camera_client \<Rightarrow> ptp_event list option" where
  "client_event_receiver c = cl_events c"

definition client_close :: "byteorder \<Rightarrow> camera_client \<Rightarrow> (unit, ptpip_error) io" where
  "client_close bo c =
     bind_io generate_transaction_id (\<lambda>transaction_id.
     bind_io (lift_r (try_io (bo_write_u32 bo (cl_session_id c) []))) (\<lambda>params.
     bind_io (send_command bo (opcode CloseSession) transaction_id params (cl_config c)) (\<lambda>_.
     bind_io (get_response bo transaction_id (cl_config c)) (\<lambda>_.
     ret ()))))"

section \<open>One exchange\<close>

text \<open>
  Every operation is a fresh transaction: a command and the wait for its response. \<open>replies w q qs evs\<close>:
  nothing that the operation writes will fail, and the stream holds a sequence of packets in
  which \<open>q\<close> is the first response to the transaction about to start, and is followed by \<open>qs\<close> and \<open>evs\<close>.
  \<open>serves w q qs evs\<close>: moreover, \<open>q\<close> has the code \<open>Ok\<close>.
\<close>

definition exchange :: "byteorder \<Rightarrow> session_config \<Rightarrow> u16 \<Rightarrow> bytes \<Rightarrow> (packet, ptpip_error) io" where
  "exchange bo config code params =
     bind_io generate_transaction_id (\<lambda>transaction_id.
     bind_io (send_command bo code transaction_id params config) (\<lambda>_.
     get_response bo transaction_id config))"

definition next_tid :: "world \<Rightarrow> u32" where
  "next_tid w = rng w (rng_pos w)"

definition replies :: "world \<Rightarrow> packet \<Rightarrow> packet list \<Rightarrow> rx_event list \<Rightarrow> bool" where
  "replies w q qs evs \<longleftrightarrow>
     tx_script w = [] \<and> answers (next_tid w) q \<and>
     (\<exists>pre. list_all receivable (pre @ q # qs) \<and> list_all (\<lambda>p. \<not> answers (next_tid w) p) pre \<and>
            rx w = frames (pre @ q # qs) @ evs)"

definition serves :: "world \<Rightarrow> packet \<Rightarrow> packet list \<Rightarrow> rx_event list \<Rightarrow> bool" where
  "serves w q qs evs \<longleftrightarrow>
     replies w q qs evs \<and> 8 \<le> length (payload q) \<and> take 2 (drop 2 (payload q)) = write_u16_be (opcode OpOk)"

definition after_exchange :: "world \<Rightarrow> u16 \<Rightarrow> bytes \<Rightarrow> packet list \<Rightarrow> rx_event list \<Rightarrow> world" where
  "after_exchange w code params qs evs =
     w\<lparr>tx := tx w @ wire_out (command_packet code (next_tid w) params),
       rx := frames qs @ evs, rng_pos := Suc (rng_pos w)\<rparr>"

lemma bind_generate [simp]:
  "bind_io generate_transaction_id f w = f (next_tid w) (w\<lparr>rng_pos := Suc (rng_pos w)\<rparr>)"
  by (simp add: bind_io_def generate_transaction_id_def next_tid_def)

lemma bind_io_assoc [simp]: "bind_io (bind_io m f) g = bind_io m (\<lambda>x. bind_io (f x) g)"
  by (rule ext) (auto simp: bind_io_def split: prod.splits sum.splits)

lemma check_response_ok:
  "8 \<le> length (payload q) \<Longrightarrow> take 2 (drop 2 (payload q)) = write_u16_be (opcode OpOk) \<Longrightarrow>
     check_response_error q = Ok ()"
  by (simp add: check_response_error_eq write_u16_be_bytes be_value_be_bytes)

lemma exchange_replied:
  assumes bo: "byteorder_spec bo" and s: "replies w q qs evs" and "4 dvd length params"
  shows "exchange bo cfg code params w =
     (bind_r (check_response_error q) (\<lambda>_. Ok q), after_exchange w code params qs evs)"
proof -
  let ?tid = "next_tid w"
  let ?w1 = "w\<lparr>rng_pos := Suc (rng_pos w)\<rparr>"
  let ?w2 = "?w1\<lparr>tx := tx w @ wire_out (command_packet code ?tid params)\<rparr>"
  obtain pre where pre: "list_all receivable (pre @ q # qs)" "list_all (\<lambda>p. \<not> answers ?tid p) pre"
    "rx w = frames (pre @ q # qs) @ evs"
    using s by (auto simp: replies_def)
  have "send_command bo code ?tid params cfg ?w1 = (Ok (), ?w2)"
    using s assms(3) by (simp add: send_command_clean [OF bo] replies_def)
  moreover have "get_response bo ?tid cfg ?w2 =
      (bind_r (check_response_error q) (\<lambda>_. Ok q), ?w2\<lparr>rx := frames qs @ evs\<rparr>)"
    using get_response_frames [OF bo, of pre ?tid q qs ?w2 evs cfg] pre s
    by (simp add: replies_def list_all_iff)
  ultimately show ?thesis
    by (simp add: exchange_def bind_io_Ok after_exchange_def)
qed

lemma exchange_served:
  "byteorder_spec bo \<Longrightarrow> serves w q qs evs \<Longrightarrow> 4 dvd length params \<Longrightarrow>
     exchange bo cfg code params w = (Ok q, after_exchange w code params qs evs)"
  using exchange_replied [of bo w q qs evs params cfg code] by (simp add: serves_def check_response_ok)

lemma exchange_bad_params:
  "byteorder_spec bo \<Longrightarrow> \<not> 4 dvd length params \<Longrightarrow>
     exchange bo cfg code params w = (Err (Io eof_error), w\<lparr>rng_pos := Suc (rng_pos w)\<rparr>)"
  by (simp add: exchange_def send_command_eq bind_io_Err)

lemma client_exchange:
  assumes "byteorder_spec bo"
  shows "client_get_device_info bo c = bind_io (exchange bo (cl_config c) (opcode GetDeviceInfo) [])
           (\<lambda>r. lift_r (parse_device_info (payload r)))"
    and "client_get_storage_ids bo c = bind_io (exchange bo (cl_config c) (opcode GetStorageIDs) [])
           (\<lambda>r. lift_r (parse_storage_ids (payload r)))"
    and "client_get_storage_info bo c sid =
           bind_io (exchange bo (cl_config c) (opcode GetStorageInfo) (write_u32_be sid))
           (\<lambda>r. lift_r (parse_storage_info bo (payload r)))"
    and "client_get_object_handles bo c sid fmt n =
           bind_io (exchange bo (cl_config c) (opcode GetObjectHandles)
             (write_u32_be sid @ write_u16_be fmt @ write_u16_be 0 @ write_u32_be 0 @ write_u32_be n))
           (\<lambda>r. lift_r (parse_object_handles (payload r)))"
    and "client_get_object_info bo c h =
           bind_io (exchange bo (cl_config c) (opcode GetObjectInfo) (write_u32_be h))
           (\<lambda>r. lift_r (parse_object_info (payload r) h))"
    and "client_initiate_capture bo c sid fmt =
           bind_io (exchange bo (cl_config c) (opcode InitiateCapture)
             (write_u32_be sid @ write_u16_be fmt @ write_u16_be 0))
           (\<lambda>r. lift_r (capture_handle (payload r)))"
    and "client_delete_object bo c h =
           bind_io (exchange bo (cl_config c) (opcode DeleteObject) (write_u32_be h)) (\<lambda>r. ret ())"
    and "client_close bo c =
           bind_io (exchange bo (cl_config c) (opcode CloseSession) (write_u32_be (cl_session_id c)))
           (\<lambda>r. ret ())"
  by (rule ext, simp add: client_get_device_info_def client_get_storage_ids_def
      client_get_storage_info_def client_get_object_handles_def client_get_object_info_def
      client_initiate_capture_def client_delete_object_def client_close_def exchange_def
      bo_simps [OF assms])+

end
