(* ===== verification/Client_Facts.thy ===== *)
theory Client_Facts
  imports Client
begin

text \<open>
  What \<open>CameraClient\<close> guarantees. The interface between the command layer and its clients is the
  locale \<open>rpc\<close>: a call that takes a fresh transaction, puts one command on the wire and hands over
  the response. Its interpretation is the exchange of \<open>src/commands.rs\<close>, on which the operations of
  \<open>CameraClient\<close> and of \<open>Session\<close> rest.
\<close>

text \<open>The error that the response carries, or else what is made of it.\<close>

abbreviation if_ok :: "packet \<Rightarrow> ptpip_error + 'a \<Rightarrow> ptpip_error + 'a" where
  "if_ok q r \<equiv> bind_r (check_response_error q) (\<lambda>_. r)"

locale rpc =
  fixes call :: "byteorder \<Rightarrow> session_config \<Rightarrow> u16 \<Rightarrow> bytes \<Rightarrow> (packet, ptpip_error) io"
  assumes call_replied:
      "byteorder_spec bo \<Longrightarrow> replies w q qs evs \<Longrightarrow> 4 dvd length params \<Longrightarrow>
         call bo cfg code params w =
           (bind_r (check_response_error q) (\<lambda>_. Ok q), after_exchange w code params qs evs)"
    and call_malformed:
      "byteorder_spec bo \<Longrightarrow> \<not> 4 dvd length params \<Longrightarrow>
         call bo cfg code params w = (Err (Io eof_error), w\<lparr>rng_pos := Suc (rng_pos w)\<rparr>)"
    and call_answer:
      "call bo cfg code params w = (Ok q, w') \<Longrightarrow>
         answers (next_tid w) q \<and> check_response_error q = Ok ()"
begin

lemma call_served:
  "byteorder_spec bo \<Longrightarrow> serves w q qs evs \<Longrightarrow> 4 dvd length params \<Longrightarrow>
     call bo cfg code params w = (Ok q, after_exchange w code params qs evs)"
  using call_replied [of bo w q qs evs params cfg code] by (simp add: serves_def check_response_ok)

lemma query:
  assumes "byteorder_spec bo" and "replies w q qs evs" and "4 dvd length params"
  shows "bind_io (call bo cfg code params) (\<lambda>r. lift_r (f (payload r))) w =
     (if_ok q (f (payload q)), after_exchange w code params qs evs)"
  using call_replied [OF assms] by (cases "check_response_error q") (simp_all add: bind_io_def lift_r_apply)

lemma action:
  assumes "byteorder_spec bo" and "replies w q qs evs" and "4 dvd length params"
  shows "bind_io (call bo cfg code params) (\<lambda>r. ret u) w = (if_ok q (Ok u), after_exchange w code params qs evs)"
  using call_replied [OF assms] by (cases "check_response_error q") (simp_all add: bind_io_def ret_apply)

lemma action_served:
  assumes "byteorder_spec bo" and "serves w q qs evs" and "4 dvd length params"
  shows "bind_io (call bo cfg code params) (\<lambda>r. ret u) w = (Ok u, after_exchange w code params qs evs)"
  using call_served [OF assms] by (simp add: bind_io_Ok ret_apply)

lemma malformed:
  "byteorder_spec bo \<Longrightarrow> \<not> 4 dvd length params \<Longrightarrow>
     bind_io (call bo cfg code params) f w = (Err (Io eof_error), w\<lparr>rng_pos := Suc (rng_pos w)\<rparr>)"
  using call_malformed by (simp add: bind_io_Err)

end

lemma exchange_answer:
  assumes "exchange bo cfg code params w = (Ok q, w')"
  shows "answers (next_tid w) q \<and> check_response_error q = Ok ()"
  using assms by (auto simp: exchange_def bind_io_eq_Ok generate_transaction_id_def next_tid_def
      dest!: get_response_Ok)

interpretation xchg: rpc exchange
  by unfold_locales (simp_all add: exchange_replied exchange_bad_params exchange_answer)

text \<open>
  C6. Every operation of the client performs exactly one transaction and refines a remote call: it
  puts one command packet with the operation's code and its parameters on the wire, under a
  fresh transaction identifier, consumes the stream up to and including its own response, and
  returns the error that this response carries, or else what the operation's parser makes of its payload.
\<close>

theorem client_operations:
  assumes "byteorder_spec bo" and "replies w q qs evs"
  shows "client_get_device_info bo c w =
       (if_ok q (parse_device_info (payload q)), after_exchange w (opcode GetDeviceInfo) [] qs evs) \<and>
     client_get_storage_ids bo c w =
       (if_ok q (parse_storage_ids (payload q)), after_exchange w (opcode GetStorageIDs) [] qs evs) \<and>
     client_get_storage_info bo c sid w =
       (if_ok q (parse_storage_info bo (payload q)),
        after_exchange w (opcode GetStorageInfo) (write_u32_be sid) qs evs) \<and>
     client_get_object_handles bo c sid fmt n w =
       (if_ok q (parse_object_handles (payload q)),
        after_exchange w (opcode GetObjectHandles)
          (write_u32_be sid @ write_u16_be fmt @ write_u16_be 0 @ write_u32_be 0 @ write_u32_be n) qs evs) \<and>
     client_get_object_info bo c h w =
       (if_ok q (parse_object_info (payload q) h),
        after_exchange w (opcode GetObjectInfo) (write_u32_be h) qs evs) \<and>
     client_initiate_capture bo c sid fmt w =
       (if_ok q (capture_handle (payload q)),
        after_exchange w (opcode InitiateCapture) (write_u32_be sid @ write_u16_be fmt @ write_u16_be 0) qs evs) \<and>
     client_delete_object bo c h w =
       (if_ok q (Ok ()), after_exchange w (opcode DeleteObject) (write_u32_be h) qs evs) \<and>
     client_close bo c w =
       (if_ok q (Ok ()), after_exchange w (opcode CloseSession) (write_u32_be (cl_session_id c)) qs evs)"
  unfolding client_exchange [OF assms(1)]
  by (intro conjI xchg.query [OF assms] xchg.action [OF assms]) simp_all

text \<open>A device that answers the first transaction, for concrete runs.\<close>

definition ok_reply :: "u32 \<Rightarrow> bytes \<Rightarrow> packet" where
  "ok_reply tid body =
     \<lparr>pkt_type = ResponseBlock, pkt_tid = tid, payload = [0, 0, 0x20, 0x01, 0, 0, 0, 0] @ body\<rparr>"

definition serving :: "bytes \<Rightarrow> world" where
  "serving body = quiet\<lparr>rx := frames [ok_reply 1 body]\<rparr>"

lemma serving_replies:
  "length body < 1000 \<Longrightarrow> replies (serving body) (ok_reply 1 body) [] []"
  unfolding replies_def
  by (auto simp: serving_def ok_reply_def quiet_def next_tid_def answers_def receivable.simps
      intro!: exI [of _ "[]"])

lemma serving_serves:
  "length body < 1000 \<Longrightarrow> serves (serving body) (ok_reply 1 body) [] []"
  unfolding serves_def by (simp add: serving_replies) (simp add: ok_reply_def write_defs)

lemma ok_reply_check [simp]: "check_response_error (ok_reply tid body) = Ok ()"
  by (rule check_response_ok) (simp_all add: ok_reply_def write_defs)

definition a_client :: camera_client where
  "a_client = \<lparr>cl_session_id = 7, cl_config = default_session_config, cl_events = Some []\<rparr>"

theorem client_operations_witness:
  "client_get_storage_ids utils_byteorder a_client (serving [0, 0, 0, 2, 0, 0, 0, 1, 0, 0, 0, 5]) =
     (Ok [1, 5],
      after_exchange (serving [0, 0, 0, 2, 0, 0, 0, 1, 0, 0, 0, 5]) (opcode GetStorageIDs) [] [] [])"
proof -
  let ?body = "[0, 0, 0, 2, 0, 0, 0, 1, 0, 0, 0, 5]"
  have "parse_storage_ids (id_list_wire [0, 0, 0x20, 0x01, 0, 0, 0, 0] [1, 5] @ []) = Ok [1, 5]"
    by (rule parse_storage_ids_wire) simp_all
  then have "parse_storage_ids (payload (ok_reply 1 ?body)) = Ok [1, 5]"
    by (simp add: ok_reply_def id_list_wire_def write_defs)
  then show ?thesis
    using client_operations [OF utils_byteorder_spec serving_replies, of ?body a_client] by simp
qed

text \<open>
  A configuration with a zero timeout can never connect: the standard library rejects the
  timeout before anything is sent, whatever the camera would answer.
\<close>

theorem zero_timeout_never_connects:
  assumes "cfg_timeout config = 0"
  shows "\<exists>e w'. client_connect bo ip port config w = (Err e, w') \<and> tx w' = tx w"
proof -
  obtain r w1 where c: "io_try (tcp_connect ip port) w = (r, w1)" by fastforce
  have tx: "tx w1 = tx w"
    using c by (auto simp: io_try_def tcp_connect_def ctl_call_def split: list.splits option.splits)
  show ?thesis
  proof (cases r)
    case (Inl e)
    with c tx show ?thesis by (simp add: client_connect_def bind_io_Err)
  next
    case (Inr u)
    with c tx assms show ?thesis
      by (simp add: client_connect_def bind_io_def configure_stream_def io_try_def set_read_timeout_def
          duration_from_secs_def)
  qed
qed

theorem zero_timeout_never_connects_witness:
  "\<exists>e w'. client_connect utils_byteorder ''camera'' 15740 (default_session_config\<lparr>cfg_timeout := 0\<rparr>) quiet
     = (Err e, w') \<and> tx w' = tx quiet"
  by (rule zero_timeout_never_connects) simp

text \<open>The stream as \<open>configure_stream\<close> leaves it.\<close>

definition configured :: "session_config \<Rightarrow> world \<Rightarrow> world" where
  "configured config w =
     w\<lparr>read_timeout := Some (duration_from_secs (cfg_timeout config)),
       write_timeout := Some (duration_from_secs (cfg_timeout config)), nodelay := True\<rparr>"

lemma configure_stream_ok:
  "cfg_timeout config \<noteq> 0 \<Longrightarrow> ctl_script w = [] \<Longrightarrow>
     configure_stream config w = (Ok (), configured config w)"
  by (simp add: configure_stream_def bind_io_def io_try_def set_read_timeout_def set_write_timeout_def
      set_nodelay_def ctl_call_def duration_from_secs_def configured_def ret_apply unat_eq_zero)

lemma calls_ok:
  assumes "ctl_script w = []"
  shows "bind_io (io_try (tcp_connect ip port)) f w = f () w" and "bind_io (io_try try_clone) f w = f () w"
  using assms by (simp_all add: bind_io_Ok tcp_connect_def try_clone_def ctl_call_def)

text \<open>
  Connecting opens the session it reports: on success the stream has both timeouts and no delay,
  exactly one command went out, \<open>OpenSession\<close> with the session identifier of the returned
  client as its only parameter, and its transaction identifier is a different draw.
\<close>

theorem connect_opens_session:
  assumes bo: "byteorder_spec bo" and "cfg_timeout config \<noteq> 0" and "ctl_script w = []"
    and "serves ((configured config w)\<lparr>rng_pos := Suc (rng_pos w)\<rparr>) q qs evs"
  shows "client_connect bo ip port config w =
     (Ok \<lparr>cl_session_id = next_tid w, cl_config = config, cl_events = Some []\<rparr>,
      after_exchange ((configured config w)\<lparr>rng_pos := Suc (rng_pos w)\<rparr>) (opcode OpenSession)
        (write_u32_be (next_tid w)) qs evs)"
proof -
  let ?w1 = "(configured config w)\<lparr>rng_pos := Suc (rng_pos w)\<rparr>"
  have conf: "bind_io (configure_stream config) f w = f () (configured config w)" for f
    using configure_stream_ok [OF assms(2,3)] by (simp add: bind_io_Ok)
  have tid: "next_tid (configured config w) = next_tid w" "rng_pos (configured config w) = rng_pos w"
    by (simp_all add: configured_def next_tid_def)
  have "client_connect bo ip port config w =
      bind_io (exchange bo config (opcode OpenSession) (write_u32_be (next_tid w)))
        (\<lambda>_. bind_io (io_try try_clone)
        (\<lambda>_. ret \<lparr>cl_session_id = next_tid w, cl_config = config, cl_events = Some []\<rparr>)) ?w1"
    by (simp add: client_connect_def conf tid exchange_def bo_simps [OF bo] calls_ok [OF assms(3)])
  also have "\<dots> = (Ok \<lparr>cl_session_id = next_tid w, cl_config = config, cl_events = Some []\<rparr>,
      after_exchange ?w1 (opcode OpenSession) (write_u32_be (next_tid w)) qs evs)"
    using xchg.call_served [OF bo assms(4), of "write_u32_be (next_tid w)" config "opcode OpenSession"] assms(3)
    by (simp add: bind_io_Ok after_exchange_def configured_def calls_ok ret_apply)
  finally show ?thesis .
qed

theorem connect_opens_session_witness:
  "\<exists>w'. client_connect utils_byteorder ''192.168.1.1'' PTPIP_DEFAULT_PORT default_session_config
       (quiet\<lparr>rx := frames [ok_reply 2 []]\<rparr>) =
     (Ok \<lparr>cl_session_id = 1, cl_config = default_session_config, cl_events = Some []\<rparr>, w') \<and>
   tx w' = [0, 3, 0, 0, 0, 0, 0, 2, 0, 0, 0x10, 0x02, 0, 0, 0, 1, 0, 0, 0, 1] \<and> nodelay w'"
proof -
  let ?w = "quiet\<lparr>rx := frames [ok_reply 2 []]\<rparr>"
  let ?w1 = "(configured default_session_config ?w)\<lparr>rng_pos := Suc (rng_pos ?w)\<rparr>"
  have "serves ?w1 (ok_reply 2 []) [] []"
    unfolding serves_def replies_def
    by (auto simp: configured_def ok_reply_def quiet_def next_tid_def answers_def receivable.simps write_defs
        intro!: exI [of _ "[]"])
  from connect_opens_session [OF utils_byteorder_spec _ _ this, of "''192.168.1.1''" PTPIP_DEFAULT_PORT]
  show ?thesis
    by (simp add: default_session_config_def quiet_def next_tid_def after_exchange_def configured_def
        wire_out_def wire_header_def command_payload_def write_defs)
qed

end
