(* ===== verification/Listener.thy ===== *)
theory Listener
  imports Client_Facts
begin

text \<open>
  The event listener thread of \<open>CameraClient::connect\<close>, and the interleaving of the client with it.
  Both read the same connection (the thread owns a clone of the stream). \<open>event_listener\<close> is the
  thread on its own; it ends because every turn of its loop consumes input.
\<close>

lemma take_exact_Err:
  "take_exact n evs t = (Err e, evs', t') \<Longrightarrow> e \<noteq> eof_error \<Longrightarrow> length evs' < length evs"
proof (induction n evs t rule: take_exact.induct)
  case (3 n b evs t)
  then show ?case by (auto split: prod.splits simp: bind_r_eq_Err)
next
  case (4 n d evs t)
  then show ?case by simp
next
  case (5 n e evs t)
  then show ?case by (auto split: if_splits)
qed simp_all

lemma recv_packet_Timeout_consumes:
  assumes run: "recv_packet bo w = (Err Timeout, w')"
  shows "length (rx w') < length (rx w)"
proof -
  obtain r w1 where 1: "stream_read_exact 2 w = (r, w1)" by fastforce
  show ?thesis
  proof (cases r)
    case (Inl e)
    with 1 run have e: "from_io_error e = Timeout" "w' = w1"
      by (auto simp: recv_packet_def bind_io_def io_try_def)
    then have "e \<noteq> eof_error" by auto
    with 1 Inl e show ?thesis
      by (auto simp: stream_read_exact_def split: prod.splits dest: take_exact_Err)
  next
    case (Inr tb)
    let ?rest = "bind_io (header_from_stream bo (Some (shift_or16 (tb ! 0) (tb ! 1)))) (\<lambda>header.
     bind_io (lift_r (known_message_type (h_message_type header))) (\<lambda>message_type.
     if message_type = DataBlock
     then read_payload message_type header (unat (h_payload_length header))
     else if message_type = ResponseBlock
     then (if h_payload_length header = 0 then read_response header
           else read_payload message_type header 0)
     else read_payload message_type header 0))"
    have "?rest w1 = (Err Timeout, w')"
      using run 1 Inr by (simp add: recv_packet_def bind_io_Ok)
    moreover have "preserves reads ?rest" by (auto intro!: keeps)
    ultimately have "length (rx w') \<le> length (rx w1)"
      by (auto dest: preservesD reads_length)
    with stream_read_exact_Ok [of 2 w tb w1] 1 Inr show ?thesis by simp
  qed
qed

lemma recv_filtered_Timeout_consumes:
  assumes "recv_packet_filtered bo t cfg w = (Err Timeout, w')"
  shows "length (rx w') < length (rx w)"
proof -
  obtain r w1 where 1: "recv_packet bo w = (r, w1)" by fastforce
  have loop: "recv_filter_loop bo (clock w) t cfg w = (Err Timeout, w')"
    using assms by (simp add: recv_packet_filtered_def)
  show ?thesis
  proof (cases r)
    case (Inl e)
    with 1 loop have "e = Timeout \<and> w' = w1"
      by (simp add: recv_filter_loop.simps [of bo "clock w" t cfg w])
    with 1 Inl recv_packet_Timeout_consumes show ?thesis by blast
  next
    case (Inr p)
    then have "length (rx w1) + 2 \<le> length (rx w)"
      using 1 recv_packet_consumes by blast
    moreover have "recv_filter_loop bo (clock w) t cfg w1 = (Err Timeout, w')"
      using 1 Inr loop by (auto simp: recv_filter_loop.simps [of bo "clock w" t cfg w]
          split: option.splits if_splits)
    then have "length (rx w') \<le> length (rx w1)"
      by (auto dest: recv_filter_loop_reads reads_length)
    ultimately show ?thesis by simp
  qed
qed

text \<open>The body of the spawned thread: the events it sent, and the stream it leaves behind.\<close>

function event_listener :: "byteorder \<Rightarrow> session_config \<Rightarrow> ptp_event list option \<Rightarrow> world \<Rightarrow>
    ptp_event list option \<times> world" where
  "event_listener bo config channel w =
     (case recv_packet_filtered bo (Some EventBlock) config w of
        (Inr packet, w') \<Rightarrow>
          (case parse_event_packet packet of
             Inr event \<Rightarrow>
               (case channel of
                  None \<Rightarrow> (None, w')
                | Some events \<Rightarrow> event_listener bo config (Some (events @ [event])) w')
           | Inl _ \<Rightarrow> event_listener bo config channel w')
      | (Inl e, w') \<Rightarrow>
          if e = Timeout then event_listener bo config channel w' else (channel, w'))"
  by pat_completeness auto
termination
  by (relation "measure (\<lambda>(bo, cfg, ch, w). length (rx w))")
    (auto dest!: recv_filtered_consumes [OF sym] recv_filtered_Timeout_consumes [OF sym])

declare event_listener.simps [simp del]

text \<open>
  C38. The event channel stays as \<open>connect\<close> made it, empty, for the whole life of the listener,
  whatever the camera sends: the listener returns the channel it started with.
\<close>

theorem listener_sends_nothing:
  "fst (event_listener bo config channel w) = channel"
proof (induction bo config channel w rule: event_listener.induct)
  case (1 bo config channel w)
  obtain r w1 where run: "recv_packet_filtered bo (Some EventBlock) config w = (r, w1)" by fastforce
  show ?case
  proof (cases r)
    case (Inl e)
    then show ?thesis
      using "1.IH"(1) [OF run [symmetric] Inl] run
      by (simp add: event_listener.simps [of bo config channel w])
  next
    case (Inr p)
    then have "parse_event_packet p = Err (ProtocolError ''Insufficient data length for event packet'')"
      using event_payload_empty run by blast
    then show ?thesis
      using "1.IH"(2) [OF run [symmetric] Inr] run Inr
      by (simp add: event_listener.simps [of bo config channel w])
  qed
qed

text \<open>
  C39. What ends the listener: an expired socket timeout of kind \<open>WouldBlock\<close>, the kind Unix uses,
  ends the thread at once, while the same timeout reported as \<open>TimedOut\<close> is ignored and the thread
  goes on with the rest of the stream.
\<close>

theorem listener_timeout_kinds:
  assumes "rx w = RxFault e # evs" and "io_kind e \<noteq> Interrupted"
  shows "event_listener bo config channel w =
     (if io_kind e = TimedOut then event_listener bo config channel (w\<lparr>rx := evs\<rparr>)
      else (channel, w\<lparr>rx := evs\<rparr>))"
proof -
  have "stream_read_exact 2 w = (Err e, w\<lparr>rx := evs\<rparr>)"
    using assms by (simp add: stream_read_exact_def numeral_2_eq_2)
  then have "recv_packet bo w = (Err (from_io_error e), w\<lparr>rx := evs\<rparr>)"
    by (simp add: recv_packet_def bind_io_def io_try_def)
  then have "recv_packet_filtered bo (Some EventBlock) config w =
      (Err (from_io_error e), w\<lparr>rx := evs\<rparr>)"
    by (simp add: recv_packet_filtered_def recv_filter_loop.simps [of _ _ _ _ w])
  then show ?thesis
    by (simp add: event_listener.simps [of bo config channel w] from_io_error_def)
qed

theorem listener_timeout_kinds_witness:
  "event_listener utils_byteorder default_session_config (Some [])
     (quiet\<lparr>rx := [RxFault \<lparr>io_kind = WouldBlock, io_text = []\<rparr>, RxByte 0]\<rparr>) =
     (Some [], quiet\<lparr>rx := [RxByte 0]\<rparr>)"
  by (subst listener_timeout_kinds [where e = "\<lparr>io_kind = WouldBlock, io_text = []\<rparr>" and evs = "[RxByte 0]"])
    (simp_all add: quiet_def)

end
