(* ===== verification/Sharing.thy ===== *)
theory Sharing
  imports Listener
begin

text \<open>
  The client and its listener thread on one connection, as a step relation. A step is one received
  packet, taken by whichever side reads it: \<open>get_response\<close> (with the type filter inside it) on the
  client's side, the body of the listener's loop on the other. The client's deadline may pass at
  any moment. The threads of the program can interleave within a packet as well: the steps here are
  the coarsest interleaving, and \<open>Interleave\<close> refines them.
\<close>

datatype phase = Waiting u32 | Finished packet | Failed ptpip_error

record conn =
  stream :: world
  phase :: phase
  listening :: bool
  channel :: "ptp_event list"

definition client_turn :: "u32 \<Rightarrow> packet \<Rightarrow> phase" where
  "client_turn tid p =
     (if pkt_type p = ResponseBlock \<and> pkt_tid p = tid
      then (case check_response_error p of Inl e \<Rightarrow> Failed e | Inr _ \<Rightarrow> Finished p)
      else Waiting tid)"

definition listener_turn :: "packet \<Rightarrow> ptp_event list \<Rightarrow> ptp_event list" where
  "listener_turn p events =
     (if pkt_type p = EventBlock
      then (case parse_event_packet p of Inl _ \<Rightarrow> events | Inr ev \<Rightarrow> events @ [ev])
      else events)"

inductive conn_step :: "byteorder \<Rightarrow> conn \<Rightarrow> conn \<Rightarrow> bool" for bo where
  Client_takes: "phase s = Waiting tid \<Longrightarrow> recv_packet bo (stream s) = (Ok p, w) \<Longrightarrow>
    conn_step bo s (s\<lparr>stream := w, phase := client_turn tid p\<rparr>)"
| Client_fails: "phase s = Waiting tid \<Longrightarrow> recv_packet bo (stream s) = (Err e, w) \<Longrightarrow>
    conn_step bo s (s\<lparr>stream := w, phase := Failed e\<rparr>)"
| Client_expires: "phase s = Waiting tid \<Longrightarrow> conn_step bo s (s\<lparr>phase := Failed Timeout\<rparr>)"
| Listener_takes: "listening s \<Longrightarrow> recv_packet bo (stream s) = (Ok p, w) \<Longrightarrow>
    conn_step bo s (s\<lparr>stream := w, channel := listener_turn p (channel s)\<rparr>)"
| Listener_fails: "listening s \<Longrightarrow> recv_packet bo (stream s) = (Err e, w) \<Longrightarrow>
    conn_step bo s (s\<lparr>stream := w, listening := (e = Timeout)\<rparr>)"

inductive_cases conn_stepE: "conn_step bo s s'"

abbreviation conn_steps :: "byteorder \<Rightarrow> conn \<Rightarrow> conn \<Rightarrow> bool" where
  "conn_steps bo \<equiv> (conn_step bo)\<^sup>*\<^sup>*"

definition conn_start :: "world \<Rightarrow> u32 \<Rightarrow> conn" where
  "conn_start w tid = \<lparr>stream = w, phase = Waiting tid, listening = True, channel = []\<rparr>"

section \<open>Every interleaving\<close>

text \<open>What is true in every state that the two threads can reach from a stream of whole packets.\<close>

definition conn_inv :: "u32 \<Rightarrow> packet list \<Rightarrow> conn \<Rightarrow> bool" where
  "conn_inv tid ps s \<longleftrightarrow>
     (\<exists>taken rest. ps = taken @ rest \<and> rx (stream s) = frames rest \<and>
        (\<forall>t. phase s = Waiting t \<longrightarrow> t = tid) \<and>
        (\<forall>p. phase s = Finished p \<longrightarrow>
           p \<in> set taken \<and> answers tid p \<and> check_response_error p = Ok ()) \<and>
        channel s = [])"

lemma recv_on_frames:
  assumes bo: "byteorder_spec bo" and "\<forall>p \<in> set rest. receivable p" and "rx w = frames rest"
  shows "recv_packet bo w =
     (case rest of [] \<Rightarrow> (Err (Io eof_error), w) | p # ps \<Rightarrow> (Ok p, w\<lparr>rx := frames ps\<rparr>))"
proof (cases rest)
  case Nil
  with assms(3) have "stream_read_exact 2 w = (Err eof_error, w)"
    using stream_read_exact_short [of w "[]" 2] by simp
  with Nil show ?thesis by (simp add: recv_packet_def bind_io_def io_try_def)
next
  case (Cons p ps)
  with assms show ?thesis using recv_packet_frames [OF bo, of p w ps "[]"] by simp
qed

lemma listener_turn_empty:
  "receivable p \<Longrightarrow> listener_turn p events = events"
  by (auto simp: listener_turn_def receivable.simps parse_event_packet_def split: message_type.splits)

lemma client_turn_Finished:
  "client_turn tid p = Finished q \<Longrightarrow> q = p \<and> answers tid p \<and> check_response_error p = Ok ()"
  by (auto simp: client_turn_def answers_def split: if_splits sum.splits)

lemma client_turn_Waiting: "client_turn tid p = Waiting t \<Longrightarrow> t = tid"
  by (auto simp: client_turn_def split: if_splits sum.splits)

lemma conn_inv_step:
  assumes bo: "byteorder_spec bo" and ok: "\<forall>p \<in> set ps. receivable p"
    and inv: "conn_inv tid ps s" and step: "conn_step bo s s'"
  shows "conn_inv tid ps s'"
proof -
  obtain taken rest where ps: "ps = taken @ rest" and rx: "rx (stream s) = frames rest"
    and wait: "\<And>t. phase s = Waiting t \<Longrightarrow> t = tid"
    and fin: "\<And>p. phase s = Finished p \<Longrightarrow> p \<in> set taken \<and> answers tid p \<and> check_response_error p = Ok ()"
    and ch: "channel s = []"
    using inv unfolding conn_inv_def by blast
  note recv = recv_on_frames [OF bo _ rx]
  have okr: "\<forall>p \<in> set rest. receivable p" using ok ps by simp
  show ?thesis
    using step
  proof cases
    case (Client_takes t p w)
    then obtain ps' where rest: "rest = p # ps'" "w = (stream s)\<lparr>rx := frames ps'\<rparr>"
      using recv [OF okr] by (auto split: list.splits)
    have "t = tid" using wait Client_takes by simp
    then show ?thesis
      unfolding conn_inv_def using Client_takes ps rest ch
      by (intro exI [of _ "taken @ [p]"] exI [of _ ps'])
        (auto dest: client_turn_Finished client_turn_Waiting)
  next
    case (Client_fails t e w)
    then have "rx w = frames rest" using recv [OF okr] rx by (auto split: list.splits)
    then show ?thesis
      unfolding conn_inv_def using Client_fails ps ch
      by (intro exI [of _ taken] exI [of _ rest]) simp
  next
    case (Client_expires t)
    then show ?thesis
      unfolding conn_inv_def using ps rx ch
      by (intro exI [of _ taken] exI [of _ rest]) simp
  next
    case (Listener_takes p w)
    then obtain ps' where rest: "rest = p # ps'" "w = (stream s)\<lparr>rx := frames ps'\<rparr>"
      using recv [OF okr] by (auto split: list.splits)
    have "listener_turn p [] = []" using okr rest by (simp add: listener_turn_empty)
    then show ?thesis
      unfolding conn_inv_def using Listener_takes ps rest ch wait fin
      by (intro exI [of _ "taken @ [p]"] exI [of _ ps']) auto
  next
    case (Listener_fails e w)
    then have "rx w = frames rest" using recv [OF okr] rx by (auto split: list.splits)
    then show ?thesis
      unfolding conn_inv_def using Listener_fails ps ch wait fin
      by (intro exI [of _ taken] exI [of _ rest]) simp
  qed
qed

lemma conn_inv_steps:
  assumes "byteorder_spec bo" and "\<forall>p \<in> set ps. receivable p" and "conn_steps bo s s'"
  shows "conn_inv tid ps s \<Longrightarrow> conn_inv tid ps s'"
  using assms(3)
  by (induction rule: rtranclp_induct) (auto intro: conn_inv_step [OF assms(1,2)])

lemma conn_start_inv: "rx w = frames ps \<Longrightarrow> conn_inv tid ps (conn_start w tid)"
  unfolding conn_inv_def conn_start_def by (intro exI [of _ "[]"] exI [of _ ps]) simp



section \<open>The stolen response\<close>

lemma listener_takes_all:
  assumes bo: "byteorder_spec bo"
  shows "\<forall>p \<in> set ps. receivable p \<Longrightarrow> rx (stream s) = frames ps \<Longrightarrow> listening s \<Longrightarrow>
     \<exists>w. conn_steps bo s (s\<lparr>stream := w\<rparr>) \<and> rx w = []"
proof (induction ps arbitrary: s)
  case Nil
  then show ?case by (intro exI [of _ "stream s"]) simp
next
  case (Cons p ps)
  let ?w1 = "(stream s)\<lparr>rx := frames ps\<rparr>"
  have "conn_step bo s (s\<lparr>stream := ?w1, channel := listener_turn p (channel s)\<rparr>)"
    using recv_packet_frames [OF bo, of p "stream s" ps "[]"] Cons.prems
    by (intro Listener_takes) simp_all
  then have "conn_step bo s (s\<lparr>stream := ?w1\<rparr>)"
    using Cons.prems by (simp add: listener_turn_empty)
  moreover obtain w where "conn_steps bo (s\<lparr>stream := ?w1\<rparr>) (s\<lparr>stream := w\<rparr>)" "rx w = []"
    using Cons.IH [of "s\<lparr>stream := ?w1\<rparr>"] Cons.prems by auto
  ultimately show ?case by (meson converse_rtranclp_into_rtranclp)
qed

lemma starved_steps:
  "conn_steps bo s s' \<Longrightarrow> rx (stream s) = [] \<Longrightarrow> (\<forall>p. phase s \<noteq> Finished p) \<Longrightarrow>
     rx (stream s') = [] \<and> (\<forall>p. phase s' \<noteq> Finished p)"
proof (induction rule: rtranclp_induct)
  case (step s1 s2)
  then have empty: "rx (stream s1) = []" and nf: "\<forall>p. phase s1 \<noteq> Finished p" by auto
  have none: "recv_packet bo (stream s1) \<noteq> (Ok p, w)" for p w
    using recv_packet_consumes [of bo "stream s1" p w] empty by auto
  have rest: "recv_packet bo (stream s1) = (r, w) \<Longrightarrow> rx w = []" for r w
    using preservesD [OF recv_packet_reads, of bo "stream s1" r w] empty by (auto simp: reads_def)
  from step(2) show ?case
    by cases (use none rest nf empty in auto)
qed simp

text \<open>
  C11. The listener can take the client's response. Whatever packets the camera sends, the response to
  the waiting client's transaction among them, there is a run in which the listener discards them
  all, and from the state it reaches no run lets the client finish: it can only fail.
\<close>

theorem response_can_be_stolen:
  assumes "byteorder_spec bo" and "\<forall>p \<in> set ps. receivable p" and "rx w = frames ps"
  shows "\<exists>s. conn_steps bo (conn_start w tid) s \<and> phase s = Waiting tid \<and>
     (\<forall>s' p. conn_steps bo s s' \<longrightarrow> phase s' \<noteq> Finished p)"
proof -
  let ?s0 = "conn_start w tid"
  obtain w' where run: "conn_steps bo ?s0 (?s0\<lparr>stream := w'\<rparr>)" and "rx w' = []"
    using listener_takes_all [OF assms(1,2), of ?s0] assms(3) by (auto simp: conn_start_def)
  then show ?thesis
    using starved_steps [of bo "?s0\<lparr>stream := w'\<rparr>"]
    by (intro exI [of _ "?s0\<lparr>stream := w'\<rparr>"]) (auto simp: conn_start_def)
qed

theorem response_can_be_stolen_witness:
  "\<exists>s. conn_steps utils_byteorder (conn_start (serving []) 1) s \<and> phase s = Waiting 1 \<and>
     rx (stream (conn_start (serving []) 1)) = frames [ok_reply 1 []] \<and>
     \<not> conn_steps utils_byteorder s (s\<lparr>phase := Finished (ok_reply 1 [])\<rparr>)"
proof -
  have "\<forall>p \<in> set [ok_reply 1 []]. receivable p"
    by (simp add: ok_reply_def receivable.simps)
  from response_can_be_stolen [OF utils_byteorder_spec this, of "serving []" 1]
  obtain s where "conn_steps utils_byteorder (conn_start (serving []) 1) s" "phase s = Waiting 1"
    "\<forall>s' p. conn_steps utils_byteorder s s' \<longrightarrow> phase s' \<noteq> Finished p"
    by (auto simp: serving_def)
  then show ?thesis
    by (intro exI [of _ s]) (auto simp: conn_start_def serving_def)
qed

end
