(* ===== verification/Interleave.thy ===== *)
theory Interleave
  imports Sharing
begin

text \<open>
  The client and its listener thread below the level of packets. Each thread runs \<open>recv_packet\<close> of
  \<open>src/transport.rs\<close> on the shared socket, and the system may switch between them after every byte
  that a \<open>read\<close> returned. A thread inside \<open>recv_packet\<close> is a \<open>reader\<close>: which \<open>read_exact\<close> call
  it is in, with the bytes that the call has collected. Run alone, a reader is \<open>recv_packet\<close>
  (\<open>reader_is_recv_packet\<close>), and the packet steps of \<open>Sharing\<close> are runs of these steps.
\<close>

section \<open>A receive, call by call\<close>

text \<open>The five \<open>read_exact\<close> calls on the way through \<open>recv_packet\<close> and \<open>PtpIpHeader::from_stream\<close>.\<close>

datatype stage =
    TypeBytes
  | HeaderBytes u16
  | DataLength u16 u16 u32
  | ResponseLength header
  | PayloadBytes message_type header usize

datatype reader = Reading stage bytes | Delivered packet | Broken ptpip_error

fun need :: "stage \<Rightarrow> usize" where
  "need TypeBytes = 2"
| "need (HeaderBytes t) = HEADER_AFTER_TYPE_SIZE"
| "need (DataLength t r tid) = 4"
| "need (ResponseLength h) = 4"
| "need (PayloadBytes mt h n) = n"

definition to_payload :: "message_type \<Rightarrow> header \<Rightarrow> usize \<Rightarrow> reader" where
  "to_payload message_type header n =
     (if n > 0 then Reading (PayloadBytes message_type header n) []
      else Delivered \<lparr>pkt_type = message_type, pkt_tid = h_transaction_id header, payload = []\<rparr>)"

text \<open>The code between the header and the payload.\<close>

definition to_body :: "header \<Rightarrow> reader" where
  "to_body header =
     (case known_message_type (h_message_type header) of
        Inl e \<Rightarrow> Broken e
      | Inr message_type \<Rightarrow>
          if message_type = DataBlock then to_payload message_type header (unat (h_payload_length header))
          else if message_type = ResponseBlock \<and> h_payload_length header = 0
          then Reading (ResponseLength header) []
          else to_payload message_type header 0)"

definition header_fields :: "byteorder \<Rightarrow> u16 \<Rightarrow> bytes \<Rightarrow> ptpip_error + (u16 \<times> u32)" where
  "header_fields bo t header_bytes =
     bind_r (try_io (header_type bo (Some t) (cursor_new header_bytes))) (\<lambda>(message_type, reader).
     bind_r (try_io (bo_read_u16 bo reader)) (\<lambda>(reserved, reader).
     bind_r (try_io (bo_read_u32 bo reader)) (\<lambda>(transaction_id, reader).
     Ok (reserved, transaction_id))))"

text \<open>What follows a \<open>read_exact\<close> that got its bytes.\<close>

fun got :: "byteorder \<Rightarrow> stage \<Rightarrow> bytes \<Rightarrow> reader" where
  "got bo TypeBytes bs = Reading (HeaderBytes (shift_or16 (bs ! 0) (bs ! 1))) []"
| "got bo (HeaderBytes t) bs =
     (case header_fields bo t bs of
        Inl e \<Rightarrow> Broken e
      | Inr (reserved, tid) \<Rightarrow>
          if t = message_code DataBlock then Reading (DataLength t reserved tid) []
          else to_body \<lparr>h_message_type = t, h_reserved = reserved, h_transaction_id = tid, h_payload_length = 0\<rparr>)"
| "got bo (DataLength t reserved tid) bs =
     to_body \<lparr>h_message_type = t, h_reserved = reserved, h_transaction_id = tid,
       h_payload_length = shift_or32 (bs ! 0) (bs ! 1) (bs ! 2) (bs ! 3)\<rparr>"
| "got bo (ResponseLength h) bs =
     (let total_len = shift_or32 (bs ! 0) (bs ! 1) (bs ! 2) (bs ! 3) in
      to_payload ResponseBlock h (if total_len \<ge> 4 then unat (total_len - 4) else 0))"
| "got bo (PayloadBytes mt h n) bs =
     Delivered \<lparr>pkt_type = mt, pkt_tid = h_transaction_id h, payload = bs\<rparr>"

text \<open>What follows one that failed: only the length of a response may be missing.\<close>

fun failed_read :: "stage \<Rightarrow> io_error \<Rightarrow> reader" where
  "failed_read (ResponseLength h) e = to_payload ResponseBlock h 0"
| "failed_read st e = Broken (from_io_error e)"

text \<open>One event of the connection, or its end, inside a \<open>read_exact\<close>.\<close>

fun read_event :: "byteorder \<Rightarrow> stage \<Rightarrow> bytes \<Rightarrow> rx_event \<Rightarrow> reader" where
  "read_event bo st acc (RxByte b) =
     (if Suc (length acc) < need st then Reading st (acc @ [b]) else got bo st (acc @ [b]))"
| "read_event bo st acc (RxDelay d) = Reading st acc"
| "read_event bo st acc (RxFault e) =
     (if io_kind e = Interrupted then Reading st acc else failed_read st e)"

fun waited :: "rx_event \<Rightarrow> nat" where
  "waited (RxDelay d) = d"
| "waited ev = 0"

definition thread_read :: "byteorder \<Rightarrow> stage \<Rightarrow> bytes \<Rightarrow> world \<Rightarrow> reader \<times> world" where
  "thread_read bo st acc w =
     (case rx w of
        [] \<Rightarrow> (failed_read st eof_error, w)
      | ev # evs \<Rightarrow> (read_event bo st acc ev, w\<lparr>rx := evs, clock := clock w + waited ev\<rparr>))"

text \<open>A thread on its own: the end of the stream is met once, every other turn consumes an event.\<close>

function run_reader :: "byteorder \<Rightarrow> reader \<Rightarrow> (packet, ptpip_error) io" where
  "run_reader bo (Delivered p) w = (Ok p, w)"
| "run_reader bo (Broken e) w = (Err e, w)"
| "run_reader bo (Reading st acc) w = (case thread_read bo st acc w of (r, w') \<Rightarrow> run_reader bo r w')"
  by pat_completeness auto

fun is_reading :: "reader \<Rightarrow> bool" where
  "is_reading (Reading st acc) = True"
| "is_reading r = False"

lemma failed_read_ends: "\<not> is_reading (failed_read st e)"
  by (cases st) (auto simp: to_payload_def)

termination run_reader
  by (relation "measures [\<lambda>(bo, r, w). length (rx w), \<lambda>(bo, r, w). if is_reading r then 1 else 0]")
    (auto simp: thread_read_def failed_read_ends split: list.splits)

lemma run_stage:
  "length acc < need st \<Longrightarrow> run_reader bo (Reading st acc) w =
     (case stream_read_exact (need st - length acc) w of
        (Inr bs, w') \<Rightarrow> run_reader bo (got bo st (acc @ bs)) w'
      | (Inl e, w') \<Rightarrow> run_reader bo (failed_read st e) w')"
proof (induction "rx w" arbitrary: acc w)
  case Nil
  then obtain n where "need st - length acc = Suc n" by (metis Suc_diff_Suc)
  moreover have "run_reader bo r (w\<lparr>rx := []\<rparr>) = run_reader bo r w" for r
    using Nil(1) by (intro arg_cong [where f = "run_reader bo r"]) simp
  ultimately show ?case
    using Nil(1) [symmetric] by (simp add: thread_read_def stream_read_exact_def run_reader.simps(3))
next
  case (Cons ev evs)
  obtain n where n: "need st - length acc = Suc n" using Cons.prems by (metis Suc_diff_Suc)
  let ?w1 = "w\<lparr>rx := evs, clock := clock w + waited ev\<rparr>"
  note rx = Cons.hyps(2) [symmetric]
  show ?case
  proof (cases ev)
    case (RxByte b)
    have next_read: "stream_read_exact (Suc n) w =
        (case stream_read_exact n ?w1 of (r, w') \<Rightarrow> (bind_r r (\<lambda>bs. Ok (b # bs)), w'))"
      using rx RxByte by (simp add: stream_read_exact_def split: prod.splits)
    show ?thesis
    proof (cases n)
      case 0
      then have "need st = Suc (length acc)" using n by simp
      with 0 RxByte rx show ?thesis
        by (simp add: thread_read_def stream_read_exact_def)
    next
      case (Suc m)
      then have "Suc (length acc) < need st" using n by simp
      with Cons.hyps(1) [of ?w1 "acc @ [b]"] Suc n RxByte rx next_read show ?thesis
        by (auto simp: thread_read_def diff_Suc split: prod.splits sum.splits nat.splits)
    qed
  next
    case (RxDelay d)
    with Cons n rx show ?thesis
      using Cons.hyps(1) [of ?w1 acc] by (simp add: thread_read_def stream_read_exact_def)
  next
    case (RxFault e)
    with Cons n rx show ?thesis
      using Cons.hyps(1) [of ?w1 acc] by (simp add: thread_read_def stream_read_exact_def)
  qed
qed

declare run_reader.simps(3) [simp del]

lemma run_payload: "run_reader bo (to_payload mt h n) w = read_payload mt h n w"
  by (simp add: to_payload_def run_stage read_payload_def bind_io_def io_try_def ret_apply
      split: prod.splits sum.splits)

lemma run_response: "run_reader bo (Reading (ResponseLength h) []) w = read_response h w"
  by (simp add: run_stage run_payload read_response_def Let_def
      split: prod.splits sum.splits)

lemma run_body:
  "run_reader bo (to_body h) w =
     bind_io (lift_r (known_message_type (h_message_type h))) (\<lambda>message_type.
     if message_type = DataBlock
     then read_payload message_type h (unat (h_payload_length h))
     else if message_type = ResponseBlock
     then (if h_payload_length h = 0 then read_response h
           else read_payload message_type h 0)
     else read_payload message_type h 0) w"
  by (auto simp: to_body_def run_payload run_response bind_io_def lift_r_apply
      split: sum.splits)

lemma header_from_stream_parts:
  "header_from_stream bo (Some t) w =
     (case stream_read_exact HEADER_AFTER_TYPE_SIZE w of
        (Inl e, w') \<Rightarrow> (Err (from_io_error e), w')
      | (Inr bs, w') \<Rightarrow>
          (case header_fields bo t bs of
             Inl e \<Rightarrow> (Err e, w')
           | Inr (reserved, tid) \<Rightarrow>
               if t = message_code DataBlock
               then (case stream_read_exact 4 w' of
                       (Inl e, w') \<Rightarrow> (Err (from_io_error e), w')
                     | (Inr l, w') \<Rightarrow>
                         (Ok \<lparr>h_message_type = t, h_reserved = reserved, h_transaction_id = tid,
                              h_payload_length = shift_or32 (l ! 0) (l ! 1) (l ! 2) (l ! 3)\<rparr>, w'))
               else (Ok \<lparr>h_message_type = t, h_reserved = reserved, h_transaction_id = tid,
                         h_payload_length = 0\<rparr>, w')))"
proof -
  obtain r w1 where 1: "stream_read_exact HEADER_AFTER_TYPE_SIZE w = (r, w1)" by fastforce
  show ?thesis
  proof (cases r)
    case (Inl e)
    with 1 show ?thesis by (simp add: header_from_stream_def bind_io_def io_try_def)
  next
    case (Inr bs)
    show ?thesis
    proof (cases "bo_read_u16 bo (cursor_new bs)")
      case (Inl e)
      with 1 Inr show ?thesis
        by (simp add: header_from_stream_def header_fields_def header_type_def bind_io_def io_try_def lift_r_apply)
    next
      case (Inr rc)
      obtain x c where rc: "rc = (x, c)" by fastforce
      obtain r2 w2 where 2: "stream_read_exact 4 w1 = (r2, w2)" by fastforce
      show ?thesis
        using 1 \<open>r = Inr bs\<close> Inr rc 2
        by (cases "bo_read_u32 bo c"; cases r2)
          (auto simp: header_from_stream_def header_fields_def header_type_def bind_io_def io_try_def
            lift_r_apply ret_apply simp del: message_code.simps)
    qed
  qed
qed

text \<open>
  C12. A thread that is alone on the connection is \<open>recv_packet\<close>: read byte by byte, with every
  wait, fault and end of the stream inside any of its reads, it returns the same packet or error
  and leaves the same connection.
\<close>

theorem reader_is_recv_packet:
  "run_reader bo (Reading TypeBytes []) w = recv_packet bo w"
proof -
  obtain r w1 where 1: "stream_read_exact 2 w = (r, w1)" by fastforce
  show ?thesis
  proof (cases r)
    case (Inl e)
    with 1 show ?thesis by (simp add: run_stage recv_packet_def bind_io_def io_try_def)
  next
    case (Inr tb)
    define t where "t = shift_or16 (tb ! 0) (tb ! 1)"
    have left: "run_reader bo (Reading TypeBytes []) w = run_reader bo (Reading (HeaderBytes t) []) w1"
      using 1 Inr by (simp add: run_stage [of "[]" TypeBytes] t_def)
    have right: "recv_packet bo w = bind_io (header_from_stream bo (Some t)) (\<lambda>h w. run_reader bo (to_body h) w) w1"
      using 1 Inr by (simp add: recv_packet_def bind_io_Ok t_def run_body [abs_def])
    show ?thesis
      unfolding left right bind_io_def header_from_stream_parts
      by (auto simp: run_stage HEADER_AFTER_TYPE_SIZE_def simp del: message_code.simps
          split: prod.splits sum.splits)
  qed
qed

section \<open>Two threads, byte by byte\<close>

abbreviation idle :: reader where "idle \<equiv> Reading TypeBytes []"

record system =
  shared :: conn
  client_at :: reader
  listener_at :: reader

definition both_idle :: "conn \<Rightarrow> system" where
  "both_idle c = \<lparr>shared = c, client_at = idle, listener_at = idle\<rparr>"

text \<open>
  The client looks at its deadline only between packets. A listener that is no longer running
  takes no step.
\<close>

inductive fine_step :: "byteorder \<Rightarrow> system \<Rightarrow> system \<Rightarrow> bool" for bo where
  Client_reads: "phase (shared s) = Waiting tid \<Longrightarrow> client_at s = Reading st acc \<Longrightarrow>
    thread_read bo st acc (stream (shared s)) = (r, w) \<Longrightarrow>
    fine_step bo s (s\<lparr>shared := (shared s)\<lparr>stream := w\<rparr>, client_at := r\<rparr>)"
| Client_delivers: "phase (shared s) = Waiting tid \<Longrightarrow> client_at s = Delivered p \<Longrightarrow>
    fine_step bo s (s\<lparr>shared := (shared s)\<lparr>phase := client_turn tid p\<rparr>, client_at := idle\<rparr>)"
| Client_breaks: "phase (shared s) = Waiting tid \<Longrightarrow> client_at s = Broken e \<Longrightarrow>
    fine_step bo s (s\<lparr>shared := (shared s)\<lparr>phase := Failed e\<rparr>, client_at := idle\<rparr>)"
| Deadline: "phase (shared s) = Waiting tid \<Longrightarrow> client_at s = idle \<Longrightarrow>
    fine_step bo s (s\<lparr>shared := (shared s)\<lparr>phase := Failed Timeout\<rparr>\<rparr>)"
| Listener_reads: "listening (shared s) \<Longrightarrow> listener_at s = Reading st acc \<Longrightarrow>
    thread_read bo st acc (stream (shared s)) = (r, w) \<Longrightarrow>
    fine_step bo s (s\<lparr>shared := (shared s)\<lparr>stream := w\<rparr>, listener_at := r\<rparr>)"
| Listener_delivers: "listening (shared s) \<Longrightarrow> listener_at s = Delivered p \<Longrightarrow>
    fine_step bo s (s\<lparr>shared := (shared s)\<lparr>channel := listener_turn p (channel (shared s))\<rparr>,
      listener_at := idle\<rparr>)"
| Listener_breaks: "listening (shared s) \<Longrightarrow> listener_at s = Broken e \<Longrightarrow>
    fine_step bo s (s\<lparr>shared := (shared s)\<lparr>listening := (e = Timeout)\<rparr>, listener_at := idle\<rparr>)"

abbreviation fine_steps :: "byteorder \<Rightarrow> system \<Rightarrow> system \<Rightarrow> bool" where
  "fine_steps bo \<equiv> (fine_step bo)\<^sup>*\<^sup>*"

text \<open>The reader in which a receive that returns \<open>res\<close> stops.\<close>

fun stopped :: "ptpip_error + packet \<Rightarrow> reader" where
  "stopped (Inl e) = Broken e"
| "stopped (Inr p) = Delivered p"

lemma same_reader:
  "client_at s = r \<Longrightarrow> s\<lparr>client_at := r\<rparr> = s" "listener_at s = r \<Longrightarrow> s\<lparr>listener_at := r\<rparr> = s"
  by auto

lemma client_runs:
  "run_reader bo r w = (res, w') \<Longrightarrow> phase (shared s) = Waiting tid \<Longrightarrow> client_at s = r \<Longrightarrow>
     stream (shared s) = w \<Longrightarrow>
     fine_steps bo s (s\<lparr>shared := (shared s)\<lparr>stream := w'\<rparr>, client_at := stopped res\<rparr>)"
proof (induction bo r w arbitrary: s rule: run_reader.induct)
  case (3 bo st acc w)
  obtain r' w1 where one: "thread_read bo st acc w = (r', w1)" by fastforce
  let ?s1 = "s\<lparr>shared := (shared s)\<lparr>stream := w1\<rparr>, client_at := r'\<rparr>"
  have "fine_step bo s ?s1"
    using 3 one by (intro Client_reads [of s tid st acc bo r' w1]) simp_all
  moreover have "run_reader bo r' w1 = (res, w')"
    using 3 one by (simp add: run_reader.simps(3))
  then have "fine_steps bo ?s1 (?s1\<lparr>shared := (shared ?s1)\<lparr>stream := w'\<rparr>, client_at := stopped res\<rparr>)"
    using 3(3) by (intro 3(1) [OF one [symmetric]]) simp_all
  ultimately show ?case by (simp add: converse_rtranclp_into_rtranclp)
qed (auto simp: same_reader)

lemma listener_runs:
  "run_reader bo r w = (res, w') \<Longrightarrow> listening (shared s) \<Longrightarrow> listener_at s = r \<Longrightarrow>
     stream (shared s) = w \<Longrightarrow>
     fine_steps bo s (s\<lparr>shared := (shared s)\<lparr>stream := w'\<rparr>, listener_at := stopped res\<rparr>)"
proof (induction bo r w arbitrary: s rule: run_reader.induct)
  case (3 bo st acc w)
  obtain r' w1 where one: "thread_read bo st acc w = (r', w1)" by fastforce
  let ?s1 = "s\<lparr>shared := (shared s)\<lparr>stream := w1\<rparr>, listener_at := r'\<rparr>"
  have "fine_step bo s ?s1"
    using 3 one by (intro Listener_reads [of s st acc bo r' w1]) simp_all
  moreover have "run_reader bo r' w1 = (res, w')"
    using 3 one by (simp add: run_reader.simps(3))
  then have "fine_steps bo ?s1 (?s1\<lparr>shared := (shared ?s1)\<lparr>stream := w'\<rparr>, listener_at := stopped res\<rparr>)"
    using 3(3) by (intro 3(1) [OF one [symmetric]]) simp_all
  ultimately show ?case by (simp add: converse_rtranclp_into_rtranclp)
qed (auto simp: same_reader)

text \<open>A whole receive by one side, and what it makes of the result.\<close>

lemma client_takes:
  assumes "recv_packet bo (stream c) = (res, w)" and "phase c = Waiting tid"
  shows "fine_steps bo \<lparr>shared = c, client_at = idle, listener_at = l\<rparr>
     \<lparr>shared = c\<lparr>stream := w, phase := (case res of Inl e \<Rightarrow> Failed e | Inr p \<Rightarrow> client_turn tid p)\<rparr>,
      client_at = idle, listener_at = l\<rparr>"
proof -
  let ?s = "\<lparr>shared = c, client_at = idle, listener_at = l\<rparr>"
  let ?m = "?s\<lparr>shared := c\<lparr>stream := w\<rparr>, client_at := stopped res\<rparr>"
  have "fine_steps bo ?s ?m"
    using client_runs [of bo idle "stream c" res w ?s tid] assms by (simp add: reader_is_recv_packet)
  also have "fine_step bo ?m \<lparr>shared = c\<lparr>stream := w,
      phase := (case res of Inl e \<Rightarrow> Failed e | Inr p \<Rightarrow> client_turn tid p)\<rparr>,
      client_at = idle, listener_at = l\<rparr>"
    using assms(2) Client_breaks [of ?m tid _ bo] Client_delivers [of ?m tid _ bo]
    by (cases res) simp_all
  finally show ?thesis .
qed

lemma listener_takes:
  assumes "recv_packet bo (stream c) = (res, w)" and "listening c"
  shows "fine_steps bo \<lparr>shared = c, client_at = k, listener_at = idle\<rparr>
     \<lparr>shared = (case res of Inl e \<Rightarrow> c\<lparr>stream := w, listening := (e = Timeout)\<rparr>
        | Inr p \<Rightarrow> c\<lparr>stream := w, channel := listener_turn p (channel c)\<rparr>),
      client_at = k, listener_at = idle\<rparr>"
proof -
  let ?s = "\<lparr>shared = c, client_at = k, listener_at = idle\<rparr>"
  let ?m = "?s\<lparr>shared := c\<lparr>stream := w\<rparr>, listener_at := stopped res\<rparr>"
  have "fine_steps bo ?s ?m"
    using listener_runs [of bo idle "stream c" res w ?s] assms by (simp add: reader_is_recv_packet)
  also have "fine_step bo ?m \<lparr>shared = (case res of Inl e \<Rightarrow> c\<lparr>stream := w, listening := (e = Timeout)\<rparr>
        | Inr p \<Rightarrow> c\<lparr>stream := w, channel := listener_turn p (channel c)\<rparr>),
      client_at = k, listener_at = idle\<rparr>"
    using assms(2) Listener_breaks [of ?m _ bo] Listener_delivers [of ?m _ bo]
    by (cases res) simp_all
  finally show ?thesis .
qed

lemma conn_step_refined: "conn_step bo c c' \<Longrightarrow> fine_steps bo (both_idle c) (both_idle c')"
proof (induction rule: conn_step.induct)
  case (Client_takes s tid p w)
  then show ?case using client_takes [of bo s "Inr p" w tid idle] by (simp add: both_idle_def)
next
  case (Client_fails s tid e w)
  then show ?case using client_takes [of bo s "Inl e" w tid idle] by (simp add: both_idle_def)
next
  case (Client_expires s tid)
  then show ?case using Deadline [of "both_idle s" tid bo] by (simp add: both_idle_def r_into_rtranclp)
next
  case (Listener_takes s p w)
  then show ?case using listener_takes [of bo s "Inr p" w idle] by (simp add: both_idle_def)
next
  case (Listener_fails s e w)
  then show ?case using listener_takes [of bo s "Inl e" w idle] by (simp add: both_idle_def)
qed



section \<open>The forged response\<close>

lemma listener_fills:
  "bs \<noteq> [] \<Longrightarrow> length acc + length bs = need st \<Longrightarrow> listening c \<Longrightarrow>
     rx (stream c) = rx_bytes bs @ evs \<Longrightarrow>
     fine_steps bo \<lparr>shared = c, client_at = k, listener_at = Reading st acc\<rparr>
       \<lparr>shared = c\<lparr>stream := (stream c)\<lparr>rx := evs\<rparr>\<rparr>, client_at = k, listener_at = got bo st (acc @ bs)\<rparr>"
proof (induction bs arbitrary: acc c)
  case (Cons b bs)
  let ?s = "\<lparr>shared = c, client_at = k, listener_at = Reading st acc\<rparr>"
  let ?w1 = "(stream c)\<lparr>rx := rx_bytes bs @ evs\<rparr>"
  let ?r = "if bs = [] then got bo st (acc @ [b]) else Reading st (acc @ [b])"
  have "thread_read bo st acc (stream c) = (?r, ?w1)"
    using Cons.prems by (cases bs) (auto simp: thread_read_def)
  then have "fine_step bo ?s (?s\<lparr>shared := c\<lparr>stream := ?w1\<rparr>, listener_at := ?r\<rparr>)"
    using Cons.prems Listener_reads [of ?s st acc bo ?r ?w1] by simp
  then have one: "fine_step bo ?s \<lparr>shared = c\<lparr>stream := ?w1\<rparr>, client_at = k, listener_at = ?r\<rparr>"
    by simp
  show ?case
  proof (cases "bs = []")
    case True
    with one show ?thesis by simp
  next
    case False
    then show ?thesis
      using one Cons.IH [of "acc @ [b]" "c\<lparr>stream := ?w1\<rparr>"] Cons.prems
      by (auto intro: converse_rtranclp_into_rtranclp)
  qed
qed simp

lemma header_fields_bytes:
  "byteorder_spec bo \<Longrightarrow> header_fields bo t (write_u16_be r @ write_u32_be tid) = Ok (r, tid)"
  using cursor_u16_u32 [OF refl, of r tid]
  by (simp add: header_fields_def header_type_def bo_simps)

lemma listener_opens_block:
  assumes bo: "byteorder_spec bo" and q: "pkt_type q = DataBlock"
    "payload q \<noteq> []" "length (payload q) < 2 ^ 32"
    and c: "listening c" "rx (stream c) = rx_bytes (wire_in q) @ evs"
  shows "\<exists>h. fine_steps bo (both_idle c)
     \<lparr>shared = c\<lparr>stream := (stream c)\<lparr>rx := rx_bytes (payload q) @ evs\<rparr>\<rparr>, client_at = idle,
      listener_at = Reading (PayloadBytes DataBlock h (length (payload q))) []\<rparr>"
proof -
  let ?len = "word_of_nat (length (payload q)) :: u32"
  let ?t = "message_code DataBlock"
  let ?fields = "write_u16_be 0 @ write_u32_be (pkt_tid q)"
  have wire: "wire_in q = write_u16_be ?t @ ?fields @ write_u32_be ?len @ payload q"
    using q by (simp add: wire_in_def wire_out_def wire_header_def)
  let ?at = "\<lambda>bs r. \<lparr>shared = c\<lparr>stream := (stream c)\<lparr>rx := rx_bytes bs @ evs\<rparr>\<rparr>,
      client_at = idle, listener_at = r\<rparr>"
  have start: "both_idle c = ?at (wire_in q) idle"
    using c(2) [symmetric] by (simp add: both_idle_def)
  have fill: "fine_steps bo (?at (bs @ rest) (Reading st [])) (?at rest (got bo st bs))"
    if "length bs = need st" "0 < need st" for bs rest st
    using listener_fills [of bs "[]" st "c\<lparr>stream := (stream c)\<lparr>rx := rx_bytes (bs @ rest) @ evs\<rparr>\<rparr>"
        "rx_bytes rest @ evs" bo idle] that c(1) by (cases bs) simp_all
  let ?h = "\<lparr>h_message_type = ?t, h_reserved = 0, h_transaction_id = pkt_tid q, h_payload_length = ?len\<rparr>"
  have "fine_steps bo (?at (wire_in q) idle) (?at (?fields @ write_u32_be ?len @ payload q) (Reading (HeaderBytes ?t) []))"
    using fill [of "write_u16_be ?t" TypeBytes "?fields @ write_u32_be ?len @ payload q"] wire
    by (simp add: shift_or16_of_write [simplified] del: message_code.simps)
  moreover have "fine_steps bo (?at (?fields @ write_u32_be ?len @ payload q) (Reading (HeaderBytes ?t) []))
      (?at (write_u32_be ?len @ payload q) (Reading (DataLength ?t 0 (pkt_tid q)) []))"
    using fill [of ?fields "HeaderBytes ?t" "write_u32_be ?len @ payload q"] header_fields_bytes [OF bo, of ?t 0 "pkt_tid q"]
    by (simp add: HEADER_AFTER_TYPE_SIZE_def del: message_code.simps)
  moreover have "got bo (DataLength ?t 0 (pkt_tid q)) (write_u32_be ?len) =
      Reading (PayloadBytes DataBlock ?h (length (payload q))) []"
    using q by (simp add: to_body_def to_payload_def known_message_type_def shift_or32_of_write [simplified]
        unat_word_of_nat)
  then have "fine_steps bo (?at (write_u32_be ?len @ payload q) (Reading (DataLength ?t 0 (pkt_tid q)) []))
      (?at (payload q) (Reading (PayloadBytes DataBlock ?h (length (payload q))) []))"
    using fill [of "write_u32_be ?len" "DataLength ?t 0 (pkt_tid q)" "payload q"]
    by (simp del: message_code.simps got.simps)
  ultimately show ?thesis
    unfolding start by (intro exI [of _ ?h]) (meson rtranclp_trans)
qed

text \<open>
  C14. Between the two threads, data can pass for a response. The camera sends a single packet, a data
  block whose payload spells a response: when the listener has read the header of the block and
  the client reads next, the client finishes with that response, although the camera sent none.
\<close>

theorem data_forges_response:
  assumes "byteorder_spec bo" and "pkt_type q = DataBlock" and "length (payload q) < 2 ^ 32"
    and "payload q = wire_in p" and "answers tid p" and "receivable p"
    and "check_response_error p = Ok ()" and "rx w = frames [q]"
  shows "\<exists>s. fine_steps bo (both_idle (conn_start w tid)) s \<and> phase (shared s) = Finished p \<and>
     p \<notin> set [q] \<and> rx (stream (shared s)) = []"
proof -
  let ?c = "conn_start w tid"
  let ?w1 = "w\<lparr>rx := rx_bytes (wire_in p)\<rparr>"
  have "payload q \<noteq> []"
    using assms(4,5) by (simp add: answers_def wire_in_def wire_header_def write_defs)
  then obtain h where "fine_steps bo (both_idle ?c) \<lparr>shared = ?c\<lparr>stream := ?w1\<rparr>, client_at = idle,
      listener_at = Reading (PayloadBytes DataBlock h (length (payload q))) []\<rparr>" (is "fine_steps bo _ ?m")
    using listener_opens_block [OF assms(1,2) _ assms(3), of ?c "[]"] assms(4,8)
    by (auto simp: conn_start_def)
  moreover have "recv_packet bo ?w1 = (Ok p, ?w1\<lparr>rx := []\<rparr>)"
    using recv_packet_frame [OF assms(1,6), of ?w1 "[]" "[]"] by simp
  then have "fine_steps bo ?m \<lparr>shared = ?c\<lparr>stream := ?w1\<lparr>rx := []\<rparr>, phase := Finished p\<rparr>, client_at = idle,
      listener_at = listener_at ?m\<rparr>" (is "fine_steps bo _ ?s")
    using client_takes [of bo "?c\<lparr>stream := ?w1\<rparr>" "Inr p" "?w1\<lparr>rx := []\<rparr>" tid "listener_at ?m"] assms(5,7)
    by (simp add: conn_start_def client_turn_def answers_def)
  ultimately have "fine_steps bo (both_idle ?c) ?s" by (rule rtranclp_trans)
  then show ?thesis
    using assms(2,5) by (intro exI [of _ ?s]) (auto simp: answers_def)
qed

theorem data_forges_response_witness:
  "\<exists>s. fine_steps utils_byteorder
       (both_idle (conn_start (quiet\<lparr>rx := frames [\<lparr>pkt_type = DataBlock, pkt_tid = 9,
          payload = wire_in (ok_reply 1 [])\<rparr>]\<rparr>) 1)) s \<and>
     phase (shared s) = Finished (ok_reply 1 []) \<and> rx (stream (shared s)) = []"
  using data_forges_response [OF utils_byteorder_spec, of
      "\<lparr>pkt_type = DataBlock, pkt_tid = 9, payload = wire_in (ok_reply 1 [])\<rparr>" "ok_reply 1 []" 1
      "quiet\<lparr>rx := frames [\<lparr>pkt_type = DataBlock, pkt_tid = 9, payload = wire_in (ok_reply 1 [])\<rparr>]\<rparr>"]
  by (simp add: ok_reply_def answers_def receivable.simps check_response_error_eq be_value_def
      wire_in_def wire_header_def)

end
