(* ===== verification/Net.thy ===== *)
theory Net
  imports Commands_Facts
begin

text \<open>
  A frame for everything that only talks over the connection: input is consumed, time passes, and
  neither the files nor the reports of a download change, whether the operation succeeds or not.
  The clients of the command layer use it for their own frames.
\<close>

definition net :: "world \<Rightarrow> world \<Rightarrow> bool" where
  "net w w' \<longleftrightarrow>
     length (rx w') \<le> length (rx w) \<and> clock w \<le> clock w' \<and> files w' = files w \<and>
     fs_script w' = fs_script w \<and> progress w' = progress w"

lemma net_equiv [keeps]: "reflp net" "transp net"
  by (auto simp: reflp_def transp_def net_def)

lemma net_trans: "net a b \<Longrightarrow> net b c \<Longrightarrow> net a c"
  by (auto simp: net_def)

lemma reads_net: "preserves reads m \<Longrightarrow> preserves net m"
  by (fastforce simp: preserves_def reads_def net_def)

lemma write_net [keeps]: "preserves net (stream_write_all d)" "preserves net stream_flush"
  by (auto simp: preserves_def net_def stream_write_all_def stream_flush_def
      split: list.splits tx_outcome.splits if_splits)

lemma generate_net [keeps]: "preserves net generate_transaction_id"
  by (auto simp: preserves_def net_def generate_transaction_id_def)

lemma sleep_net: "net w (sleep d w)"
  by (simp add: net_def sleep_def)

lemma send_packet_net [keeps]: "preserves net (send_packet bo p)"
  unfolding send_packet_def by (auto intro!: keeps)

lemma send_retry_loop_net: "send_retry_loop bo p cfg n w = (r, w') \<Longrightarrow> net w w'"
proof (induction bo p cfg n w rule: send_retry_loop.induct)
  case (1 bo p cfg n w)
  obtain r1 w1 where run: "send_packet bo p w = (r1, w1)" by fastforce
  have rd: "net w w1" using preservesD [OF send_packet_net run] .
  show ?case
    using "1.prems" "1.IH" [OF run [symmetric] _ refl] run rd
      sleep_net [of w1 "duration_from_millis (retry_delay_ms cfg)"]
    by (auto simp: send_retry_loop.simps [of bo p cfg n w] Let_def split: sum.splits if_splits
        intro: net_trans)
qed

lemma send_command_net [keeps]: "preserves net (send_command bo code tid params cfg)"
proof -
  have "preserves net (send_packet_with_retry bo p cfg)" for p
    by (auto simp: preserves_def send_packet_with_retry_def dest: send_retry_loop_net)
  then show ?thesis unfolding send_command_def by (auto intro!: keeps)
qed

lemma receive_net [keeps]: "preserves net (receive_data_block bo tid cfg)"
  by (rule reads_net [OF receive_data_block_reads])

lemma get_response_net [keeps]: "preserves net (get_response bo tid cfg)"
  by (rule reads_net [OF get_response_reads])

end
