(* ===== verification/Files.thy ===== *)
theory Files
  imports World
begin

text \<open>
  What the download code uses of \<open>std::path\<close>, \<open>std::fs\<close> and number parsing. \<open>files\<close> maps a path to
  the contents of the regular file there. Every call takes one entry of \<open>fs_script\<close>; an error
  entry makes it fail, after some prefix of the data for a write. An open file is the path it was
  opened at: the code never renames or removes a file that it goes on using.
\<close>

section \<open>Paths\<close>

definition file_name :: "path \<Rightarrow> string option" where
  "file_name p = (if p = [] then None else case last p of Normal n \<Rightarrow> Some n | _ \<Rightarrow> None)"

definition set_file_name :: "string \<Rightarrow> path \<Rightarrow> path" where
  "set_file_name n p = (if file_name p \<noteq> None then butlast p else p) @ [Normal n]"

definition to_string_lossy :: "string \<Rightarrow> string" where
  "to_string_lossy n = string_of_bytes (utf8_lossy (bytes_of_string n))"

section \<open>Calls\<close>

definition fs_call :: "(world \<Rightarrow> (io_error + 'a) \<times> world) \<Rightarrow> ('a, io_error) io" where
  "fs_call f w =
     (case fs_script w of
        [] \<Rightarrow> f w
      | TxOk # s \<Rightarrow> f (w\<lparr>fs_script := s\<rparr>)
      | TxErr k e # s \<Rightarrow> (Err e, w\<lparr>fs_script := s\<rparr>))"

text \<open>\<open>Path::exists\<close> reports an error as absence.\<close>

definition path_exists :: "path \<Rightarrow> (bool, 'e) io" where
  "path_exists p w =
     (case fs_call (\<lambda>w. (Ok (files w p \<noteq> None), w)) w of
        (Inl e, w') \<Rightarrow> (Ok False, w')
      | (Inr b, w') \<Rightarrow> (Ok b, w'))"

definition fs_read :: "path \<Rightarrow> (bytes, io_error) io" where
  "fs_read p = fs_call (\<lambda>w. (case files w p of None \<Rightarrow> Err not_found_error | Some c \<Rightarrow> Ok c, w))"

definition metadata_len :: "path \<Rightarrow> (u64, io_error) io" where
  "metadata_len p = bind_io (fs_read p) (\<lambda>c. ret (word_of_nat (length c)))"

definition read_to_string :: "path \<Rightarrow> (string, io_error) io" where
  "read_to_string p = bind_io (fs_read p) (\<lambda>c. lift_r (map_err (\<lambda>_. invalid_utf8_error) (from_utf8 c)))"

definition fs_rename :: "path \<Rightarrow> path \<Rightarrow> (unit, io_error) io" where
  "fs_rename a b =
     fs_call (\<lambda>w. case files w a of
        None \<Rightarrow> (Err not_found_error, w)
      | Some c \<Rightarrow> (Ok (), w\<lparr>files := (files w)(a := None, b := Some c)\<rparr>))"

definition remove_file :: "path \<Rightarrow> (unit, io_error) io" where
  "remove_file p =
     fs_call (\<lambda>w. case files w p of
        None \<Rightarrow> (Err not_found_error, w)
      | Some c \<Rightarrow> (Ok (), w\<lparr>files := (files w)(p := None)\<rparr>))"

text \<open>An open file: to read, or to write at its end.\<close>

datatype file_handle = ReadOnly path | AtEnd path

definition file_create :: "path \<Rightarrow> (file_handle, io_error) io" where
  "file_create p = fs_call (\<lambda>w. (Ok (AtEnd p), w\<lparr>files := (files w)(p \<mapsto> [])\<rparr>))"

definition file_open :: "path \<Rightarrow> (file_handle, io_error) io" where
  "file_open p = bind_io (fs_read p) (\<lambda>_. ret (ReadOnly p))"

definition file_append :: "path \<Rightarrow> (file_handle, io_error) io" where
  "file_append p = bind_io (fs_read p) (\<lambda>_. ret (AtEnd p))"

definition extend_file :: "path \<Rightarrow> bytes \<Rightarrow> world \<Rightarrow> world" where
  "extend_file p data w = w\<lparr>files := (files w)(p := map_option (\<lambda>c. c @ data) (files w p))\<rparr>"

fun file_write_all :: "file_handle \<Rightarrow> bytes \<Rightarrow> (unit, io_error) io" where
  "file_write_all (ReadOnly p) data w = (if data = [] then (Ok (), w) else (Err bad_handle_error, w))"
| "file_write_all (AtEnd p) data w =
     (if data = [] then (Ok (), w)
      else case fs_script w of
             [] \<Rightarrow> (Ok (), extend_file p data w)
           | TxOk # s \<Rightarrow> (Ok (), extend_file p data (w\<lparr>fs_script := s\<rparr>))
           | TxErr k e # s \<Rightarrow> (Err e, extend_file p (take k (butlast data)) (w\<lparr>fs_script := s\<rparr>)))"

text \<open>\<open>File::flush\<close> does nothing.\<close>

definition file_flush :: "file_handle \<Rightarrow> (unit, io_error) io" where
  "file_flush f = ret ()"

definition fs_write :: "path \<Rightarrow> bytes \<Rightarrow> (unit, io_error) io" where
  "fs_write p data = bind_io (file_create p) (\<lambda>f. file_write_all f data)"

section \<open>Parsing a number\<close>

text \<open>The UTF-8 encodings of the characters with the property \<open>White_Space\<close>.\<close>

definition white_space :: "bytes list" where
  "white_space =
     [[0x09], [0x0A], [0x0B], [0x0C], [0x0D], [0x20], [0xC2, 0x85], [0xC2, 0xA0],
      [0xE1, 0x9A, 0x80], [0xE2, 0x80, 0x80], [0xE2, 0x80, 0x81], [0xE2, 0x80, 0x82],
      [0xE2, 0x80, 0x83], [0xE2, 0x80, 0x84], [0xE2, 0x80, 0x85], [0xE2, 0x80, 0x86],
      [0xE2, 0x80, 0x87], [0xE2, 0x80, 0x88], [0xE2, 0x80, 0x89], [0xE2, 0x80, 0x8A],
      [0xE2, 0x80, 0xA8], [0xE2, 0x80, 0xA9], [0xE2, 0x80, 0xAF], [0xE2, 0x81, 0x9F],
      [0xE3, 0x80, 0x80]]"

text \<open>Strip encodings of \<open>ws\<close>, whole characters, from the front; \<open>trim_end\<close> works on the mirror image.\<close>

function strip_front :: "bytes list \<Rightarrow> bytes \<Rightarrow> bytes" where
  "strip_front ws bs =
     (case find (\<lambda>c. c \<noteq> [] \<and> take (length c) bs = c) ws of
        None \<Rightarrow> bs
      | Some c \<Rightarrow> strip_front ws (drop (length c) bs))"
  by pat_completeness auto
termination
proof (relation "measure (\<lambda>(ws, bs). length bs)")
  fix ws bs c
  assume "find (\<lambda>c. c \<noteq> [] \<and> take (length c) bs = c) ws = Some c"
  then have c: "c \<noteq> []" "take (length c) bs = c" by (auto simp: find_Some_iff)
  then have "bs \<noteq> []" by auto
  with c show "((ws, drop (length c) bs), ws, bs) \<in> measure (\<lambda>(ws, bs). length bs)" by simp
qed simp

declare strip_front.simps [simp del]

definition trim :: "string \<Rightarrow> string" where
  "trim s = string_of_bytes
     (rev (strip_front (map rev white_space) (rev (strip_front white_space (bytes_of_string s)))))"

definition digit_value :: "char \<Rightarrow> nat option" where
  "digit_value c = (let k = of_char c in if 48 \<le> k \<and> k \<le> 57 then Some (k - 48) else None)"

fun parse_digits :: "nat \<Rightarrow> string \<Rightarrow> nat option" where
  "parse_digits acc [] = Some acc"
| "parse_digits acc (c # cs) =
     (case digit_value c of
        None \<Rightarrow> None
      | Some d \<Rightarrow> if acc * 10 + d < 2 ^ 64 then parse_digits (acc * 10 + d) cs else None)"

text \<open>\<open>str::parse::<usize>\<close>: an optional plus sign and at least one digit, below \<open>2 ^ 64\<close>.\<close>

definition parse_usize :: "string \<Rightarrow> usize option" where
  "parse_usize s =
     (let digits = (case s of c # cs \<Rightarrow> if c = CHR ''+'' then cs else s | [] \<Rightarrow> []) in
      if digits = [] then None else parse_digits 0 digits)"

lemma digit_value_char: "d < 10 \<Longrightarrow> digit_value (digit_char d) = Some d"
  by (auto simp: digit_value_def digit_char_def Let_def)

lemma parse_digits_snoc:
  "parse_digits acc (s @ [c]) =
     (case parse_digits acc s of None \<Rightarrow> None | Some n \<Rightarrow>
        (case digit_value c of None \<Rightarrow> None | Some d \<Rightarrow> if n * 10 + d < 2 ^ 64 then Some (n * 10 + d) else None))"
  by (induction acc s rule: parse_digits.induct) (auto split: option.splits)

lemma parse_digits_dec: "n < 2 ^ 64 \<Longrightarrow> parse_digits 0 (dec n) = Some n"
proof (induction n rule: less_induct)
  case (less n)
  show ?case
  proof (cases "n < 10")
    case True
    then show ?thesis by (simp add: dec_def digits_rev.simps [of 10 n] digit_value_char)
  next
    case False
    then have "dec n = dec (n div 10) @ [digit_char (n mod 10)]"
      by (simp add: dec_def digits_rev.simps [of 10 n])
    moreover have "parse_digits 0 (dec (n div 10)) = Some (n div 10)"
      using less False by simp
    ultimately show ?thesis
      using less.prems by (simp add: parse_digits_snoc digit_value_char)
  qed
qed

lemma digits_rev_ne: "digits_rev b n \<noteq> []"
  by (subst digits_rev.simps) simp

lemma digits_rev_set: "c \<in> set (digits_rev 10 n) \<Longrightarrow> \<exists>d < 10. c = digit_char d"
proof (induction n rule: less_induct)
  case (less n)
  show ?case
  proof (cases "n < 10")
    case True
    with less.prems show ?thesis by (simp add: digits_rev.simps [of 10 n]) blast
  next
    case False
    with less.prems have "c = digit_char (n mod 10) \<or> c \<in> set (digits_rev 10 (n div 10))"
      by (simp add: digits_rev.simps [of 10 n])
    moreover have "n div 10 < n" using False by simp
    ultimately show ?thesis
      using less.IH [of "n div 10"] mod_less_divisor [of 10 n] by (metis zero_less_numeral)
  qed
qed

lemma digit_char_not_plus: "d < 10 \<Longrightarrow> digit_char d \<noteq> CHR ''+''"
  using digit_value_char [of d] by (auto simp: digit_value_def)

lemma parse_usize_dec: "n < 2 ^ 64 \<Longrightarrow> parse_usize (dec n) = Some n"
proof -
  assume n: "n < 2 ^ 64"
  obtain c cs where d: "dec n = c # cs"
    using digits_rev_ne [of 10 n] by (cases "dec n") (auto simp: dec_def)
  then have "c \<noteq> CHR ''+''"
    using digits_rev_set [of c n] digit_char_not_plus by (metis dec_def list.set_intros(1) set_rev)
  with d parse_digits_dec [OF n] show ?thesis by (simp add: parse_usize_def)
qed

lemma strip_front_id:
  "(\<And>c. c \<in> set ws \<Longrightarrow> c \<noteq> [] \<Longrightarrow> take (length c) bs \<noteq> c) \<Longrightarrow> strip_front ws bs = bs"
  by (subst strip_front.simps) (auto split: option.splits simp: find_Some_iff dest: nth_mem)

definition digit_byte :: "u8 \<Rightarrow> bool" where
  "digit_byte b \<longleftrightarrow> 0x30 \<le> b \<and> b \<le> 0x39"

lemma strip_front_digits:
  assumes "\<forall>b \<in> set bs. digit_byte b"
  shows "strip_front white_space bs = bs" and "strip_front (map rev white_space) bs = bs"
proof -
  have "hd c \<notin> {b. digit_byte b} \<and> c \<noteq> []" if "c \<in> set white_space \<union> set (map rev white_space)" for c
    using that by (auto simp: white_space_def digit_byte_def)
  then have "take (length c) bs \<noteq> c" if "c \<in> set white_space \<union> set (map rev white_space)" for c
    using that assms by (metis in_set_takeD list.set_sel(1) mem_Collect_eq)
  then show "strip_front white_space bs = bs" "strip_front (map rev white_space) bs = bs"
    by (auto intro!: strip_front_id)
qed

lemma digit_byte_char: "d < 10 \<Longrightarrow> digit_byte (word_of_nat (of_char (digit_char d)))"
proof -
  assume "d < 10"
  then have "unat (word_of_nat (48 + d) :: u8) = 48 + d"
    by (intro unat_word_of_nat) simp
  with \<open>d < 10\<close> show ?thesis
    by (simp add: digit_byte_def digit_char_def word_le_nat_alt del: of_nat_add)
qed

lemma dec_digit_bytes: "\<forall>b \<in> set (bytes_of_string (dec n)). digit_byte b"
  by (auto simp: bytes_of_string_def dec_def digit_byte_char dest!: digits_rev_set)

lemma trim_dec: "trim (dec n) = dec n"
  using dec_digit_bytes [of n] by (simp add: trim_def strip_front_digits)

lemma dec_valid: "utf8_check 0 (bytes_of_string (dec n)) = Ok ()"
proof (rule utf8_check_ascii, intro ballI)
  fix b
  assume "b \<in> set (bytes_of_string (dec n))"
  then have "digit_byte b" using dec_digit_bytes by blast
  then have "b \<le> 0x39" by (simp add: digit_byte_def)
  then show "b \<le> 0x7F" by (rule order_trans) simp
qed

lemma from_utf8_dec: "from_utf8 (bytes_of_string (dec n)) = Ok (dec n)"
  by (simp add: from_utf8_def dec_valid)

end
