(* ===== verification/Float32.thy ===== *)
theory Float32
  imports Complex_Main "HOL-Library.Log_Nat"
begin

text \<open>
  The \<open>f32\<close> arithmetic of the progress checkpoints of \<open>src/commands.rs\<close>: binary32 values as
  rationals with infinities and NaN, rounding to nearest with ties to even, and the saturating
  cast \<open>as usize\<close>. The sign of a zero is not kept: no operation here depends on it.
\<close>

datatype f32 = Fin rat | PosInf | NegInf | NotANumber

definition pow2 :: "int \<Rightarrow> rat" where
  "pow2 e = (if 0 \<le> e then 2 ^ nat e else 1 / 2 ^ nat (- e))"

text \<open>The exponent of a positive rational: \<open>2 ^ e \<le> q < 2 ^ (e + 1)\<close>.\<close>

definition exponent :: "rat \<Rightarrow> int" where
  "exponent q =
     (let (n, d) = quotient_of q; k = bitlen n - bitlen d in if pow2 k \<le> q then k else k - 1)"

definition round_even :: "rat \<Rightarrow> int" where
  "round_even x =
     (let f = \<lfloor>x\<rfloor>; r = x - of_int f in
      if r < 1 / 2 \<or> (r = 1 / 2 \<and> even f) then f else f + 1)"

text \<open>24 bits of precision, exponents from -126 to 127; larger magnitudes overflow.\<close>

definition round_f32 :: "rat \<Rightarrow> f32" where
  "round_f32 q =
     (if q = 0 then Fin 0
      else
        let ulp = pow2 (max (exponent \<bar>q\<bar>) (- 126) - 23);
            v = of_int (round_even (\<bar>q\<bar> / ulp)) * ulp in
        if v \<ge> 2 ^ 128 then (if q < 0 then NegInf else PosInf)
        else Fin (if q < 0 then - v else v))"

definition f32_of_nat :: "nat \<Rightarrow> f32" where
  "f32_of_nat n = round_f32 (of_nat n)"

fun f32_neg :: "f32 \<Rightarrow> f32" where
  "f32_neg (Fin q) = Fin (- q)"
| "f32_neg PosInf = NegInf"
| "f32_neg NegInf = PosInf"
| "f32_neg NotANumber = NotANumber"

text \<open>An infinity times \<open>b\<close>, for the positive infinity.\<close>

fun inf_times :: "f32 \<Rightarrow> f32" where
  "inf_times (Fin q) = (if q = 0 then NotANumber else if q < 0 then NegInf else PosInf)"
| "inf_times b = b"

fun f32_mul :: "f32 \<Rightarrow> f32 \<Rightarrow> f32" where
  "f32_mul (Fin a) (Fin b) = round_f32 (a * b)"
| "f32_mul NotANumber b = NotANumber"
| "f32_mul PosInf b = inf_times b"
| "f32_mul NegInf b = f32_neg (inf_times b)"
| "f32_mul (Fin a) NotANumber = NotANumber"
| "f32_mul (Fin a) PosInf = inf_times (Fin a)"
| "f32_mul (Fin a) NegInf = f32_neg (inf_times (Fin a))"

text \<open>Division by a positive constant.\<close>

fun f32_div_by :: "f32 \<Rightarrow> rat \<Rightarrow> f32" where
  "f32_div_by (Fin a) c = round_f32 (a / c)"
| "f32_div_by x c = x"

fun f32_as_usize :: "f32 \<Rightarrow> nat" where
  "f32_as_usize (Fin q) = (if q \<le> 0 then 0 else if 2 ^ 64 \<le> q then 2 ^ 64 - 1 else nat \<lfloor>q\<rfloor>)"
| "f32_as_usize PosInf = 2 ^ 64 - 1"
| "f32_as_usize NegInf = 0"
| "f32_as_usize NotANumber = 0"

lemma f32_as_usize_less: "f32_as_usize x < 2 ^ 64"
proof (cases x)
  case (Fin q)
  have "nat \<lfloor>q\<rfloor> < 2 ^ 64" if "q < 2 ^ 64"
  proof -
    have "\<lfloor>q\<rfloor> < 18446744073709551616" using that by (simp add: floor_less_iff)
    then have "nat \<lfloor>q\<rfloor> < nat 18446744073709551616" by (subst nat_mono_iff) simp_all
    then show ?thesis by simp
  qed
  with Fin show ?thesis by simp
qed simp_all

end
