(* ===== verification/Download.thy ===== *)
theory Download
  imports Client Net Files Float32
begin

text \<open>
  The chunked download of \<open>src/commands.rs\<close> with resume, retries and progress reports. The file
  system is the world's; the caller's progress callback is modelled by the log of its calls.
  \<open>usize\<close> counters are natural numbers: offsets stay below the object's 64-bit size, and the
  statistics count attempts that each consume input.
\<close>

record chunk_config =
  chunk_size :: usize
  progress_interval :: f32
  min_chunk_size :: usize

definition default_chunk_config :: chunk_config where
  "default_chunk_config =
     \<lparr>chunk_size = 1024 * 1024, progress_interval = Fin 5, min_chunk_size = 1024 * 64\<rparr>"

section \<open>Paths and the resume record\<close>

definition get_temp_path :: "path \<Rightarrow> path" where
  "get_temp_path save_path =
     set_file_name
       (case file_name save_path of
          Some n \<Rightarrow> ''.'' @ to_string_lossy n @ ''.download''
        | None \<Rightarrow> ''.download.tmp'') save_path"

definition get_resume_path :: "path \<Rightarrow> path" where
  "get_resume_path save_path =
     set_file_name
       (case file_name save_path of
          Some n \<Rightarrow> ''.'' @ to_string_lossy n @ ''.resume''
        | None \<Rightarrow> ''.resume'') save_path"

definition save_resume_state :: "path \<Rightarrow> usize \<Rightarrow> (unit, ptpip_error) io" where
  "save_resume_state save_path offset =
     bind_io (io_try (fs_write (get_resume_path save_path) (bytes_of_string (dec offset)))) (\<lambda>_.
     ret ())"

text \<open>The three blocks of \<open>check_resume_state\<close>, last first.\<close>

definition start_over :: "path \<Rightarrow> (usize \<times> file_handle, ptpip_error) io" where
  "start_over temp_path =
     bind_io (path_exists temp_path) (\<lambda>there.
     bind_io (if there then io_try (remove_file temp_path) else ret ()) (\<lambda>_.
     bind_io (io_try (file_create temp_path)) (\<lambda>f.
     ret (0, f))))"

definition resume_from_record :: "path \<Rightarrow> path \<Rightarrow> path \<Rightarrow> usize \<Rightarrow> (usize \<times> file_handle, ptpip_error) io" where
  "resume_from_record save_path temp_path resume_path total_size =
     bind_io (io_try (read_to_string resume_path)) (\<lambda>resume_data.
     bind_io (lift_r (case parse_usize (trim resume_data) of
                        None \<Rightarrow> Err InvalidResumeData | Some n \<Rightarrow> Ok n)) (\<lambda>current_offset.
     bind_io (io_try (metadata_len temp_path)) (\<lambda>temp_len.
     if unat temp_len \<noteq> current_offset
     then
       bind_io (io_try (remove_file resume_path)) (\<lambda>_.
       bind_io (io_try (remove_file temp_path)) (\<lambda>_.
       bind_io (io_try (file_create temp_path)) (\<lambda>f.
       ret (0, f))))
     else if current_offset \<ge> total_size
     then
       bind_io (io_try (fs_rename temp_path save_path)) (\<lambda>_.
       bind_io (io_try (remove_file resume_path)) (\<lambda>_.
       bind_io (io_try (file_open save_path)) (\<lambda>f.
       ret (total_size, f))))
     else
       bind_io (io_try (file_append temp_path)) (\<lambda>f.
       ret (current_offset, f)))))"

definition check_resume_state :: "path \<Rightarrow> usize \<Rightarrow> (usize \<times> file_handle, ptpip_error) io" where
  "check_resume_state save_path total_size =
     (let temp_path = get_temp_path save_path; resume_path = get_resume_path save_path in
      bind_io (path_exists save_path) (\<lambda>there.
      bind_io (if there
               then bind_io (io_try (metadata_len save_path)) (\<lambda>len. ret (unat len = total_size))
               else ret False) (\<lambda>complete.
      if complete
      then bind_io (io_try (file_open save_path)) (\<lambda>f. ret (total_size, f))
      else
        bind_io (path_exists resume_path) (\<lambda>has_resume.
        bind_io (if has_resume then path_exists temp_path else ret False) (\<lambda>resumable.
        if resumable then resume_from_record save_path temp_path resume_path total_size
        else start_over temp_path)))))"

section \<open>Chunks\<close>

definition get_partial_object :: "byteorder \<Rightarrow> u32 \<Rightarrow> u64 \<Rightarrow> u32 \<Rightarrow> session_config \<Rightarrow> (bytes, ptpip_error) io" where
  "get_partial_object bo object_handle offset len config =
     bind_io generate_transaction_id (\<lambda>transaction_id.
     bind_io (lift_r (try_io (bo_write_u32 bo object_handle []))) (\<lambda>params.
     bind_io (lift_r (try_io (bo_write_u64 bo offset params))) (\<lambda>params.
     bind_io (lift_r (try_io (bo_write_u32 bo len params))) (\<lambda>params.
     bind_io (send_command bo (opcode GetPartialObject) transaction_id params config) (\<lambda>_.
     receive_data_block bo transaction_id config)))))"

function download_retry_loop :: "byteorder \<Rightarrow> u32 \<Rightarrow> u64 \<Rightarrow> u32 \<Rightarrow> session_config \<Rightarrow> usize \<Rightarrow> download_stats \<Rightarrow>
    (bytes \<times> download_stats, ptpip_error) io" where
  "download_retry_loop bo object_handle offset len config n stats w =
     (case get_partial_object bo object_handle offset len config w of
        (Inr data, w') \<Rightarrow> (Ok (data, stats), w')
      | (Inl e, w') \<Rightarrow>
          let n = n + 1; stats = stats\<lparr>retries := retries stats + 1\<rparr> in
          if n > max_retries config then (Err e, w')
          else download_retry_loop bo object_handle offset len config n stats
                 (sleep (duration_from_millis (retry_delay_ms config)) w'))"
  by pat_completeness auto
termination
  by (relation "measure (\<lambda>(bo, h, off, len, config, n, stats, w). max_retries config + 1 - n)") auto

declare download_retry_loop.simps [simp del]

definition download_with_retry :: "byteorder \<Rightarrow> u32 \<Rightarrow> u64 \<Rightarrow> u32 \<Rightarrow> session_config \<Rightarrow> download_stats \<Rightarrow>
    (bytes \<times> download_stats, ptpip_error) io" where
  "download_with_retry bo object_handle offset len config stats =
     download_retry_loop bo object_handle offset len config 0 stats"

text \<open>The caller's callback.\<close>

definition progress_callback :: "usize \<Rightarrow> usize \<Rightarrow> bool \<Rightarrow> download_stats \<Rightarrow> (unit, 'e) io" where
  "progress_callback current total_size finished stats w =
     (Ok (), w\<lparr>progress := progress w @ [(current, total_size, finished, stats)]\<rparr>)"

definition progress_checkpoints :: "chunk_config \<Rightarrow> u64 \<Rightarrow> usize list" where
  "progress_checkpoints config bytes_total =
     map (\<lambda>i. f32_as_usize (f32_mul (f32_div_by (f32_mul (f32_of_nat i) (progress_interval config)) 100)
                                    (f32_of_nat (unat bytes_total)))) [1..<21]"

definition next_chunk :: "chunk_config \<Rightarrow> usize \<Rightarrow> usize" where
  "next_chunk config left =
     min (if left < min_chunk_size config then left else chunk_size config) left"

section \<open>What the network operations leave alone\<close>

lemma get_partial_net [keeps]: "preserves net (get_partial_object bo h off len cfg)"
  unfolding get_partial_object_def by (auto intro!: keeps)

lemma download_retry_net: "download_retry_loop bo h off len cfg n stats w = (r, w') \<Longrightarrow> net w w'"
proof (induction bo h off len cfg n stats w rule: download_retry_loop.induct)
  case (1 bo h off len cfg n stats w)
  obtain r1 w1 where run: "get_partial_object bo h off len cfg w = (r1, w1)" by fastforce
  have rd: "net w w1" using preservesD [OF get_partial_net run] .
  show ?case
    using "1.prems" "1.IH" [OF run [symmetric] _ refl refl] run rd
      sleep_net [of w1 "duration_from_millis (retry_delay_ms cfg)"]
    by (auto simp: download_retry_loop.simps [of bo h off len cfg n stats w] Let_def
        split: sum.splits if_splits intro: net_trans)
qed

text \<open>Every chunk that arrives took input from the stream.\<close>

lemma receive_data_loop_consumes:
  "receive_data_loop bo tid cfg acc w = (Ok d, w') \<Longrightarrow> length (rx w') < length (rx w)"
proof (induction bo tid cfg acc w rule: receive_data_loop.induct)
  case (1 bo tid cfg acc w)
  obtain r1 w1 where run: "recv_packet_filtered bo (Some DataBlock) cfg w = (r1, w1)" by fastforce
  show ?case
  proof (cases r1)
    case (Inl e)
    with "1.prems" run show ?thesis by (simp add: receive_data_loop.simps [of bo tid cfg acc w])
  next
    case (Inr p)
    then have "length (rx w1) + 2 \<le> length (rx w)"
      using run recv_filtered_consumes by blast
    with "1.prems" "1.IH" [OF run [symmetric]] run Inr show ?thesis
      by (auto simp: receive_data_loop.simps [of bo tid cfg acc w] split: if_splits)
  qed
qed

lemma get_partial_consumes:
  assumes "get_partial_object bo h off len cfg w = (Ok d, w')"
  shows "length (rx w') < length (rx w)"
proof -
  obtain tid ps w1 w2 where "send_command bo (opcode GetPartialObject) tid ps cfg w1 = (Ok (), w2)"
    and "receive_data_block bo tid cfg w2 = (Ok d, w')" and "rx w1 = rx w"
    using assms by (auto simp: get_partial_object_def bind_io_eq_Ok lift_r_apply generate_transaction_id_def)
  then show ?thesis
    using preservesD [OF send_command_net, of bo "opcode GetPartialObject" tid ps cfg w1 "Ok ()" w2]
    by (auto simp: net_def receive_data_block_def dest!: receive_data_loop_consumes)
qed

lemma download_retry_consumes:
  "download_retry_loop bo h off len cfg n stats w = (Ok d, w') \<Longrightarrow> length (rx w') < length (rx w)"
proof (induction bo h off len cfg n stats w rule: download_retry_loop.induct)
  case (1 bo h off len cfg n stats w)
  obtain r1 w1 where run: "get_partial_object bo h off len cfg w = (r1, w1)" by fastforce
  show ?case
  proof (cases r1)
    case (Inr a)
    with run "1.prems" show ?thesis
      using get_partial_consumes by (auto simp: download_retry_loop.simps [of bo h off len cfg n stats w])
  next
    case (Inl e)
    let ?w2 = "sleep (duration_from_millis (retry_delay_ms cfg)) w1"
    have "length (rx ?w2) \<le> length (rx w)"
      using preservesD [OF get_partial_net run] by (simp add: net_def sleep_def)
    moreover have "length (rx w') < length (rx ?w2)"
      using "1.prems" "1.IH" [OF run [symmetric] Inl refl refl] run Inl
      by (auto simp: download_retry_loop.simps [of bo h off len cfg n stats w] Let_def split: if_splits)
    ultimately show ?thesis by simp
  qed
qed

section \<open>The download\<close>

text \<open>The rest of one turn of the loop, once a chunk of the right size has arrived.\<close>

definition store_chunk :: "path \<Rightarrow> usize \<Rightarrow> usize list \<Rightarrow> file_handle \<Rightarrow> bytes \<Rightarrow> usize \<Rightarrow> usize \<Rightarrow> download_stats \<Rightarrow>
    (usize \<times> usize \<times> download_stats, ptpip_error) io" where
  "store_chunk save_path total_size checkpoints f data current_offset reported stats =
     bind_io (io_try (file_write_all f data)) (\<lambda>_.
     let current_offset = current_offset + length data;
         stats = stats\<lparr>downloaded_bytes := word_of_nat current_offset, chunks := chunks stats + 1\<rparr> in
     bind_io (case find (\<lambda>p. p > reported \<and> current_offset \<ge> p) checkpoints of
                Some next_checkpoint \<Rightarrow>
                  bind_io (progress_callback current_offset total_size False stats) (\<lambda>_. ret next_checkpoint)
              | None \<Rightarrow> ret reported) (\<lambda>reported.
     bind_io (save_resume_state save_path current_offset) (\<lambda>_.
     ret (current_offset, reported, stats))))"

definition incomplete_chunk :: "usize \<Rightarrow> usize \<Rightarrow> ptpip_error" where
  "incomplete_chunk expected received =
     ProtocolError (''Incomplete chunk data: expected '' @ dec expected @
       '' bytes, received '' @ dec received @ '' bytes'')"

lemma fs_call_rx:
  "(\<And>w r w'. g w = (r, w') \<Longrightarrow> rx w' = rx w) \<Longrightarrow> fs_call g w = (r, w') \<Longrightarrow> rx w' = rx w"
  by (fastforce simp: fs_call_def split: list.splits tx_outcome.splits)

lemma file_write_rx: "file_write_all f d w = (r, w') \<Longrightarrow> rx w' = rx w"
  by (cases f) (auto simp: extend_file_def split: list.splits tx_outcome.splits if_splits)

lemma save_resume_rx: "save_resume_state p n w = (r, w') \<Longrightarrow> rx w' = rx w"
  by (auto simp: save_resume_state_def fs_write_def file_create_def bind_io_def io_try_def ret_apply
      split: prod.splits sum.splits dest!: file_write_rx fs_call_rx [rotated])

lemma store_chunk_rx:
  "store_chunk p sz cps f d off rep stats w = (r, w') \<Longrightarrow> rx w' = rx w"
  by (auto simp: store_chunk_def Let_def bind_io_def io_try_def ret_apply progress_callback_def
      split: prod.splits sum.splits option.splits dest!: file_write_rx save_resume_rx)

function download_loop :: "byteorder \<Rightarrow> u32 \<Rightarrow> path \<Rightarrow> session_config \<Rightarrow> chunk_config \<Rightarrow> usize \<Rightarrow> usize list \<Rightarrow>
    file_handle \<Rightarrow> usize \<Rightarrow> usize \<Rightarrow> download_stats \<Rightarrow> (download_stats, ptpip_error) io" where
  "download_loop bo object_handle save_path session_config download_config total_size checkpoints f
       current_offset reported stats w =
     (if current_offset < total_size
      then
        let size = next_chunk download_config (total_size - current_offset) in
        case download_with_retry bo object_handle (word_of_nat current_offset) (word_of_nat size)
               session_config stats w of
          (Inl e, w') \<Rightarrow> (Err e, w')
        | (Inr (data, stats), w') \<Rightarrow>
            if length data \<noteq> size
            then bind_io (save_resume_state save_path current_offset) (\<lambda>_.
                 lift_r (Err (incomplete_chunk size (length data)))) w'
            else
              (case store_chunk save_path total_size checkpoints f data current_offset reported stats w' of
                 (Inl e, w'') \<Rightarrow> (Err e, w'')
               | (Inr (current_offset, reported, stats), w'') \<Rightarrow>
                   download_loop bo object_handle save_path session_config download_config total_size
                     checkpoints f current_offset reported stats w'')
      else (Ok stats, w))"
  by pat_completeness auto
termination
  by (relation "measure (\<lambda>(bo, h, p, scfg, dcfg, sz, cps, f, off, rep, stats, w). length (rx w))")
    (auto simp: download_with_retry_def dest!: download_retry_consumes [OF sym] store_chunk_rx [OF sym])

declare download_loop.simps [simp del]

text \<open>\<open>let _ = m;\<close>\<close>

definition discard :: "('a, 'e) io \<Rightarrow> (unit, 'f) io" where
  "discard m w = (Ok (), snd (m w))"

definition download_object_with_resume :: "byteorder \<Rightarrow> u32 \<Rightarrow> path \<Rightarrow> session_config \<Rightarrow> chunk_config \<Rightarrow>
    download_stats \<Rightarrow> (download_stats, ptpip_error) io" where
  "download_object_with_resume bo object_handle save_path session_config download_config stats =
     bind_io (check_resume_state save_path (unat (total_bytes stats))) (\<lambda>(current_offset, f).
     let stats = stats\<lparr>downloaded_bytes := word_of_nat current_offset\<rparr>;
         checkpoints = progress_checkpoints download_config (total_bytes stats);
         total_size = unat (total_bytes stats) in
     bind_io (download_loop bo object_handle save_path session_config download_config total_size
                checkpoints f current_offset 0 stats) (\<lambda>stats.
     bind_io (io_try (file_flush f)) (\<lambda>_.
     bind_io (io_try (fs_rename (get_temp_path save_path) save_path)) (\<lambda>_.
     bind_io (discard (remove_file (get_resume_path save_path))) (\<lambda>_.
     bind_io (progress_callback total_size total_size True stats) (\<lambda>_.
     ret stats))))))"

definition client_download_photo :: "byteorder \<Rightarrow> camera_client \<Rightarrow> u32 \<Rightarrow> path \<Rightarrow> chunk_config \<Rightarrow>
    (download_stats, ptpip_error) io" where
  "client_download_photo bo c object_handle save_path download_config w =
     (let start_time = clock w in
      bind_io (client_get_object_info bo c object_handle) (\<lambda>info.
      bind_io (download_object_with_resume bo object_handle save_path (cl_config c) download_config
                 (default_download_stats\<lparr>total_bytes := object_size info\<rparr>)) (\<lambda>stats w.
      (Ok (stats\<lparr>duration_ms := word_of_nat ((clock w - start_time) div 1000000)\<rparr>), w))) w)"

end
