(* ===== verification/Download_Facts.thy ===== *)
theory Download_Facts
  imports Download Client_Facts
begin

text \<open>
  What the chunked download of \<open>src/commands.rs\<close> guarantees on a file system without failures
  (\<open>fs_script = []\<close>): which state it resumes from, that a successful download leaves a file of
  exactly the object's size and nothing else, that an interrupted one can be resumed without
  losing a byte, how often progress is reported, and what a second download of a complete file does.
\<close>

section \<open>The auxiliary paths\<close>

lemma utf8_next_widths:
  "utf8_next b bs = Good m \<Longrightarrow> m \<le> length (b # bs)"
  "utf8_next b bs = Bad m \<Longrightarrow> m \<le> 3"
  "utf8_next b bs = Cut \<Longrightarrow> length (b # bs) \<le> 3"
proof -
  have wd: "utf8_width b \<le> 4" by (simp add: utf8_width_def)
  have cut: "utf8_tail n k xs = Cut \<Longrightarrow> length xs < k" for n k xs
    by (induction n k xs rule: utf8_tail.induct) (auto split: if_splits)
  show "utf8_next b bs = Good m \<Longrightarrow> m \<le> length (b # bs)"
    using wd by (fastforce simp: utf8_next.simps Let_def split: if_splits list.splits dest: utf8_tail_len(1))
  show "utf8_next b bs = Bad m \<Longrightarrow> m \<le> 3"
    using wd by (fastforce simp: utf8_next.simps Let_def split: if_splits list.splits dest: utf8_tail_len(2))
  show "utf8_next b bs = Cut \<Longrightarrow> length (b # bs) \<le> 3"
    using wd by (fastforce simp: utf8_next.simps Let_def split: if_splits list.splits dest: cut)
qed

lemma utf8_lossy_length: "length bs \<le> length (utf8_lossy bs)"
proof (induction bs rule: utf8_lossy.induct)
  case 1
  then show ?case by simp
next
  case (2 b bs)
  show ?case
  proof (cases "utf8_next b bs")
    case (Good w)
    then show ?thesis using 2(1) [OF Good] utf8_next_widths(1) [OF Good] by simp
  next
    case (Bad n)
    then show ?thesis using 2(2) [OF Bad] utf8_next_widths(2) [OF Bad] by simp
  next
    case Cut
    then show ?thesis using utf8_next_widths(3) [OF Cut] by simp
  qed
qed

lemma to_string_lossy_length: "length n \<le> length (to_string_lossy n)"
  using utf8_lossy_length [of "bytes_of_string n"]
  by (simp add: to_string_lossy_def string_of_bytes_def bytes_of_string_def)

lemma set_file_name_inject [simp]: "set_file_name a p = set_file_name b p \<longleftrightarrow> a = b"
  by (simp add: set_file_name_def)

lemma set_file_name_other:
  "(\<And>m. file_name p = Some m \<Longrightarrow> n \<noteq> m) \<Longrightarrow> set_file_name n p \<noteq> p"
  by (auto simp: set_file_name_def file_name_def split: if_splits component.splits
      dest: arg_cong [of _ _ last] arg_cong [of _ _ length])

lemma paths_ne [simp]:
  "get_temp_path p \<noteq> p" "get_resume_path p \<noteq> p" "get_temp_path p \<noteq> get_resume_path p"
  "p \<noteq> get_temp_path p" "p \<noteq> get_resume_path p" "get_resume_path p \<noteq> get_temp_path p"
proof -
  have len: "''.'' @ to_string_lossy n @ s \<noteq> n" for n s
    using to_string_lossy_length [of n] by (auto dest: arg_cong [of _ _ length])
  show 1: "get_temp_path p \<noteq> p"
    unfolding get_temp_path_def by (rule set_file_name_other) (use len in simp)
  show 2: "get_resume_path p \<noteq> p"
    unfolding get_resume_path_def by (rule set_file_name_other) (use len in simp)
  show 3: "get_temp_path p \<noteq> get_resume_path p"
    unfolding get_temp_path_def get_resume_path_def
    by (auto split: option.splits dest: arg_cong [of _ _ last])
  show "p \<noteq> get_temp_path p" "p \<noteq> get_resume_path p" "get_resume_path p \<noteq> get_temp_path p"
    using 1 2 3 by auto
qed

text \<open>
  The temporary file, the resume record and the target of a download are three different paths,
  whatever the target is, so none of them overwrites another; both helpers lie in the target's
  directory.
\<close>

theorem download_paths_distinct:
  "distinct [p, get_temp_path p, get_resume_path p] \<and>
   butlast (get_temp_path p) = (if file_name p = None then p else butlast p) \<and>
   butlast (get_resume_path p) = (if file_name p = None then p else butlast p)"
proof -
  have "butlast (set_file_name n p) = (if file_name p = None then p else butlast p)" for n
    by (simp add: set_file_name_def)
  then show ?thesis
    by (intro conjI) (simp, simp_all add: get_temp_path_def get_resume_path_def)
qed

section \<open>Where a download starts\<close>

text \<open>No file of the model is larger than a file length can say.\<close>

definition files_ok :: "world \<Rightarrow> bool" where
  "files_ok w \<longleftrightarrow> (\<forall>p. case files w p of None \<Rightarrow> True | Some c \<Rightarrow> length c < 2 ^ 64)"

lemma file_length: "files_ok w \<Longrightarrow> files w p = Some c \<Longrightarrow> unat (word_of_nat (length c) :: u64) = length c"
  by (intro unat_word_of_nat) (auto simp: files_ok_def split: option.splits)

lemmas fs_calls = path_exists_def fs_read_def metadata_len_def read_to_string_def fs_rename_def
  remove_file_def file_create_def file_open_def file_append_def fs_call_def

text \<open>
  Where a download starts, in every case: a target of the right size is taken as complete; a
  readable record that agrees with the length of the temporary file resumes there, or, when that
  length reaches the object's size, moves the file into place; a record that disagrees starts
  over; a record that is not a number is an error; and without a record the download starts over.
\<close>

theorem check_resume_table:
  assumes quiet: "fs_script w = []" and sane: "files_ok w"
  shows "check_resume_state p n w =
    (if map_option length (files w p) = Some n then (Ok (n, ReadOnly p), w)
     else
      let T = get_temp_path p; R = get_resume_path p in
      case (files w R, files w T) of
        (Some r, Some t) \<Rightarrow>
          (case from_utf8 r of
             Inl _ \<Rightarrow> (Err (Io invalid_utf8_error), w)
           | Inr s \<Rightarrow>
              (case parse_usize (trim s) of
                 None \<Rightarrow> (Err InvalidResumeData, w)
               | Some k \<Rightarrow>
                   if length t \<noteq> k
                   then (Ok (0, AtEnd T), w\<lparr>files := (files w)(R := None, T \<mapsto> [])\<rparr>)
                   else if k \<ge> n
                   then (Ok (n, ReadOnly p), w\<lparr>files := (files w)(T := None, p \<mapsto> t, R := None)\<rparr>)
                   else (Ok (k, AtEnd T), w)))
      | _ \<Rightarrow> (Ok (0, AtEnd T), w\<lparr>files := (files w)(T \<mapsto> [])\<rparr>))"
proof (cases "map_option length (files w p) = Some n")
  case True
  then show ?thesis
    using file_length [OF sane, of p]
    by (auto simp: check_resume_state_def Let_def bind_io_def io_try_def fs_calls quiet ret_apply)
next
  case False
  then have start: "check_resume_state p n w =
     (if files w (get_resume_path p) \<noteq> None \<and> files w (get_temp_path p) \<noteq> None
      then resume_from_record p (get_temp_path p) (get_resume_path p) n w
      else start_over (get_temp_path p) w)"
    using file_length [OF sane, of p]
    by (auto simp: check_resume_state_def Let_def bind_io_def io_try_def fs_calls quiet ret_apply
        split: option.splits)
  show ?thesis
  proof (cases "files w (get_resume_path p)")
    case None
    then show ?thesis
      unfolding start using False
      by (auto simp: Let_def start_over_def bind_io_def io_try_def fs_calls quiet ret_apply)
  next
    case (Some r)
    show ?thesis
    proof (cases "files w (get_temp_path p)")
      case None
      with Some False show ?thesis
        unfolding start
        by (auto simp: Let_def start_over_def bind_io_def io_try_def fs_calls quiet ret_apply)
    next
      case (Some t)
      note len = file_length [OF sane Some]
      show ?thesis
        unfolding start using False len Some \<open>files w (get_resume_path p) = Some r\<close>
        by (auto simp: Let_def resume_from_record_def bind_io_def io_try_def fs_calls quiet ret_apply lift_r_apply
            fun_upd_twist split: sum.splits option.splits)
    qed
  qed
qed

lemma dec_short:
  assumes "n < 2 ^ 64"
  shows "length (bytes_of_string (dec n)) < 2 ^ 64"
proof -
  have "length (digits_rev 10 k) \<le> max 1 k" for k
  proof (induction k rule: less_induct)
    case (less k)
    show ?case
    proof (cases "k < 10")
      case True
      then show ?thesis by (simp add: digits_rev.simps [of 10 k])
    next
      case False
      then have "length (digits_rev 10 k) = Suc (length (digits_rev 10 (k div 10)))"
        by (simp add: digits_rev.simps [of 10 k])
      also have "\<dots> \<le> Suc (max 1 (k div 10))" using less [of "k div 10"] False by simp
      also have "\<dots> \<le> max 1 k" using False by auto
      finally show ?thesis .
    qed
  qed
  from this [of n] assms show ?thesis by (auto simp: dec_def bytes_of_string_def max_def split: if_splits)
qed

definition photo :: path where
  "photo = [RootDir, Normal ''photos'', Normal ''a.jpg'']"

theorem check_resume_table_witness:
  "fst (check_resume_state photo 5
     (quiet\<lparr>files := [get_resume_path photo \<mapsto> bytes_of_string (dec 2), get_temp_path photo \<mapsto> [1, 2]]\<rparr>)) =
   Ok (2, AtEnd (get_temp_path photo))"
proof -
  have "files_ok (quiet\<lparr>files := [get_resume_path photo \<mapsto> bytes_of_string (dec 2), get_temp_path photo \<mapsto> [1, 2]]\<rparr>)"
    using dec_short [of 2] by (auto simp: files_ok_def)
  then show ?thesis
    by (subst check_resume_table) (simp_all add: quiet_def Let_def from_utf8_dec trim_dec parse_usize_dec)
qed

section \<open>The record\<close>

lemma save_resume_quiet:
  "fs_script w = [] \<Longrightarrow> save_resume_state p k w =
     (Ok (), w\<lparr>files := (files w)(get_resume_path p \<mapsto> bytes_of_string (dec k))\<rparr>)"
  using digits_rev_ne [of 10 k]
  by (simp add: save_resume_state_def fs_write_def file_create_def fs_call_def bind_io_def io_try_def
      ret_apply extend_file_def dec_def bytes_of_string_def)

text \<open>
  What the download records, the next download reads back: after \<open>save_resume_state\<close> with the
  length of the temporary file, \<open>check_resume_state\<close> resumes at exactly that offset, appends to the
  temporary file, and has changed no file.
\<close>

theorem resume_record_roundtrip:
  assumes "fs_script w = []" and "files_ok w"
    and "files w (get_temp_path p) = Some t" and "length t < n"
    and "map_option length (files w p) \<noteq> Some n"
  shows "\<exists>w'. save_resume_state p (length t) w = (Ok (), w') \<and>
     check_resume_state p n w' = (Ok (length t, AtEnd (get_temp_path p)), w') \<and>
     files w' = (files w)(get_resume_path p \<mapsto> bytes_of_string (dec (length t)))"
proof -
  let ?w = "w\<lparr>files := (files w)(get_resume_path p \<mapsto> bytes_of_string (dec (length t)))\<rparr>"
  have len: "length t < 2 ^ 64"
    using assms(2,3) by (auto simp: files_ok_def split: option.splits)
  then have "parse_usize (dec (length t)) = Some (length t)"
    by (rule parse_usize_dec)
  moreover have "files_ok ?w"
    using assms(2) dec_short [OF len] by (auto simp: files_ok_def)
  ultimately have "check_resume_state p n ?w = (Ok (length t, AtEnd (get_temp_path p)), ?w)"
    using assms by (subst check_resume_table) (auto simp: Let_def from_utf8_dec trim_dec)
  then show ?thesis
    using save_resume_quiet [OF assms(1)] by auto
qed

theorem resume_record_roundtrip_witness:
  "\<exists>w'. check_resume_state photo 5 w' = (Ok (2, AtEnd (get_temp_path photo)), w') \<and>
     save_resume_state photo 2 (quiet\<lparr>files := [get_temp_path photo \<mapsto> [1, 2]]\<rparr>) = (Ok (), w')"
proof -
  have two: "length [1, 2 :: u8] = 2" by simp
  have "files_ok (quiet\<lparr>files := [get_temp_path photo \<mapsto> [1, 2]]\<rparr>)"
    by (simp add: files_ok_def)
  from resume_record_roundtrip [OF _ this, of photo "[1, 2]" 5] show ?thesis
    unfolding two by (auto simp: quiet_def)
qed

section \<open>The loop\<close>

definition stored :: "bytes \<Rightarrow> usize \<Rightarrow> download_stats \<Rightarrow> download_stats" where
  "stored d off stats = stats\<lparr>downloaded_bytes := word_of_nat (off + length d), chunks := chunks stats + 1\<rparr>"

lemma store_chunk_quiet:
  assumes "fs_script w = []" and "files w (get_temp_path p) = Some c"
  shows "store_chunk p n cps (AtEnd (get_temp_path p)) d off rep stats w =
     (let reached = find (\<lambda>q. q > rep \<and> off + length d \<ge> q) cps in
      (Ok (off + length d, case reached of None \<Rightarrow> rep | Some q \<Rightarrow> q, stored d off stats),
       w\<lparr>files := (files w)(get_temp_path p \<mapsto> c @ d,
            get_resume_path p \<mapsto> bytes_of_string (dec (off + length d))),
         progress := progress w @
           (case reached of None \<Rightarrow> [] | Some q \<Rightarrow> [(off + length d, n, False, stored d off stats)])\<rparr>))"
proof -
  let ?T = "get_temp_path p"
  have idem: "d = [] \<Longrightarrow> (files w)(?T \<mapsto> c) = files w"
    using assms(2) by (simp add: fun_upd_idem)
  have wr: "file_write_all (AtEnd ?T) d w = (Ok (), w\<lparr>files := (files w)(?T \<mapsto> c @ d)\<rparr>)"
    using assms idem by (simp add: extend_file_def)
  show ?thesis
    using assms(1)
    by (auto simp: store_chunk_def Let_def bind_io_def io_try_def wr ret_apply progress_callback_def
        save_resume_quiet stored_def simp del: file_write_all.simps split: option.splits)
qed

lemma download_retry_stats:
  "download_retry_loop bo h off len cfg n stats w = (Ok (d, stats'), w') \<Longrightarrow>
     \<exists>k. stats' = stats\<lparr>retries := k\<rparr>"
proof (induction bo h off len cfg n stats w rule: download_retry_loop.induct)
  case (1 bo h off len cfg n stats w)
  obtain r1 w1 where run: "get_partial_object bo h off len cfg w = (r1, w1)" by fastforce
  show ?case
  proof (cases r1)
    case (Inr a)
    with run "1.prems" show ?thesis
      by (intro exI [of _ "retries stats"]) (simp add: download_retry_loop.simps [of bo h off len cfg n stats w])
  next
    case (Inl e)
    with run "1.prems" "1.IH" [OF run [symmetric] Inl refl refl] show ?thesis
      by (auto simp: download_retry_loop.simps [of bo h off len cfg n stats w] Let_def split: if_splits)
  qed
qed

text \<open>
  The invariant of the loop: the temporary file only grows, by what was stored; the record, once
  written, is its length; no other file changes. The loop succeeds only at the full size.
\<close>

definition loop_effect :: "path \<Rightarrow> bytes \<Rightarrow> usize \<Rightarrow> world \<Rightarrow> ptpip_error + download_stats \<Rightarrow> world \<Rightarrow> bool" where
  "loop_effect p c n w r w' \<longleftrightarrow>
     fs_script w' = [] \<and>
     (\<forall>q. q \<noteq> get_temp_path p \<longrightarrow> q \<noteq> get_resume_path p \<longrightarrow> files w' q = files w q) \<and>
     (\<exists>d. files w' (get_temp_path p) = Some (c @ d) \<and>
        (if is_ok r then length (c @ d) = n else length (c @ d) < n) \<and>
        (files w' (get_resume_path p) = Some (bytes_of_string (dec (length (c @ d)))) \<or>
         d = [] \<and> files w' (get_resume_path p) = files w (get_resume_path p)))"

lemma loop_effect_more:
  assumes "loop_effect p (c @ d) n w1 r w'"
    and "\<forall>q. q \<noteq> get_temp_path p \<longrightarrow> q \<noteq> get_resume_path p \<longrightarrow> files w1 q = files w q"
    and "files w1 (get_resume_path p) = Some (bytes_of_string (dec (length (c @ d))))"
  shows "loop_effect p c n w r w'"
proof -
  obtain d' where "files w' (get_temp_path p) = Some ((c @ d) @ d')"
    "if is_ok r then length ((c @ d) @ d') = n else length ((c @ d) @ d') < n"
    "files w' (get_resume_path p) = Some (bytes_of_string (dec (length ((c @ d) @ d'))))"
    using assms(1,3) unfolding loop_effect_def by auto
  then show ?thesis
    using assms(1,2) unfolding loop_effect_def
    by (intro conjI exI [of _ "d @ d'"]) auto
qed

text \<open>
  A contract of the loop on a reliable file system: \<open>Q c rep w r w'\<close> relates the world \<open>w\<close> in which \<open>c\<close> is
  stored, with \<open>rep\<close> the last checkpoint reported, to the result and the final world. What ends the loop
  must establish it, and a stored chunk \<open>d\<close> must extend it.
\<close>

definition reports_new :: "usize \<Rightarrow> usize list \<Rightarrow> usize \<Rightarrow> usize \<Rightarrow> download_stats \<Rightarrow>
    (usize \<times> usize \<times> bool \<times> download_stats) list" where
  "reports_new n cps rep off stats =
     (if find (\<lambda>q. q > rep \<and> off \<ge> q) cps = None then [] else [(off, n, False, stats)])"

definition reported_new :: "usize list \<Rightarrow> usize \<Rightarrow> usize \<Rightarrow> usize" where
  "reported_new cps rep off = (case find (\<lambda>q. q > rep \<and> off \<ge> q) cps of None \<Rightarrow> rep | Some q \<Rightarrow> q)"

definition storing :: "path \<Rightarrow> bytes \<Rightarrow> world \<Rightarrow> bool" where
  "storing p c w \<longleftrightarrow> fs_script w = [] \<and> files w (get_temp_path p) = Some c"

locale loop_contract =
  fixes p :: path and n :: usize and cps :: "usize list"
    and Q :: "bytes \<Rightarrow> usize \<Rightarrow> world \<Rightarrow> ptpip_error + download_stats \<Rightarrow> world \<Rightarrow> bool"
  assumes finished: "storing p c w \<Longrightarrow> length c = n \<Longrightarrow> Q c rep w (Ok stats) w"
    and failed: "storing p c w' \<Longrightarrow> length c < n \<Longrightarrow> progress w' = progress w \<Longrightarrow>
      files w' = files w \<or> files w' = (files w)(get_resume_path p \<mapsto> bytes_of_string (dec (length c))) \<Longrightarrow>
      Q c rep w (Err e) w'"
    and more: "storing p (c @ d) w2 \<Longrightarrow> length (c @ d) \<le> n \<Longrightarrow>
      files w2 = (files w)(get_temp_path p \<mapsto> c @ d, get_resume_path p \<mapsto> bytes_of_string (dec (length (c @ d)))) \<Longrightarrow>
      progress w2 = progress w @ reports_new n cps rep (length (c @ d)) stats \<Longrightarrow>
      Q (c @ d) (reported_new cps rep (length (c @ d))) w2 r w' \<Longrightarrow> Q c rep w r w'"
begin

lemma loop_keeps:
  "download_loop bo h p scfg dcfg n cps f off rep stats w = (r, w') \<Longrightarrow> f = AtEnd (get_temp_path p) \<Longrightarrow>
     storing p c w \<Longrightarrow> length c = off \<Longrightarrow> off \<le> n \<Longrightarrow> Q c rep w r w'"
proof (induction "length (rx w)" arbitrary: c off rep stats w rule: less_induct)
  case less
  let ?size = "next_chunk dcfg (n - off)"
  note unfold = download_loop.simps [of bo h p scfg dcfg n cps f off rep stats w]
  show ?case
  proof (cases "off < n")
    case False
    with less.prems(1) have "r = Ok stats \<and> w' = w" by (simp add: unfold)
    with False less.prems show ?thesis by (auto intro: finished)
  next
    case True
    obtain r1 w1 where run: "download_with_retry bo h (word_of_nat off) (word_of_nat ?size) scfg stats w = (r1, w1)"
      by fastforce
    have w1: "files w1 = files w" "fs_script w1 = []" "progress w1 = progress w"
      using run download_retry_net less.prems(3) unfolding download_with_retry_def net_def storing_def by metis+
    have st1: "storing p c w1" using w1 less.prems(3) by (simp add: storing_def)
    show ?thesis
    proof (cases r1)
      case (Inl e)
      with less.prems(1) run True have "r = Err e \<and> w' = w1" by (simp add: unfold Let_def)
      with w1 st1 True less.prems(4) show ?thesis by (auto intro: failed)
    next
      case (Inr a)
      obtain d stats1 where a: "a = (d, stats1)" by fastforce
      show ?thesis
      proof (cases "length d = ?size")
        case False
        have "r = Err (incomplete_chunk ?size (length d)) \<and>
            w' = w1\<lparr>files := (files w1)(get_resume_path p \<mapsto> bytes_of_string (dec off))\<rparr>"
          using less.prems(1) run True Inr a False save_resume_quiet [OF w1(2), of p off]
          by (simp add: unfold Let_def bind_io_def lift_r_apply)
        with w1 st1 True less.prems(4) show ?thesis
          by (auto simp: storing_def paths_ne intro!: failed)
      next
        case len: True
        obtain w2 where st: "store_chunk p n cps f d off rep stats1 w1 =
            (Ok (off + length d, reported_new cps rep (off + length d), stored d off stats1), w2)"
          and f2: "files w2 = (files w)(get_temp_path p \<mapsto> c @ d, get_resume_path p \<mapsto> bytes_of_string (dec (off + length d)))"
          and w2: "fs_script w2 = []" "rx w2 = rx w1"
            "progress w2 = progress w @ reports_new n cps rep (off + length d) (stored d off stats1)"
          using store_chunk_quiet [OF w1(2), of p c n cps d off rep stats1] w1 st1 less.prems(2)
          by (auto simp: Let_def storing_def reported_new_def reports_new_def split: option.splits)
        have "length (rx w2) < length (rx w)"
          using run Inr w2(2) download_retry_consumes unfolding download_with_retry_def by metis
        moreover have "download_loop bo h p scfg dcfg n cps f (off + length d) (reported_new cps rep (off + length d))
            (stored d off stats1) w2 = (r, w')"
          using less.prems(1) True run Inr a len st by (simp add: unfold Let_def)
        moreover have st2: "storing p (c @ d) w2" using f2 w2(1) by (simp add: storing_def paths_ne)
        moreover have le: "off + length d \<le> n"
          using True len by (simp add: next_chunk_def)
        ultimately have "Q (c @ d) (reported_new cps rep (off + length d)) w2 r w'"
          using less.prems(2,4) by (intro less.hyps) simp_all
        then show ?thesis
          using less.prems(4) st2 le f2 w2(3) by (intro more [of c d w2 w rep "stored d off stats1"]) simp_all
      qed
    qed
  qed
qed

end

interpretation effect: loop_contract p n cps "\<lambda>c rep w r w'. files w (get_temp_path p) = Some c \<longrightarrow> loop_effect p c n w r w'"
  for p n cps
proof
  show "files w (get_temp_path p) = Some c \<longrightarrow> loop_effect p c n w (Ok stats) w"
    if "storing p c w" "length c = n" for c w stats
    using that by (auto simp: storing_def loop_effect_def)
  show "files w (get_temp_path p) = Some c \<longrightarrow> loop_effect p c n w (Err e) w'"
    if "storing p c w'" "length c < n"
      "files w' = files w \<or> files w' = (files w)(get_resume_path p \<mapsto> bytes_of_string (dec (length c)))" for c w w' e
    using that by (auto simp: storing_def loop_effect_def)
  show "files w (get_temp_path p) = Some c \<longrightarrow> loop_effect p c n w r w'"
    if "storing p (c @ d) w2"
      "files w2 = (files w)(get_temp_path p \<mapsto> c @ d, get_resume_path p \<mapsto> bytes_of_string (dec (length (c @ d))))"
      "files w2 (get_temp_path p) = Some (c @ d) \<longrightarrow> loop_effect p (c @ d) n w2 r w'" for c d w w2 r w'
    using that by (auto simp: storing_def intro!: loop_effect_more [of p c d n w2])
qed

lemma download_loop_effect:
  "download_loop bo h p scfg dcfg n cps f off rep stats w = (r, w') \<Longrightarrow> f = AtEnd (get_temp_path p) \<Longrightarrow>
     fs_script w = [] \<Longrightarrow> files w (get_temp_path p) = Some c \<Longrightarrow> length c = off \<Longrightarrow> off \<le> n \<Longrightarrow>
     loop_effect p c n w r w'"
  using effect.loop_keeps [of bo h p scfg dcfg n cps f off rep stats w r w' c] by (simp add: storing_def)



section \<open>The whole download\<close>

text \<open>How a download starts, in the form the properties below use.\<close>

lemma check_resume_Ok:
  assumes run: "check_resume_state p n w = (Ok (off, f), w1)"
    and quiet: "fs_script w = []" and sane: "files_ok w"
    and target: "map_option length (files w p) \<noteq> Some n"
  shows "fs_script w1 = [] \<and>
     (\<forall>q. q \<notin> {p, get_temp_path p, get_resume_path p} \<longrightarrow> files w1 q = files w q) \<and>
     (f = AtEnd (get_temp_path p) \<and> off \<le> n \<and> files w1 p = files w p \<and>
        (\<exists>c. files w1 (get_temp_path p) = Some c \<and> length c = off \<and>
             (c = [] \<or> files w (get_temp_path p) = Some c)) \<or>
      f = ReadOnly p \<and> off = n \<and> files w1 (get_temp_path p) = None)"
  using run target quiet
  by (auto simp: check_resume_table [OF quiet sane] Let_def split: option.splits sum.splits if_splits)

definition finish_download :: "path \<Rightarrow> usize \<Rightarrow> download_stats \<Rightarrow> (unit, ptpip_error) io" where
  "finish_download p n stats =
     bind_io (io_try (fs_rename (get_temp_path p) p)) (\<lambda>_.
     bind_io (discard (remove_file (get_resume_path p))) (\<lambda>_.
     progress_callback n n True stats))"

lemma bind_ret_fun: "bind_io (ret a) f = f a"
  by (rule ext) simp

lemma download_object_eq:
  "download_object_with_resume bo h p scfg dcfg stats =
     bind_io (check_resume_state p (unat (total_bytes stats))) (\<lambda>(off, f).
     bind_io (download_loop bo h p scfg dcfg (unat (total_bytes stats))
                (progress_checkpoints dcfg (total_bytes stats)) f off 0
                (stats\<lparr>downloaded_bytes := word_of_nat off\<rparr>)) (\<lambda>stats'.
     bind_io (finish_download p (unat (total_bytes stats)) stats') (\<lambda>_. ret stats')))"
proof -
  have "io_try (file_flush f) = ret ()" for f
    by (rule ext) (simp add: io_try_def file_flush_def ret_apply)
  then show ?thesis
    by (simp add: download_object_with_resume_def Let_def finish_download_def bind_ret_fun)
qed

lemma download_object_Ok:
  assumes "download_object_with_resume bo h p scfg dcfg stats w = (Ok stats', w')"
  shows "\<exists>off f w1 w2. check_resume_state p (unat (total_bytes stats)) w = (Ok (off, f), w1) \<and>
     download_loop bo h p scfg dcfg (unat (total_bytes stats)) (progress_checkpoints dcfg (total_bytes stats)) f off 0
        (stats\<lparr>downloaded_bytes := word_of_nat off\<rparr>) w1 = (Ok stats', w2) \<and>
     finish_download p (unat (total_bytes stats)) stats' w2 = (Ok (), w')"
  using assms unfolding download_object_eq by (force simp: bind_io_eq_Ok ret_apply)


text \<open>
  C28. Downloading what is already there goes wrong: when the target has the object's size, the code
  still renames the temporary file over it. Without a temporary file the download fails although
  the photo is complete; with a left-over one it reports success and the complete target is
  replaced by the left-over, of whatever length.
\<close>

theorem repeated_download_harm:
  assumes "fs_script w = []" and "files_ok w" and "files w p = Some c"
    and "length c = unat (total_bytes stats)"
  shows "\<exists>r w'. download_object_with_resume bo h p scfg dcfg stats w = (r, w') \<and>
     (case files w (get_temp_path p) of
        None \<Rightarrow> r = Err (Io not_found_error) \<and> files w' = files w
      | Some t \<Rightarrow> is_ok r \<and> files w' p = Some t)"
proof -
  let ?n = "unat (total_bytes stats)"
  have "check_resume_state p ?n w = (Ok (?n, ReadOnly p), w)"
    using assms by (simp add: check_resume_table)
  then show ?thesis
    using assms(1)
    by (auto simp: download_object_eq bind_io_def download_loop.simps [of _ _ _ _ _ ?n _ _ ?n]
        finish_download_def io_try_def ret_apply fs_rename_def
        fs_call_def discard_def remove_file_def progress_callback_def split: option.splits)
qed

theorem repeated_download_harm_witness:
  "\<exists>w'. download_object_with_resume utils_byteorder 1 photo default_session_config default_chunk_config
       (default_download_stats\<lparr>total_bytes := 3\<rparr>) (quiet\<lparr>files := [photo \<mapsto> [1, 2, 3]]\<rparr>)
     = (Err (Io not_found_error), w') \<and> files w' = [photo \<mapsto> [1, 2, 3]]"
  using repeated_download_harm [of "quiet\<lparr>files := [photo \<mapsto> [1, 2, 3]]\<rparr>" photo "[1, 2, 3]"
      "default_download_stats\<lparr>total_bytes := 3\<rparr>" utils_byteorder 1 default_session_config default_chunk_config]
  by (auto simp: quiet_def files_ok_def)

section \<open>A camera that sends the object\<close>

text \<open>
  The camera answers the \<open>k\<close>-th request with the chunk asked for, cut into any non-empty data blocks,
  and the empty block that ends it. \<open>fits\<close>: the chunks are those the loop asks for.
\<close>

abbreviation data_packet :: "u32 \<Rightarrow> bytes \<Rightarrow> packet" where
  "data_packet tid d \<equiv> \<lparr>pkt_type = DataBlock, pkt_tid = tid, payload = d\<rparr>"

fun object_packets :: "(nat \<Rightarrow> u32) \<Rightarrow> nat \<Rightarrow> bytes list list \<Rightarrow> packet list" where
  "object_packets g k [] = []"
| "object_packets g k (blocks # rest) =
     map (data_packet (g k)) blocks @ data_packet (g k) [] # object_packets g (Suc k) rest"

fun fits :: "chunk_config \<Rightarrow> nat \<Rightarrow> nat \<Rightarrow> bytes list list \<Rightarrow> bool" where
  "fits cfg n off [] = (off = n)"
| "fits cfg n off (blocks # rest) =
     (off < n \<and> length (concat blocks) = next_chunk cfg (n - off) \<and>
      list_all (\<lambda>b. b \<noteq> [] \<and> length b < 2 ^ 32) blocks \<and>
      fits cfg n (off + length (concat blocks)) rest)"

fun chunk_requests :: "(nat \<Rightarrow> u32) \<Rightarrow> nat \<Rightarrow> u32 \<Rightarrow> nat \<Rightarrow> bytes list list \<Rightarrow> bytes" where
  "chunk_requests g k h off [] = []"
| "chunk_requests g k h off (blocks # rest) =
     wire_out (command_packet (opcode GetPartialObject) (g k)
       (write_u32_be h @ write_u64_be (word_of_nat off) @ write_u32_be (word_of_nat (length (concat blocks))))) @
     chunk_requests g (Suc k) h (off + length (concat blocks)) rest"

lemma object_packets_receivable: "fits cfg n off ds \<Longrightarrow> \<forall>p \<in> set (object_packets g k ds). receivable p"
  by (induction cfg n off ds arbitrary: k rule: fits.induct) (auto simp: receivable.simps list_all_iff)

lemma fits_le: "fits cfg n off ds \<Longrightarrow> off \<le> n"
  by (induction cfg n off ds rule: fits.induct) auto

lemma get_partial_served:
  assumes bo: "byteorder_spec bo" and "tx_script w = []" and tid: "tid = next_tid w"
    and "list_all (\<lambda>b. b \<noteq> [] \<and> length b < 2 ^ 32) blocks" and "\<forall>p \<in> set ps. receivable p"
    and "rx w = frames (map (data_packet tid) blocks @ data_packet tid [] # ps) @ evs"
  shows "get_partial_object bo h off len cfg w =
     (Ok (concat blocks), w\<lparr>rng_pos := Suc (rng_pos w),
        tx := tx w @ wire_out (command_packet (opcode GetPartialObject) tid
          (write_u32_be h @ write_u64_be off @ write_u32_be len)), rx := frames ps @ evs\<rparr>)"
proof -
  let ?ps = "write_u32_be h @ write_u64_be off @ write_u32_be len"
  let ?w1 = "w\<lparr>rng_pos := Suc (rng_pos w)\<rparr>"
  let ?w2 = "?w1\<lparr>tx := tx w @ wire_out (command_packet (opcode GetPartialObject) tid ?ps)\<rparr>"
  have sent: "send_command bo (opcode GetPartialObject) tid ?ps cfg ?w1 = (Ok (), ?w2)"
    using assms(2) by (simp add: send_command_clean [OF bo])
  have "receive_data_loop bo tid cfg [] ?w2 =
      (Ok ([] @ concat (map payload (filter (data_of tid) (map (data_packet tid) blocks)))),
       ?w2\<lparr>rx := frames ps @ evs\<rparr>)"
    using assms(4-6) by (intro receive_data_loop_frames [OF bo])
      (auto simp: data_of_def receivable.simps list_all_iff)
  moreover have "filter (data_of tid) (map (data_packet tid) blocks) = map (data_packet tid) blocks"
    by (simp add: data_of_def filter_id_conv)
  ultimately have "receive_data_block bo tid cfg ?w2 = (Ok (concat blocks), ?w2\<lparr>rx := frames ps @ evs\<rparr>)"
    by (simp add: receive_data_block_def comp_def)
  with sent show ?thesis
    by (simp add: get_partial_object_def bo_simps [OF bo] bind_io_Ok tid)
qed

text \<open>One turn of the loop in which the camera serves the request.\<close>

lemma download_loop_chunk:
  assumes bo: "byteorder_spec bo" and off: "off < n" and len: "length (concat blocks) = next_chunk dcfg (n - off)"
    and bl: "list_all (\<lambda>b. b \<noteq> [] \<and> length b < 2 ^ 32) blocks"
    and w: "tx_script w = []" "fs_script w = []" "files w (get_temp_path p) = Some c" "length c = off"
    and ps: "\<forall>q \<in> set ps. receivable q"
    and rx: "rx w = frames (map (data_packet (next_tid w)) blocks @ data_packet (next_tid w) [] # ps) @ evs"
  shows "\<exists>rep2 w2. download_loop bo h p scfg dcfg n cps (AtEnd (get_temp_path p)) off rep stats w =
       download_loop bo h p scfg dcfg n cps (AtEnd (get_temp_path p)) (off + length (concat blocks)) rep2
         (stored (concat blocks) off stats) w2 \<and>
     files w2 = (files w)(get_temp_path p \<mapsto> c @ concat blocks,
       get_resume_path p \<mapsto> bytes_of_string (dec (off + length (concat blocks)))) \<and>
     fs_script w2 = [] \<and> tx_script w2 = [] \<and> rng w2 = rng w \<and> rng_pos w2 = Suc (rng_pos w) \<and>
     rx w2 = frames ps @ evs \<and> clock w2 = clock w \<and>
     tx w2 = tx w @ wire_out (command_packet (opcode GetPartialObject) (next_tid w)
       (write_u32_be h @ write_u64_be (word_of_nat off) @ write_u32_be (word_of_nat (length (concat blocks)))))"
proof -
  let ?T = "get_temp_path p" and ?d = "concat blocks" and ?size = "next_chunk dcfg (n - off)"
  let ?w1 = "w\<lparr>rng_pos := Suc (rng_pos w),
      tx := tx w @ wire_out (command_packet (opcode GetPartialObject) (next_tid w)
        (write_u32_be h @ write_u64_be (word_of_nat off) @ write_u32_be (word_of_nat ?size))),
      rx := frames ps @ evs\<rparr>"
  have "get_partial_object bo h (word_of_nat off) (word_of_nat ?size) scfg w = (Ok ?d, ?w1)"
    by (intro get_partial_served [OF bo w(1) refl bl ps rx])
  then have got: "download_with_retry bo h (word_of_nat off) (word_of_nat ?size) scfg stats w = (Ok (?d, stats), ?w1)"
    by (simp add: download_with_retry_def download_retry_loop.simps [of _ _ _ _ _ 0])
  have quiet: "fs_script ?w1 = []" and temp: "files ?w1 ?T = Some c"
    using w by simp_all
  obtain rep2 w2 where s: "store_chunk p n cps (AtEnd ?T) ?d off rep stats ?w1 =
      (Ok (off + length ?d, rep2, stored ?d off stats), w2)"
    and w2: "files w2 = (files w)(?T \<mapsto> c @ ?d, get_resume_path p \<mapsto> bytes_of_string (dec (off + length ?d)))"
      "fs_script w2 = []" "tx_script w2 = []" "rng w2 = rng w" "clock w2 = clock w"
      "rng_pos w2 = Suc (rng_pos w)" "rx w2 = frames ps @ evs" "tx w2 = tx ?w1"
    using store_chunk_quiet [OF quiet temp, of n cps ?d off rep stats] w
    by (auto simp: Let_def)
  have "download_loop bo h p scfg dcfg n cps (AtEnd ?T) off rep stats w =
      download_loop bo h p scfg dcfg n cps (AtEnd ?T) (off + length ?d) rep2 (stored ?d off stats) w2"
    using off got s len by (simp add: download_loop.simps [of _ _ _ _ _ _ _ _ off] Let_def)
  with w2 show ?thesis
    by (intro exI [of _ rep2] exI [of _ w2]) (simp add: len)
qed

lemma download_loop_served:
  assumes bo: "byteorder_spec bo"
  shows "fits dcfg n off ds \<Longrightarrow> n < 2 ^ 64 \<Longrightarrow> tx_script w = [] \<Longrightarrow> fs_script w = [] \<Longrightarrow>
     files w (get_temp_path p) = Some c \<Longrightarrow> length c = off \<Longrightarrow> downloaded_bytes stats = word_of_nat off \<Longrightarrow>
     rx w = frames (object_packets (rng w) (rng_pos w) ds) @ evs \<Longrightarrow>
     \<exists>w'. download_loop bo h p scfg dcfg n cps (AtEnd (get_temp_path p)) off rep stats w =
        (Ok (stats\<lparr>downloaded_bytes := word_of_nat n, chunks := chunks stats + length ds\<rparr>), w') \<and>
      files w' (get_temp_path p) = Some (c @ concat (concat ds)) \<and>
      tx w' = tx w @ chunk_requests (rng w) (rng_pos w) h off ds \<and> rx w' = evs"
proof (induction ds arbitrary: off c rep stats w)
  case Nil
  then show ?case by (auto simp: download_loop.simps [of _ _ _ _ _ n _ _ n])
next
  case (Cons blocks ds)
  let ?T = "get_temp_path p" and ?d = "concat blocks"
  let ?rest = "object_packets (rng w) (Suc (rng_pos w)) ds"
  have off: "off < n" and len: "length ?d = next_chunk dcfg (n - off)"
    and bl: "list_all (\<lambda>b. b \<noteq> [] \<and> length b < 2 ^ 32) blocks"
    and fits: "fits dcfg n (off + length ?d) ds"
    using Cons.prems(1) [unfolded fits.simps] by blast+
  obtain rep2 w2 where eq: "download_loop bo h p scfg dcfg n cps (AtEnd ?T) off rep stats w =
      download_loop bo h p scfg dcfg n cps (AtEnd ?T) (off + length ?d) rep2 (stored ?d off stats) w2"
    and w2: "files w2 ?T = Some (c @ ?d)" "fs_script w2 = []" "tx_script w2 = []" "rng w2 = rng w"
      "rng_pos w2 = Suc (rng_pos w)" "rx w2 = frames ?rest @ evs"
      "tx w2 = tx w @ wire_out (command_packet (opcode GetPartialObject) (next_tid w)
         (write_u32_be h @ write_u64_be (word_of_nat off) @ write_u32_be (word_of_nat (length ?d))))"
    using download_loop_chunk [OF bo off len bl Cons.prems(3-6) object_packets_receivable [OF fits],
        of "rng w" "Suc (rng_pos w)" evs h scfg cps rep stats] Cons.prems(8)
    by (auto simp: next_tid_def)
  obtain w' where "download_loop bo h p scfg dcfg n cps (AtEnd ?T) (off + length ?d) rep2 (stored ?d off stats) w2 =
        (Ok ((stored ?d off stats)\<lparr>downloaded_bytes := word_of_nat n,
          chunks := chunks (stored ?d off stats) + length ds\<rparr>), w')"
      "files w' ?T = Some ((c @ ?d) @ concat (concat ds))"
      "tx w' = tx w2 @ chunk_requests (rng w2) (rng_pos w2) h (off + length ?d) ds" "rx w' = evs"
    using Cons.IH [OF fits Cons.prems(2) w2(3,2,1), of "stored ?d off stats" rep2] Cons.prems(6) w2(4-6)
    by (auto simp: stored_def)
  then show ?case
    unfolding eq by (intro exI [of _ w']) (simp add: stored_def w2 len next_tid_def)
qed

lemma download_served:
  assumes bo: "byteorder_spec bo" and "tx_script w = []" and quiet: "fs_script w = []" and sane: "files_ok w"
    and target: "files w p = None"
    and start: "(files w (get_temp_path p), files w (get_resume_path p)) =
      (if c = [] then (None, None) else (Some c, Some (bytes_of_string (dec (length c)))))"
    and fits: "fits dcfg (unat (total_bytes stats)) (length c) ds"
    and more: "c = [] \<or> ds \<noteq> []"
    and rx: "rx w = frames (object_packets (rng w) (rng_pos w) ds) @ evs"
  shows "\<exists>w'. download_object_with_resume bo h p scfg dcfg stats w =
       (Ok (stats\<lparr>downloaded_bytes := total_bytes stats, chunks := chunks stats + length ds\<rparr>), w') \<and>
     files w' = (files w)(p \<mapsto> c @ concat (concat ds), get_temp_path p := None, get_resume_path p := None) \<and>
     tx w' = tx w @ chunk_requests (rng w) (rng_pos w) h (length c) ds \<and> rx w' = evs"
proof -
  let ?n = "unat (total_bytes stats)" and ?T = "get_temp_path p" and ?R = "get_resume_path p"
  let ?w1 = "w\<lparr>files := (files w)(?T \<mapsto> c)\<rparr>"
  let ?stats0 = "stats\<lparr>downloaded_bytes := word_of_nat (length c)\<rparr>"
  have n: "?n < 2 ^ 64" using unat_u64_less [of "total_bytes stats"] by simp
  have le: "length c \<le> ?n" using fits_le [OF fits] .
  have less: "c = [] \<or> length c < ?n" using fits more by (cases ds) auto
  have len: "length c < 2 ^ 64" using le n by simp
  have resume: "check_resume_state p ?n w = (Ok (length c, AtEnd ?T), ?w1)"
  proof (cases "c = []")
    case True
    then show ?thesis
      using start target by (simp add: check_resume_table [OF quiet sane] Let_def)
  next
    case False
    then have "?w1 = w" using start by (simp add: fun_upd_idem)
    then show ?thesis
      using False start target less parse_usize_dec [OF len]
      by (simp add: check_resume_table [OF quiet sane] Let_def from_utf8_dec trim_dec)
  qed
  obtain w2 where loop: "download_loop bo h p scfg dcfg ?n (progress_checkpoints dcfg (total_bytes stats))
        (AtEnd ?T) (length c) 0 ?stats0 ?w1 =
      (Ok (?stats0\<lparr>downloaded_bytes := word_of_nat ?n, chunks := chunks ?stats0 + length ds\<rparr>), w2)"
    and w2: "files w2 ?T = Some (c @ concat (concat ds))"
      "tx w2 = tx ?w1 @ chunk_requests (rng ?w1) (rng_pos ?w1) h (length c) ds" "rx w2 = evs"
    using download_loop_served [OF bo fits n, where w = ?w1 and p = p and c = c and stats = ?stats0
        and evs = evs and h = h and scfg = scfg and rep = 0
        and cps = "progress_checkpoints dcfg (total_bytes stats)"] assms(2) quiet rx by auto
  have eff: "loop_effect p c ?n ?w1 (Ok (?stats0\<lparr>downloaded_bytes := word_of_nat ?n,
      chunks := chunks ?stats0 + length ds\<rparr>)) w2"
    using download_loop_effect [OF loop refl _ _ refl le] quiet by simp
  have fin: "\<exists>w'. finish_download p ?n s w2 = (Ok (), w') \<and> tx w' = tx w2 \<and> rx w' = rx w2 \<and>
      files w' = (files w2)(?T := None, p \<mapsto> c @ concat (concat ds), ?R := None)" for s
    using eff w2(1) unfolding loop_effect_def
    by (auto simp: finish_download_def fs_rename_def remove_file_def fs_call_def bind_io_def io_try_def
        discard_def progress_callback_def fun_upd_idem split: option.splits)
  let ?s = "stats\<lparr>downloaded_bytes := total_bytes stats, chunks := chunks stats + length ds\<rparr>"
  obtain w' where finished: "finish_download p ?n ?s w2 = (Ok (), w')"
    and files: "files w' = (files w2)(?T := None, p \<mapsto> c @ concat (concat ds), ?R := None)"
    and io: "tx w' = tx w2" "rx w' = rx w2"
    using fin by blast
  have "download_loop bo h p scfg dcfg ?n (progress_checkpoints dcfg (total_bytes stats))
      (AtEnd ?T) (length c) 0 ?stats0 ?w1 = (Ok ?s, w2)"
    using loop by simp
  then have run: "download_object_with_resume bo h p scfg dcfg stats w = (Ok ?s, w')"
    by (simp add: download_object_eq bind_io_def resume finished ret_apply)
  have "files w' = (files w)(p \<mapsto> c @ concat (concat ds), ?T := None, ?R := None)"
    using eff unfolding loop_effect_def files by (intro ext) auto
  with run io w2 show ?thesis by auto
qed

text \<open>
  C1. A camera that answers every request with the bytes asked for gets its object onto the disk, bit
  for bit, after an interruption (\<open>c\<close> are the bytes already saved) as well as from the start: the
  requests on the wire ask for consecutive ranges from \<open>length c\<close> on, the target is \<open>c\<close> followed by
  what was sent, however it was cut into blocks, no helper file is left, nothing else on disk or
  in the stream is touched, and the statistics count the bytes and the chunks.
\<close>

theorem download_delivers_object:
  assumes "byteorder_spec bo" and "tx_script w = []" and "fs_script w = []" and "files_ok w"
    and "files w p = None"
    and "(files w (get_temp_path p), files w (get_resume_path p)) =
      (if c = [] then (None, None) else (Some c, Some (bytes_of_string (dec (length c)))))"
    and "fits dcfg (unat (total_bytes stats)) (length c) ds" and "c = [] \<or> ds \<noteq> []"
    and "rx w = frames (object_packets (rng w) (rng_pos w) ds) @ evs"
  shows "\<exists>w'. download_object_with_resume bo h p scfg dcfg stats w =
       (Ok (stats\<lparr>downloaded_bytes := total_bytes stats, chunks := chunks stats + length ds\<rparr>), w') \<and>
     files w' = (files w)(p \<mapsto> c @ concat (concat ds), get_temp_path p := None, get_resume_path p := None) \<and>
     tx w' = tx w @ chunk_requests (rng w) (rng_pos w) h (length c) ds \<and> rx w' = evs"
  using download_served [OF assms] .

text \<open>Two chunks of at most four bytes, the second in two blocks.\<close>

definition small_chunks :: chunk_config where
  "small_chunks = \<lparr>chunk_size = 4, progress_interval = Fin 5, min_chunk_size = 2\<rparr>"

definition sending :: world where
  "sending = quiet\<lparr>rx := frames (object_packets (\<lambda>n. word_of_nat n) 1 [[[1, 2, 3, 4]], [[5, 6], [7]]])\<rparr>"

lemma sending_served:
  "\<exists>w'. download_object_with_resume utils_byteorder 9 photo default_session_config small_chunks
       (default_download_stats\<lparr>total_bytes := 7\<rparr>) sending =
     (Ok (default_download_stats\<lparr>total_bytes := 7, downloaded_bytes := 7, chunks := 2\<rparr>), w') \<and>
     files w' photo = Some [1, 2, 3, 4, 5, 6, 7]"
proof -
  have ok: "files_ok sending" by (simp add: files_ok_def sending_def quiet_def)
  show ?thesis
    using download_served [OF utils_byteorder_spec _ _ ok, of photo "[]" small_chunks
        "default_download_stats\<lparr>total_bytes := 7\<rparr>" "[[[1, 2, 3, 4]], [[5, 6], [7]]]" "[]" 9 default_session_config]
    by (auto simp: sending_def quiet_def small_chunks_def next_chunk_def default_download_stats_def)
qed

theorem download_delivers_object_witness:
  "\<exists>w'. download_object_with_resume utils_byteorder 9 photo default_session_config small_chunks
       (default_download_stats\<lparr>total_bytes := 7\<rparr>) sending =
     (Ok (default_download_stats\<lparr>total_bytes := 7, downloaded_bytes := 7, chunks := 2\<rparr>), w') \<and>
     files w' photo = Some [1, 2, 3, 4, 5, 6, 7]"
proof -
  have ok: "files_ok sending" by (simp add: files_ok_def sending_def quiet_def)
  show ?thesis
    using download_delivers_object [OF utils_byteorder_spec _ _ ok, of photo "[]" small_chunks
        "default_download_stats\<lparr>total_bytes := 7\<rparr>" "[[[1, 2, 3, 4]], [[5, 6], [7]]]" "[]" 9 default_session_config]
    by (auto simp: sending_def quiet_def small_chunks_def next_chunk_def default_download_stats_def)
qed


end
