(* ===== verification/Download_Progress.thy ===== *)
theory Download_Progress
  imports Download_Facts
begin

text \<open>
  How often and with what a download of \<open>src/commands.rs\<close> calls the progress callback. A checkpoint is
  consumed by every report before the last one, and there are twenty of them.
\<close>

text \<open>The reports of a run of the loop from \<open>off\<close> with checkpoints above \<open>rep\<close> still open.\<close>

definition reports_ok :: "usize \<Rightarrow> usize \<Rightarrow> usize list \<Rightarrow> usize \<Rightarrow> (usize \<times> usize \<times> bool \<times> download_stats) list \<Rightarrow> bool" where
  "reports_ok off n cps rep calls \<longleftrightarrow>
     list_all (\<lambda>(current, whole, finished, s). off \<le> current \<and> current \<le> n \<and> whole = n \<and> \<not> finished) calls \<and>
     sorted (map fst calls) \<and> length calls \<le> card {q \<in> set cps. rep < q}"

lemma reports_ok_Nil [simp]: "reports_ok off n cps rep []"
  by (simp add: reports_ok_def)

lemma reports_ok_skip:
  "reports_ok off' n cps rep calls \<Longrightarrow> off \<le> off' \<Longrightarrow> reports_ok off n cps rep calls"
  by (fastforce simp: reports_ok_def list_all_iff)

lemma reports_ok_Cons:
  assumes "reports_ok off' n cps q calls" and "q \<in> set cps" and "rep < q" and "off \<le> off'" and "off' \<le> n"
  shows "reports_ok off n cps rep ((off', n, False, s) # calls)"
proof -
  have sub: "insert q {x \<in> set cps. q < x} \<subseteq> {x \<in> set cps. rep < x}"
    using assms(2,3) by auto
  have "Suc (card {x \<in> set cps. q < x}) = card (insert q {x \<in> set cps. q < x})"
    by simp
  also have "\<dots> \<le> card {x \<in> set cps. rep < x}"
    using sub by (intro card_mono) auto
  finally show ?thesis
    using assms by (fastforce simp: reports_ok_def list_all_iff)
qed

lemma find_Some_props: "find P xs = Some x \<Longrightarrow> x \<in> set xs \<and> P x"
  by (auto simp: find_Some_iff)

interpretation reports: loop_contract p n cps
    "\<lambda>c rep w r w'. \<exists>calls. progress w' = progress w @ calls \<and> reports_ok (length c) n cps rep calls" for p n cps
proof
  show "\<exists>calls. progress w' = progress w @ calls \<and> reports_ok (length c) n cps rep calls"
    if le: "length (c @ d) \<le> n"
      and new: "progress w2 = progress w @ reports_new n cps rep (length (c @ d)) stats"
      and later: "\<exists>calls. progress w' = progress w2 @ calls \<and>
        reports_ok (length (c @ d)) n cps (reported_new cps rep (length (c @ d))) calls" for c d w2 w rep stats w'
  proof -
    obtain calls where calls: "progress w' = progress w2 @ calls"
      "reports_ok (length (c @ d)) n cps (reported_new cps rep (length (c @ d))) calls"
      using later by blast
    have "reports_ok (length c) n cps rep (reports_new n cps rep (length (c @ d)) stats @ calls)"
    proof (cases "find (\<lambda>q. q > rep \<and> length (c @ d) \<ge> q) cps")
      case None
      with calls(2) show ?thesis
        by (simp add: reports_new_def reported_new_def reports_ok_skip [of "length (c @ d)"])
    next
      case (Some q)
      with calls(2) find_Some_props [OF Some] le show ?thesis
        by (auto simp: reports_new_def reported_new_def intro!: reports_ok_Cons)
    qed
    with calls(1) new show ?thesis by (metis append.assoc)
  qed
qed auto

lemma download_loop_reports:
  "download_loop bo h p scfg dcfg n cps f off rep stats w = (r, w') \<Longrightarrow> f = AtEnd (get_temp_path p) \<Longrightarrow>
     fs_script w = [] \<Longrightarrow> files w (get_temp_path p) = Some c \<Longrightarrow> length c = off \<Longrightarrow> off \<le> n \<Longrightarrow>
     \<exists>calls. progress w' = progress w @ calls \<and> reports_ok off n cps rep calls"
  using reports.loop_keeps [of bo h p scfg dcfg n cps f off rep stats w r w' c] by (simp add: storing_def)

text \<open>
  C31. A successful download reports progress at most twenty times and then exactly once completion:
  the reported offsets never decrease or exceed the size, and only the last report is marked complete.
\<close>

theorem progress_reports_bounded:
  assumes run: "download_object_with_resume bo h p scfg dcfg stats w = (Ok stats', w')"
    and quiet: "fs_script w = []" and sane: "files_ok w" and fresh: "progress w = []"
    and target: "map_option length (files w p) \<noteq> Some (unat (total_bytes stats))"
  shows "length (progress w') \<le> 21 \<and> sorted (map fst (progress w')) \<and>
     last (progress w') = (unat (total_bytes stats), unat (total_bytes stats), True, stats') \<and>
     list_all (\<lambda>(current, whole, finished, s). current \<le> whole \<and> whole = unat (total_bytes stats) \<and> \<not> finished)
       (butlast (progress w'))"
proof -
  let ?n = "unat (total_bytes stats)" and ?cps = "progress_checkpoints dcfg (total_bytes stats)"
  obtain off f w1 w2 where start: "check_resume_state p ?n w = (Ok (off, f), w1)"
    and loop: "download_loop bo h p scfg dcfg ?n ?cps f off 0
        (stats\<lparr>downloaded_bytes := word_of_nat off\<rparr>) w1 = (Ok stats', w2)"
    and rest: "finish_download p ?n stats' w2 = (Ok (), w')"
    using download_object_Ok [OF run] by blast
  note init = check_resume_Ok [OF start quiet sane target]
  have fresh1: "progress w1 = []"
    using start fresh by (auto simp: check_resume_table [OF quiet sane] Let_def split: option.splits sum.splits if_splits)
  have last: "progress w' = progress w2 @ [(?n, ?n, True, stats')]"
    using rest by (auto simp: finish_download_def bind_io_def io_try_def discard_def progress_callback_def
        fs_rename_def remove_file_def fs_call_def split: prod.splits sum.splits option.splits list.splits tx_outcome.splits)
  from init [THEN conjunct2, THEN conjunct2]
  consider c where "f = AtEnd (get_temp_path p)" "off \<le> ?n" "files w1 (get_temp_path p) = Some c" "length c = off"
    | "off = ?n" by (elim disjE conjE exE) simp_all
  then have "reports_ok off ?n ?cps 0 (progress w2)"
  proof cases
    case (1 c)
    then show ?thesis
      using download_loop_reports [OF loop 1(1) init [THEN conjunct1] 1(3,4,2)] fresh1 by auto
  next
    case 2
    then show ?thesis using loop fresh1 by (simp add: download_loop.simps [of _ _ _ _ _ ?n])
  qed
  moreover have "card {q \<in> set ?cps. 0 < q} \<le> 20"
  proof -
    have "card {q \<in> set ?cps. 0 < q} \<le> card (set ?cps)" by (intro card_mono) auto
    also have "\<dots> \<le> length ?cps" by (rule card_length)
    finally show ?thesis by (simp add: progress_checkpoints_def)
  qed
  ultimately show ?thesis
    unfolding last reports_ok_def by (auto simp: sorted_append list_all_iff)
qed

theorem progress_reports_bounded_witness:
  "\<exists>stats' w'. download_object_with_resume utils_byteorder 9 photo default_session_config small_chunks
       (default_download_stats\<lparr>total_bytes := 7\<rparr>) sending = (Ok stats', w') \<and>
     length (progress w') \<le> 21 \<and> last (progress w') = (7, 7, True, stats')"
proof -
  obtain stats' w' where run: "download_object_with_resume utils_byteorder 9 photo default_session_config small_chunks
       (default_download_stats\<lparr>total_bytes := 7\<rparr>) sending = (Ok stats', w')"
    using sending_served by blast
  have "files_ok sending" by (simp add: files_ok_def sending_def quiet_def)
  from progress_reports_bounded [OF run _ this] run show ?thesis
    by (auto simp: sending_def quiet_def)
qed

end
