(* ===== verification/Download_Limits.thy ===== *)
theory Download_Limits
  imports Download_Progress
begin

text \<open>
  Bounds of the chunked download of \<open>src/commands.rs\<close>: the retries of one chunk, and the configuration
  with which no download can finish.
\<close>

abbreviation retry_pause :: "session_config \<Rightarrow> nat" where
  "retry_pause cfg \<equiv> duration_from_millis (retry_delay_ms cfg)"

text \<open>The outcome of a run of the retry loop after \<open>n\<close> failures.\<close>

definition retries_ok :: "session_config \<Rightarrow> nat \<Rightarrow> download_stats \<Rightarrow> nat \<Rightarrow>
    ptpip_error + bytes \<times> download_stats \<Rightarrow> nat \<Rightarrow> bool" where
  "retries_ok cfg n stats t r t' \<longleftrightarrow>
     (case r of
        Inr (data, stats') \<Rightarrow> \<exists>k. k \<le> max_retries cfg - n \<and> stats' = stats\<lparr>retries := retries stats + k\<rparr> \<and>
          t + k * retry_pause cfg \<le> t'
      | Inl e \<Rightarrow> t + (max_retries cfg - n) * retry_pause cfg \<le> t')"

lemma retries_ok_Suc:
  assumes "retries_ok cfg (Suc n) (stats\<lparr>retries := retries stats + 1\<rparr>) t' r t''"
    and "n < max_retries cfg" and "t + retry_pause cfg \<le> t'"
  shows "retries_ok cfg n stats t r t''"
proof -
  obtain m where m: "max_retries cfg - n = Suc m" "max_retries cfg - Suc n = m"
    using assms(2) by (metis Suc_diff_Suc)
  show ?thesis
  proof (cases r)
    case (Inl e)
    with assms m show ?thesis by (simp add: retries_ok_def)
  next
    case (Inr a)
    then obtain k where "k \<le> m" "snd a = stats\<lparr>retries := retries stats + Suc k\<rparr>" "t' + k * retry_pause cfg \<le> t''"
      using assms(1) m by (auto simp: retries_ok_def split: prod.splits)
    with assms(3) m Inr show ?thesis
      by (auto simp: retries_ok_def split: prod.split intro!: exI [of _ "Suc k"])
  qed
qed

lemma download_retry_ok:
  "download_retry_loop bo h off len cfg n stats w = (r, w') \<Longrightarrow> retries_ok cfg n stats (clock w) r (clock w')"
proof (induction bo h off len cfg n stats w rule: download_retry_loop.induct)
  case (1 bo h off len cfg n stats w)
  obtain r1 w1 where run: "get_partial_object bo h off len cfg w = (r1, w1)" by fastforce
  note unfold = download_retry_loop.simps [of bo h off len cfg n stats w]
  have time: "clock w \<le> clock w1"
    using preservesD [OF get_partial_net run] by (simp add: net_def)
  show ?case
  proof (cases r1)
    case (Inr a)
    with "1.prems" run time show ?thesis
      by (auto simp: unfold retries_ok_def split: prod.split intro!: exI [of _ 0])
  next
    case (Inl e)
    show ?thesis
    proof (cases "n + 1 > max_retries cfg")
      case True
      with "1.prems" run time Inl show ?thesis by (auto simp: unfold retries_ok_def)
    next
      case False
      with "1.prems" run Inl have "download_retry_loop bo h off len cfg (n + 1) (stats\<lparr>retries := retries stats + 1\<rparr>)
          (sleep (retry_pause cfg) w1) = (r, w')"
        by (simp add: unfold)
      from "1.IH" [OF run [symmetric] Inl refl refl False this] show ?thesis
        using False time by (intro retries_ok_Suc [of cfg n stats "clock (sleep (retry_pause cfg) w1)"])
          (simp_all add: sleep_def)
    qed
  qed
qed


lemma store_empty_offset:
  "store_chunk p n cps f [] off rep stats w = (Ok (off', rep', stats'), w') \<Longrightarrow> off' = off"
  by (auto simp: store_chunk_def Let_def bind_io_eq_Ok ret_apply)

lemma zero_chunk_stuck:
  "download_loop bo h p scfg dcfg n cps f off rep stats w = (r, w') \<Longrightarrow> chunk_size dcfg = 0 \<Longrightarrow>
     min_chunk_size dcfg \<le> n - off \<Longrightarrow> off < n \<Longrightarrow> \<not> is_ok r"
proof (induction bo h p scfg dcfg n cps f off rep stats w rule: download_loop.induct)
  case (1 bo h p scfg dcfg n cps f off rep stats w)
  have size: "next_chunk dcfg (n - off) = 0" using "1.prems" by (simp add: next_chunk_def)
  obtain r1 w1 where run: "download_with_retry bo h (word_of_nat off) (word_of_nat 0) scfg stats w = (r1, w1)"
    by fastforce
  note unfold = download_loop.simps [of bo h p scfg dcfg n cps f off rep stats w]
  note IH = "1.IH" [OF "1.prems"(4) refl, unfolded size, OF run [symmetric]]
  show ?case
  proof (cases r1)
    case (Inl e)
    with "1.prems" run show ?thesis by (auto simp: unfold size Let_def)
  next
    case (Inr a)
    obtain data stats1 where a: "a = (data, stats1)" by fastforce
    show ?thesis
    proof (cases "data = []")
      case False
      with "1.prems" run Inr a show ?thesis
        by (auto simp: unfold size Let_def bind_io_def lift_r_apply split: prod.splits sum.splits)
    next
      case True
      obtain r2 w2 where st: "store_chunk p n cps f [] off rep stats1 w1 = (r2, w2)" by fastforce
      show ?thesis
      proof (cases r2)
        case (Inl e)
        with "1.prems" run Inr a True st show ?thesis by (auto simp: unfold size Let_def)
      next
        case (Inr b)
        obtain off' rep' stats' where b: "b = (off', rep', stats')" by (cases b) auto
        with Inr st have "off' = off" using store_empty_offset by blast
        moreover have "download_loop bo h p scfg dcfg n cps f off' rep' stats' w2 = (r, w')"
          using "1.prems" run \<open>r1 = Inr a\<close> a True st Inr b by (simp add: unfold size)
        ultimately show ?thesis
          using IH [OF \<open>r1 = Inr a\<close> a [symmetric] _ _ Inr b [symmetric]] True st "1.prems" by simp
      qed
    qed
  qed
qed



end
