(* ===== verification/Download_Faults.thy ===== *)
theory Download_Faults
  imports Download_Facts
begin

text \<open>
  The download of \<open>src/commands.rs\<close> when the disk fails as well: every call of the file system may
  succeed or fail, a write after any part of its data. The first section is a small calculus of
  triples over the files of the world; the others use it for what a download may do to the disk,
  and show what a failed write and a record without a name do to the next download.
\<close>

section \<open>Triples over the files\<close>

text \<open>
  \<open>triple P m Q E\<close>: started in files that satisfy \<open>P\<close>, whatever the faults, \<open>m\<close> ends in files that satisfy
  \<open>Q\<close>, with its result, or \<open>E\<close>, with an error.
\<close>

type_synonym disk = "path \<Rightarrow> bytes option"

definition triple :: "(disk \<Rightarrow> bool) \<Rightarrow> ('a, 'e) io \<Rightarrow> ('a \<Rightarrow> disk \<Rightarrow> bool) \<Rightarrow> (disk \<Rightarrow> bool) \<Rightarrow> bool" where
  "triple P m Q E \<longleftrightarrow>
     (\<forall>w. P (files w) \<longrightarrow> (case m w of (Inr a, w') \<Rightarrow> Q a (files w') | (Inl e, w') \<Rightarrow> E (files w')))"

named_theorems triples \<open>rules for the operations, applied backwards\<close>

lemma tripleD:
  assumes "triple P m Q E" and "P (files w)" and "m w = (r, w')"
  shows "case r of Inl e \<Rightarrow> E (files w') | Inr a \<Rightarrow> Q a (files w')"
  using assms(1) [unfolded triple_def, rule_format, OF assms(2)] assms(3) by (cases r) simp_all

lemma triple_Ok: "triple P m Q E \<Longrightarrow> P (files w) \<Longrightarrow> m w = (Inr a, w') \<Longrightarrow> Q a (files w')"
  and triple_Err: "triple P m Q E \<Longrightarrow> P (files w) \<Longrightarrow> m w = (Inl e, w') \<Longrightarrow> E (files w')"
  by (fastforce dest: tripleD)+

lemma tripleI:
  assumes "\<And>w a w'. P (files w) \<Longrightarrow> m w = (Inr a, w') \<Longrightarrow> Q a (files w')"
    and "\<And>w e w'. P (files w) \<Longrightarrow> m w = (Inl e, w') \<Longrightarrow> E (files w')"
  shows "triple P m Q E"
  unfolding triple_def
proof (intro allI impI)
  fix w :: world
  assume pre: "P (files w)"
  show "case m w of (Inr a, w') \<Rightarrow> Q a (files w') | (Inl e, w') \<Rightarrow> E (files w')"
  proof (cases "m w")
    case (Pair r w')
    then show ?thesis using assms [OF pre] by (cases r) simp_all
  qed
qed

lemma triple_weaken:
  "triple P' m Q E \<Longrightarrow> (\<And>F. P F \<Longrightarrow> P' F) \<Longrightarrow> triple P m Q E"
  by (simp add: triple_def)

lemma triple_conseq:
  "triple P' m Q' E' \<Longrightarrow> (\<And>F. P F \<Longrightarrow> P' F) \<Longrightarrow> (\<And>a F. Q' a F \<Longrightarrow> Q a F) \<Longrightarrow> (\<And>F. E' F \<Longrightarrow> E F) \<Longrightarrow>
     triple P m Q E"
  by (rule tripleI) (blast dest: triple_Ok triple_Err)+

lemma triple_bind [triples]:
  "(\<And>a. triple (mid a) (f a) Q E) \<Longrightarrow> triple P m mid E \<Longrightarrow> triple P (bind_io m f) Q E"
  by (rule tripleI) (auto simp: bind_io_eq_Ok bind_io_eq_Err dest: triple_Ok triple_Err)

lemma triple_ret [triples]: "triple (Q a) (ret a) Q E"
  by (simp add: triple_def ret_apply)

lemma triple_lift [triples]: "triple (\<lambda>F. case r of Inl e \<Rightarrow> E F | Inr a \<Rightarrow> Q a F) (lift_r r) Q E"
  by (auto simp: triple_def lift_r_apply split: sum.splits)

lemma triple_try [triples]: "triple P m Q E \<Longrightarrow> triple P (io_try m) Q E"
  by (rule tripleI) (auto simp: io_try_eq_Err dest: triple_Ok triple_Err)

lemma triple_if [triples]:
  "(b \<Longrightarrow> triple P1 m1 Q E) \<Longrightarrow> (\<not> b \<Longrightarrow> triple P2 m2 Q E) \<Longrightarrow>
     triple (\<lambda>F. if b then P1 F else P2 F) (if b then m1 else m2) Q E"
  by simp

lemma triple_exists [triples]:
  "triple (\<lambda>F. Q False F \<and> (F p \<noteq> None \<longrightarrow> Q True F)) (path_exists p) Q E"
proof (rule tripleI, goal_cases)
  case (1 w a w')
  then show ?case
    by (cases "files w p") (auto simp: path_exists_def fs_call_def split: list.splits tx_outcome.splits)
next
  case (2 w e w')
  then show ?case
    by (auto simp: path_exists_def fs_call_def split: list.splits tx_outcome.splits)
qed

lemma triple_read [triples]:
  "triple (\<lambda>F. E F \<and> (\<forall>c. F p = Some c \<longrightarrow> Q c F)) (fs_read p) Q E"
  by (auto simp: triple_def fs_read_def fs_call_def split: list.splits tx_outcome.splits option.splits)

lemma triple_metadata [triples]:
  "triple (\<lambda>F. E F \<and> (\<forall>c. F p = Some c \<longrightarrow> Q (word_of_nat (length c)) F)) (metadata_len p) Q E"
  unfolding metadata_len_def by (rule triples)+

lemma triple_read_string [triples]:
  "triple (\<lambda>F. E F \<and> (\<forall>c s. F p = Some c \<longrightarrow> from_utf8 c = Ok s \<longrightarrow> Q s F)) (read_to_string p) Q E"
  unfolding read_to_string_def
  by (rule triple_weaken, (rule triples)+) (auto split: sum.splits)

lemma triple_open [triples]:
  "triple (\<lambda>F. E F \<and> (F p \<noteq> None \<longrightarrow> Q (ReadOnly p) F)) (file_open p) Q E"
  unfolding file_open_def by (rule triple_weaken, (rule triples)+) auto

lemma triple_append [triples]:
  "triple (\<lambda>F. E F \<and> (F p \<noteq> None \<longrightarrow> Q (AtEnd p) F)) (file_append p) Q E"
  unfolding file_append_def by (rule triple_weaken, (rule triples)+) auto

lemma triple_create [triples]:
  "triple (\<lambda>F. E F \<and> Q (AtEnd p) (F(p \<mapsto> []))) (file_create p) Q E"
  by (auto simp: triple_def file_create_def fs_call_def split: list.splits tx_outcome.splits)

lemma triple_remove [triples]:
  "triple (\<lambda>F. E F \<and> (F p \<noteq> None \<longrightarrow> Q () (F(p := None)))) (remove_file p) Q E"
  by (auto simp: triple_def remove_file_def fs_call_def split: list.splits tx_outcome.splits option.splits)

lemma triple_rename [triples]:
  "triple (\<lambda>F. E F \<and> (\<forall>c. F a = Some c \<longrightarrow> Q () (F(a := None, b \<mapsto> c)))) (fs_rename a b) Q E"
  by (auto simp: triple_def fs_rename_def fs_call_def split: list.splits tx_outcome.splits option.splits)

lemma triple_write [triples]:
  "triple (\<lambda>F. case f of ReadOnly p \<Rightarrow> E F \<and> Q () F | AtEnd p \<Rightarrow>
       \<exists>c. F p = Some c \<and> (\<forall>k. E (F(p \<mapsto> c @ take k d))) \<and> Q () (F(p \<mapsto> c @ d)))
     (file_write_all f d) Q E"
proof (cases f)
  case (ReadOnly p)
  then show ?thesis by (simp add: triple_def)
next
  case (AtEnd p)
  have cut: "\<exists>j. take k (butlast d) = take j d" for k
    by (metis butlast_conv_take take_take)
  show ?thesis
    unfolding triple_def AtEnd
    by (auto simp: extend_file_def fun_upd_idem split: list.splits tx_outcome.splits; metis cut)
qed

lemma triple_callback [triples]: "triple (Q ()) (progress_callback a b c s) Q E"
  by (simp add: triple_def progress_callback_def)

lemma triple_discard [triples]:
  "triple P m (\<lambda>_. Q ()) (Q ()) \<Longrightarrow> triple P (discard m) Q E"
  by (rule tripleI) (auto simp: discard_def split: sum.splits dest!: tripleD [OF _ _ prod.collapse [symmetric]])

text \<open>The network touches no file.\<close>

lemma triple_net: "preserves net m \<Longrightarrow> triple (\<lambda>F. E F \<and> (\<forall>a. Q a F)) m Q E"
  by (fastforce simp: triple_def preserves_def net_def split: prod.splits sum.splits)

lemma triple_prod [triples]:
  "(\<And>x y. triple (P x y) (g x y) Q E) \<Longrightarrow>
     triple (case z of (x, y) \<Rightarrow> P x y) (case z of (x, y) \<Rightarrow> g x y) Q E"
  by (cases z) simp

lemma triple_option [triples]:
  "triple P1 m1 Q E \<Longrightarrow> (\<And>x. triple (P2 x) (m2 x) Q E) \<Longrightarrow>
     triple (\<lambda>F. case z of None \<Rightarrow> P1 F | Some x \<Rightarrow> P2 x F) (case z of None \<Rightarrow> m1 | Some x \<Rightarrow> m2 x) Q E"
  by (cases z) simp_all

section \<open>What a download may do to the disk\<close>

definition others_same :: "path \<Rightarrow> disk \<Rightarrow> disk \<Rightarrow> bool" where
  "others_same p F0 F \<longleftrightarrow> (\<forall>q. q \<notin> {p, get_temp_path p, get_resume_path p} \<longrightarrow> F q = F0 q)"

definition disk_safe :: "path \<Rightarrow> usize \<Rightarrow> disk \<Rightarrow> disk \<Rightarrow> bool" where
  "disk_safe p n F0 F \<longleftrightarrow> others_same p F0 F \<and> (F p = F0 p \<or> map_option length (F p) = Some n)"

definition started :: "path \<Rightarrow> usize \<Rightarrow> disk \<Rightarrow> usize \<times> file_handle \<Rightarrow> disk \<Rightarrow> bool" where
  "started p n F0 = (\<lambda>(off, f) F. others_same p F0 F \<and>
     (f = AtEnd (get_temp_path p) \<and> off \<le> n \<and> F p = F0 p \<and>
        map_option length (F (get_temp_path p)) = Some off \<or>
      f = ReadOnly p \<and> off = n \<and> F (get_temp_path p) = None \<and> map_option length (F p) = Some n))"

definition disk_ok :: "path \<Rightarrow> usize \<Rightarrow> disk \<Rightarrow> bool" where
  "disk_ok p n F0 \<longleftrightarrow> (\<forall>q c. F0 q = Some c \<longrightarrow> length c < 2 ^ 64) \<and>
     map_option length (F0 p) \<noteq> Some n \<and>
     (\<forall>c. F0 (get_temp_path p) = Some c \<longrightarrow> length c \<le> n)"

lemma disk_length:
  "disk_ok p n F0 \<Longrightarrow> F0 q = Some c \<Longrightarrow> unat (word_of_nat (length c) :: u64) = length c"
  by (intro unat_word_of_nat) (auto simp: disk_ok_def)

lemma start_over_triple:
  "disk_ok p n F0 \<Longrightarrow> triple (\<lambda>F. F = F0) (start_over (get_temp_path p)) (started p n F0) (disk_safe p n F0)"
  unfolding start_over_def
  by (rule triple_weaken, (rule triples)+) (auto simp: started_def disk_safe_def others_same_def)

lemma resume_triple:
  assumes ok: "disk_ok p n F0"
  shows "triple (\<lambda>F. F = F0)
     (resume_from_record p (get_temp_path p) (get_resume_path p) n) (started p n F0) (disk_safe p n F0)"
proof -
  have le: "F0 (get_temp_path p) = Some c \<Longrightarrow> length c \<le> n" for c
    using ok by (simp add: disk_ok_def)
  show ?thesis
    unfolding resume_from_record_def
    by (rule triple_weaken, (rule triples)+)
      (use le in \<open>auto simp: started_def disk_safe_def others_same_def disk_length [OF ok] intro: le_antisym
        split: sum.splits option.splits\<close>)
qed

lemma check_resume_triple:
  assumes ok: "disk_ok p n F0"
  shows "triple (\<lambda>F. F = F0) (check_resume_state p n) (started p n F0) (disk_safe p n F0)"
  unfolding check_resume_state_def Let_def
  by (rule triple_weaken, (rule triples start_over_triple [OF ok] resume_triple [OF ok])+)
    (use ok disk_length [OF ok] in \<open>auto simp: disk_ok_def disk_safe_def others_same_def\<close>)

lemma download_retry_triple:
  "triple (\<lambda>F. E F \<and> (\<forall>a. Q a F)) (download_with_retry bo h off len cfg stats) Q E"
  by (rule triple_net) (auto simp: preserves_def download_with_retry_def dest: download_retry_net)

lemma save_resume_triple [triples]:
  "triple (\<lambda>F. \<forall>F'. (\<forall>q. q \<noteq> get_resume_path p \<longrightarrow> F' q = F q) \<longrightarrow> E F' \<and> Q () F')
     (save_resume_state p k) Q E"
  unfolding save_resume_state_def fs_write_def
  by (rule triple_weaken, (rule triples)+) auto

definition loop_start :: "path \<Rightarrow> disk \<Rightarrow> usize \<Rightarrow> disk \<Rightarrow> bool" where
  "loop_start p F0 off F \<longleftrightarrow> others_same p F0 F \<and> F p = F0 p \<and>
     map_option length (F (get_temp_path p)) = Some off"

lemma store_chunk_triple:
  "triple (loop_start p F0 off) (store_chunk p n cps (AtEnd (get_temp_path p)) d off rep stats)
     (\<lambda>(off', _, _) F. off' = off + length d \<and> loop_start p F0 off' F)
     (\<lambda>F. others_same p F0 F \<and> F p = F0 p)"
  unfolding store_chunk_def Let_def
  by (rule triple_weaken, (rule triples)+)
    (auto simp: loop_start_def others_same_def split: option.splits)

lemma download_loop_triple:
  assumes "off \<le> n"
  shows "triple (loop_start p F0 off)
     (download_loop bo h p scfg dcfg n cps (AtEnd (get_temp_path p)) off rep stats)
     (\<lambda>_. loop_start p F0 n) (\<lambda>F. others_same p F0 F \<and> F p = F0 p)"
proof -
  let ?T = "AtEnd (get_temp_path p)" and ?E = "\<lambda>F. others_same p F0 F \<and> F p = F0 p"
  have start_E: "loop_start p F0 k F \<Longrightarrow> ?E F" for k F by (simp add: loop_start_def)
  have "download_loop bo h p scfg dcfg n cps ?T off rep stats w = (r, w') \<Longrightarrow>
     loop_start p F0 off (files w) \<Longrightarrow> off \<le> n \<Longrightarrow>
     (case r of Inl e \<Rightarrow> ?E (files w') | Inr a \<Rightarrow> loop_start p F0 n (files w'))" for r w w' off rep stats
  proof (induction "length (rx w)" arbitrary: off rep stats w rule: less_induct)
    case less
    let ?size = "next_chunk dcfg (n - off)"
    note unfold = download_loop.simps [of bo h p scfg dcfg n cps ?T off rep stats w]
    obtain r1 w1 where run: "download_with_retry bo h (word_of_nat off) (word_of_nat ?size) scfg stats w = (r1, w1)"
      by fastforce
    have w1: "files w1 = files w"
      using run download_retry_net unfolding download_with_retry_def net_def by metis
    consider "\<not> off < n" | e where "off < n" "r1 = Inl e" | d stats1 where "off < n" "r1 = Inr (d, stats1)"
      by (cases r1) auto
    then show ?case
    proof cases
      case 1
      with less.prems show ?thesis by (auto simp: unfold)
    next
      case 2
      with less.prems run w1 have "r = Inl e \<and> files w' = files w" by (auto simp: unfold Let_def)
      with less.prems(2) start_E show ?thesis by simp
    next
      case 3
      show ?thesis
      proof (cases "length d = ?size")
        case False
        have "triple ?E (bind_io (save_resume_state p off)
            (\<lambda>_. lift_r (Err (incomplete_chunk ?size (length d))))) (\<lambda>_. loop_start p F0 n) ?E"
          by (rule triple_weaken, (rule triples)+) (auto simp: others_same_def)
        from tripleD [OF this, of w1 r w'] show ?thesis
          using less.prems 3 run w1 False start_E by (simp add: unfold Let_def)
      next
        case True
        obtain r2 w2 where st: "store_chunk p n cps ?T d off rep stats1 w1 = (r2, w2)" by fastforce
        have inv: "case r2 of Inl e \<Rightarrow> ?E (files w2)
            | Inr (off', _, _) \<Rightarrow> off' = off + length d \<and> loop_start p F0 off' (files w2)"
          using tripleD [OF store_chunk_triple _ st, of F0] less.prems(2) w1 by (auto split: sum.splits)
        show ?thesis
        proof (cases r2)
          case (Inl e)
          then have "r = Inl e \<and> w' = w2" using less.prems(1) 3 run True st by (simp add: unfold Let_def)
          with inv Inl show ?thesis by simp
        next
          case (Inr a)
          then obtain rep2 stats2 where a: "r2 = Inr (off + length d, rep2, stats2)"
            and inv2: "loop_start p F0 (off + length d) (files w2)"
            using inv by (cases a) auto
          have "length (rx w2) < length (rx w)"
            using run 3 store_chunk_rx [OF st] download_retry_consumes unfolding download_with_retry_def by metis
          moreover have "download_loop bo h p scfg dcfg n cps ?T (off + length d) rep2 stats2 w2 = (r, w')"
            using less.prems(1) 3 run True st a by (simp add: unfold Let_def)
          moreover have "off + length d \<le> n"
            using 3 True by (simp add: next_chunk_def)
          ultimately show ?thesis using inv2 by (intro less.hyps)
        qed
      qed
    qed
  qed
  then show ?thesis
    using assms by (intro tripleI) fastforce+
qed

lemma finish_triple:
  "triple (\<lambda>F. loop_start p F0 n F \<or> others_same p F0 F \<and> F (get_temp_path p) = None \<and> map_option length (F p) = Some n)
     (finish_download p n stats)
     (\<lambda>_ F. others_same p F0 F \<and> map_option length (F p) = Some n \<and> F (get_temp_path p) = None)
     (disk_safe p n F0)"
  unfolding finish_download_def
  by (rule triple_weaken, (rule triples)+) (auto simp: loop_start_def disk_safe_def others_same_def)

lemma read_only_loop: "download_loop bo h p scfg dcfg n cps f n rep stats = ret stats"
  by (rule ext) (simp add: download_loop.simps ret_apply)

lemma download_triple:
  fixes stats :: download_stats
  defines "n \<equiv> unat (total_bytes stats)"
  assumes ok: "disk_ok p n F0"
  shows "triple (\<lambda>F. F = F0) (download_object_with_resume bo h p scfg dcfg stats)
     (\<lambda>_ F. others_same p F0 F \<and> map_option length (F p) = Some n \<and> F (get_temp_path p) = None)
     (disk_safe p n F0)"
  unfolding download_object_eq n_def [symmetric]
proof (rule triple_bind [where mid = "started p n F0"])
  let ?Q = "\<lambda>_ F. others_same p F0 F \<and> map_option length (F p) = Some n \<and> F (get_temp_path p) = None"
  let ?loop = "\<lambda>f off. download_loop bo h p scfg dcfg n (progress_checkpoints dcfg (total_bytes stats)) f off 0
      (stats\<lparr>downloaded_bytes := word_of_nat off\<rparr>)"
  let ?last = "\<lambda>s. bind_io (finish_download p n s) (\<lambda>_. ret s)"
  have fin: "triple (\<lambda>F. loop_start p F0 n F \<or> others_same p F0 F \<and> F (get_temp_path p) = None \<and>
      map_option length (F p) = Some n) (?last s) ?Q (disk_safe p n F0)" for s
    by (rule triple_bind [OF _ finish_triple]) (rule triple_ret)
  show "triple (started p n F0 z) (case z of (off, f) \<Rightarrow> bind_io (?loop f off) ?last) ?Q (disk_safe p n F0)" for z
  proof (cases z)
    case (Pair off f)
    consider "f = AtEnd (get_temp_path p)" "off \<le> n" | "off = n" "f = ReadOnly p" | "\<not> Ex (started p n F0 z)"
      by (auto simp: started_def Pair)
    then show ?thesis
    proof cases
      case 1
      have "triple (started p n F0 z) (?loop f off) (\<lambda>_. loop_start p F0 n) (disk_safe p n F0)"
        unfolding 1(1)
        by (rule triple_conseq [OF download_loop_triple [OF 1(2)]])
          (auto simp: started_def loop_start_def disk_safe_def Pair 1)
      moreover have "triple (loop_start p F0 n) (?last s) ?Q (disk_safe p n F0)" for s
        by (rule triple_weaken [OF fin]) simp
      ultimately show ?thesis
        unfolding Pair prod.case by (rule triple_bind [rotated])
    next
      case 2
      show ?thesis
        unfolding Pair prod.case 2 read_only_loop bind_ret_fun
        by (rule triple_weaken [OF fin]) (auto simp: started_def)
    next
      case 3
      then show ?thesis by (auto simp: triple_def)
    qed
  qed
qed (rule check_resume_triple [OF ok])


text \<open>The disk fails with the fourth call; an earlier version of the photo stays in place.\<close>

definition faulty_disk :: world where
  "faulty_disk = quiet\<lparr>files := [photo \<mapsto> [9, 9]], fs_script := [TxOk, TxOk, TxOk, TxErr 0 zero_timeout_error]\<rparr>"


section \<open>A failed write of the record\<close>

text \<open>
  C29. A disk that fills up while the record is written blocks every later download of the file. The
  write that fails leaves the record empty, and an empty record is an error, not a fresh start:
  with the disk in order again, each further download of any object to this path ends at once
  with \<open>InvalidResumeData\<close>, without a request and without repairing anything.
\<close>

theorem empty_record_blocks:
  assumes "fs_script w = [TxOk, TxOk, TxErr 0 e]" and "files_ok w"
    and "files w (get_temp_path p) = Some c" and "d \<noteq> []" and "length (c @ d) < 2 ^ 64"
    and "map_option length (files w p) \<noteq> Some (unat (total_bytes stats))"
  shows "\<exists>w'. store_chunk p n cps (AtEnd (get_temp_path p)) d (length c) rep st w = (Err (from_io_error e), w') \<and>
     files w' = (files w)(get_temp_path p \<mapsto> c @ d, get_resume_path p \<mapsto> []) \<and>
     download_object_with_resume bo h p scfg dcfg stats w' = (Err InvalidResumeData, w')"
proof -
  let ?T = "get_temp_path p" and ?R = "get_resume_path p"
  have dec: "bytes_of_string (dec k) \<noteq> []" for k
    using digits_rev_ne [of 10 k] by (simp add: dec_def bytes_of_string_def)
  have wr: "file_write_all (AtEnd ?T) d w =
      (Ok (), w\<lparr>files := (files w)(?T \<mapsto> c @ d), fs_script := [TxOk, TxErr 0 e]\<rparr>)"
    using assms(1,3,4) by (simp add: extend_file_def)
  have save: "save_resume_state p k v = (Err (from_io_error e), v\<lparr>files := (files v)(?R \<mapsto> []), fs_script := []\<rparr>)"
    if "fs_script v = [TxOk, TxErr 0 e]" for k v
    using that dec by (simp add: save_resume_state_def fs_write_def file_create_def fs_call_def bind_io_def
        io_try_def extend_file_def)
  obtain w' where st: "store_chunk p n cps (AtEnd ?T) d (length c) rep st w = (Err (from_io_error e), w')"
    and w': "files w' = (files w)(?T \<mapsto> c @ d, ?R \<mapsto> [])" "fs_script w' = []"
    by (cases "find (\<lambda>q. q > rep \<and> length c + length d \<ge> q) cps")
      (auto simp: store_chunk_def Let_def bind_io_def io_try_def ret_apply progress_callback_def wr save
        simp del: file_write_all.simps)
  have ok: "files_ok w'"
    using assms(2,5) by (auto simp: files_ok_def w'(1))
  have "from_utf8 [] = Ok []"
    by (simp add: from_utf8_def string_of_bytes_def)
  moreover have "strip_front ws [] = []" for ws
    by (rule strip_front_id) auto
  then have "parse_usize (trim []) = None"
    by (simp add: trim_def string_of_bytes_def bytes_of_string_def parse_usize_def)
  ultimately have "check_resume_state p (unat (total_bytes stats)) w' = (Err InvalidResumeData, w')"
    using assms(6) by (simp add: check_resume_table [OF w'(2) ok] w'(1) Let_def)
  then have "download_object_with_resume bo h p scfg dcfg stats w' = (Err InvalidResumeData, w')"
    by (simp add: download_object_eq bind_io_Err)
  with st w'(1) show ?thesis by blast
qed

theorem empty_record_blocks_witness:
  "\<exists>w'. store_chunk photo 7 [] (AtEnd (get_temp_path photo)) [3, 4] (length [1, 2 :: u8]) 0 default_download_stats
       (quiet\<lparr>files := [get_temp_path photo \<mapsto> [1, 2]], fs_script := [TxOk, TxOk, TxErr 0 zero_timeout_error]\<rparr>) =
       (Err (from_io_error zero_timeout_error), w') \<and>
     download_object_with_resume utils_byteorder 9 photo default_session_config small_chunks
       (default_download_stats\<lparr>total_bytes := 7\<rparr>) w' = (Err InvalidResumeData, w')"
  using empty_record_blocks [of "quiet\<lparr>files := [get_temp_path photo \<mapsto> [1, 2]],
      fs_script := [TxOk, TxOk, TxErr 0 zero_timeout_error]\<rparr>" zero_timeout_error photo "[1, 2]" "[3, 4]"
      "default_download_stats\<lparr>total_bytes := 7\<rparr>"]
  by (fastforce simp: files_ok_def quiet_def)

section \<open>A record without a name\<close>

lemma starved_loop_fails:
  assumes "rx w = []" and "off < n"
  shows "\<exists>e w'. download_loop bo h p scfg dcfg n cps f off rep stats w = (Err e, w') \<and> files w' = files w"
proof -
  obtain r w1 where run: "download_with_retry bo h (word_of_nat off)
      (word_of_nat (next_chunk dcfg (n - off))) scfg stats w = (r, w1)" by fastforce
  then have "files w1 = files w"
    using download_retry_net unfolding download_with_retry_def net_def by metis
  moreover have "\<exists>e. r = Inl e"
    using run assms(1) by (cases r) (auto simp: download_with_retry_def dest: download_retry_consumes)
  ultimately show ?thesis
    using run assms(2) by (auto simp: download_loop.simps [of _ _ _ _ _ _ _ _ off] Let_def)
qed

text \<open>
  C30. The record of an interrupted download does not say whose bytes it counts. When a download of
  one object is interrupted after its first chunk and another object is then downloaded to the
  same path, the second download resumes behind the bytes of the first and succeeds: the file is
  the beginning of one object and the end of the other.
\<close>

theorem resume_mixes_objects:
  assumes "byteorder_spec bo" and "tx_script w = []" and "fs_script w = []" and "files_ok w"
    and "files w p = None" and "files w (get_temp_path p) = None" and "files w (get_resume_path p) = None"
    and blocks: "blocks \<noteq> []" "list_all (\<lambda>b. b \<noteq> [] \<and> length b < 2 ^ 32) blocks"
    and chunk: "length (concat blocks) = next_chunk dcfg (unat (total_bytes st1))"
      "length (concat blocks) < unat (total_bytes st1)"
    and "rx w = frames (map (data_packet (next_tid w)) blocks @ [data_packet (next_tid w) []])"
    and run: "download_object_with_resume bo h1 p scfg dcfg st1 w = (r1, w1)"
    and w2: "files w2 = files w1" "tx_script w2 = []" "fs_script w2 = []"
    and ds: "fits dcfg (unat (total_bytes st2)) (length (concat blocks)) ds" "ds \<noteq> []"
    and "rx w2 = frames (object_packets (rng w2) (rng_pos w2) ds) @ evs"
  shows "\<not> is_ok r1 \<and> (\<exists>st3 w3. download_object_with_resume bo h2 p scfg dcfg st2 w2 = (Ok st3, w3) \<and>
     files w3 p = Some (concat blocks @ concat (concat ds)))"
proof -
  let ?T = "get_temp_path p" and ?R = "get_resume_path p" and ?d = "concat blocks"
  let ?n = "unat (total_bytes st1)" and ?w0 = "w\<lparr>files := (files w)(get_temp_path p \<mapsto> [])\<rparr>"
  have ne: "?d \<noteq> []" using blocks by (cases blocks) auto
  have start: "check_resume_state p ?n w = (Ok (0, AtEnd ?T), ?w0)"
    using assms(5,7) by (simp add: check_resume_table [OF assms(3,4)] Let_def)
  let ?loop = "\<lambda>off rep st. download_loop bo h1 p scfg dcfg ?n (progress_checkpoints dcfg (total_bytes st1))
      (AtEnd ?T) off rep st"
  obtain rep v where one: "?loop 0 0 (st1\<lparr>downloaded_bytes := word_of_nat 0\<rparr>) ?w0 =
        ?loop (0 + length ?d) rep (stored ?d 0 (st1\<lparr>downloaded_bytes := word_of_nat 0\<rparr>)) v"
    and v: "files v = (files ?w0)(?T \<mapsto> [] @ ?d, ?R \<mapsto> bytes_of_string (dec (0 + length ?d)))" "rx v = frames [] @ []"
    using download_loop_chunk [OF assms(1) _ _ blocks(2), of 0 ?n dcfg ?w0 p "[]" "[]" "[]" h1 scfg
        "progress_checkpoints dcfg (total_bytes st1)" 0 "st1\<lparr>downloaded_bytes := word_of_nat 0\<rparr>"]
      chunk assms(2,3,12) by (auto simp: next_tid_def)
  obtain e v' where "?loop (length ?d) rep (stored ?d 0 (st1\<lparr>downloaded_bytes := word_of_nat 0\<rparr>)) v = (Err e, v')"
    "files v' = files v"
    using starved_loop_fails [of v "length ?d" ?n] v(2) chunk(2) by fastforce
  then have "r1 = Err e \<and> w1 = v'"
    using run one start by (simp add: download_object_eq bind_io_def)
  with v(1) \<open>files v' = files v\<close> have bad: "r1 = Err e"
    and f1: "files w1 = (files w)(?T \<mapsto> ?d, ?R \<mapsto> bytes_of_string (dec (length ?d)))"
    by simp_all
  have len: "length ?d < 2 ^ 64"
    using chunk(2) unat_u64_less [of "total_bytes st1"] by simp
  have ok2: "files_ok w2"
    using assms(4) len dec_short [OF len] by (auto simp: files_ok_def w2 f1)
  have "files w2 p = None"
    and "(files w2 ?T, files w2 ?R) =
      (if ?d = [] then (None, None) else (Some ?d, Some (bytes_of_string (dec (length ?d)))))"
    and "?d = [] \<or> ds \<noteq> []"
    using assms(5) ne ds(2) by (simp_all add: w2 f1 del: concat_eq_Nil_conv)
  note served = download_served [OF assms(1) w2(2,3) ok2 this(1,2) ds(1) this(3) assms(19)]
  obtain st3 w3 where "download_object_with_resume bo h2 p scfg dcfg st2 w2 = (Ok st3, w3)"
    "files w3 = (files w2)(p \<mapsto> ?d @ concat (concat ds), ?T := None, ?R := None)"
    using served [of h2 scfg] by blast
  with bad show ?thesis by auto
qed

definition cut_off :: world where
  "cut_off = quiet\<lparr>rx := frames [data_packet 1 [1, 2, 3, 4], data_packet 1 []]\<rparr>"

definition reconnected :: "world \<Rightarrow> bytes list list \<Rightarrow> world" where
  "reconnected w ds = w\<lparr>tx_script := [], fs_script := [], rx := frames (object_packets (rng w) (rng_pos w) ds)\<rparr>"

theorem resume_mixes_objects_witness:
  "\<exists>r1 w1 st3 w3. download_object_with_resume utils_byteorder 5 photo default_session_config small_chunks
       (default_download_stats\<lparr>total_bytes := 7\<rparr>) cut_off = (r1, w1) \<and> \<not> is_ok r1 \<and>
     download_object_with_resume utils_byteorder 6 photo default_session_config small_chunks
       (default_download_stats\<lparr>total_bytes := 6\<rparr>) (reconnected w1 [[[8, 9]]]) = (Ok st3, w3) \<and>
     files w3 photo = Some [1, 2, 3, 4, 8, 9]"
proof -
  obtain r1 w1 where run: "download_object_with_resume utils_byteorder 5 photo default_session_config small_chunks
       (default_download_stats\<lparr>total_bytes := 7\<rparr>) cut_off = (r1, w1)" by fastforce
  have "\<not> is_ok r1 \<and> (\<exists>st3 w3. download_object_with_resume utils_byteorder 6 photo default_session_config small_chunks
       (default_download_stats\<lparr>total_bytes := 6\<rparr>) (reconnected w1 [[[8, 9]]]) = (Ok st3, w3) \<and>
     files w3 photo = Some (concat [[1, 2, 3, 4]] @ concat (concat [[[8, 9]]])))"
    by (rule resume_mixes_objects [OF utils_byteorder_spec, where w = cut_off and evs = "[]"])
      (use run in \<open>simp_all add: cut_off_def reconnected_def files_ok_def quiet_def small_chunks_def next_chunk_def
        default_download_stats_def next_tid_def\<close>)
  with run show ?thesis by auto
qed

end
