(* ===== verification/Download_Photo.thy ===== *)
theory Download_Photo
  imports Download_Facts
begin

text \<open>
  \<open>CameraClient::download_photo\<close> of \<open>src/commands.rs\<close> from end to end: the exchange that asks for the
  size of the object, the chunked download of so many bytes, and the statistics that are returned.
  Also, how long the waits of such an exchange may take.
\<close>

section \<open>A photo, end to end\<close>

text \<open>
  C5. A photo reaches the disk: when the camera answers the object-information request with a record
  that parses and then serves the ranges asked for, \<open>download_photo\<close> sends one command for the
  information and one for each chunk, under consecutive transactions, stores exactly the bytes
  that the camera sent behind those of an earlier attempt, leaves no helper file, and reports
  the size of the record, the number of chunks and the elapsed milliseconds.
\<close>

theorem photo_delivered:
  assumes bo: "byteorder_spec bo" and info: "serves w q (object_packets (rng w) (Suc (rng_pos w)) ds) evs"
      "parse_object_info (payload q) h = Ok obj"
    and disk: "fs_script w = []" "files_ok w" "files w p = None"
      "(files w (get_temp_path p), files w (get_resume_path p)) =
        (if c = [] then (None, None) else (Some c, Some (bytes_of_string (dec (length c)))))"
    and ds: "fits dcfg (unat (object_size obj)) (length c) ds" "c = [] \<or> ds \<noteq> []"
  shows "\<exists>w'. client_download_photo bo cl h p dcfg w =
       (Ok \<lparr>total_bytes = object_size obj, downloaded_bytes = object_size obj, chunks = length ds, retries = 0,
            duration_ms = word_of_nat ((clock w' - clock w) div 1000000)\<rparr>, w') \<and>
     files w' = (files w)(p \<mapsto> c @ concat (concat ds), get_temp_path p := None, get_resume_path p := None) \<and>
     tx w' = tx w @ wire_out (command_packet (opcode GetObjectInfo) (next_tid w) (write_u32_be h)) @
       chunk_requests (rng w) (Suc (rng_pos w)) h (length c) ds \<and> rx w' = evs"
proof -
  let ?w1 = "after_exchange w (opcode GetObjectInfo) (write_u32_be h) (object_packets (rng w) (Suc (rng_pos w)) ds) evs"
  let ?st = "default_download_stats\<lparr>total_bytes := object_size obj\<rparr>"
  have ask: "client_get_object_info bo cl h w = (Ok obj, ?w1)"
    unfolding client_exchange [OF bo]
    using xchg.call_served [OF bo info(1), of "write_u32_be h" "cl_config cl" "opcode GetObjectInfo"] info(2)
    by (simp add: bind_io_def lift_r_apply)
  have clean: "tx_script ?w1 = []"
    using info(1) by (simp add: after_exchange_def serves_def replies_def)
  have w1: "fs_script ?w1 = []" "files ?w1 = files w" "files_ok ?w1" "rng ?w1 = rng w"
    "rng_pos ?w1 = Suc (rng_pos w)"
    "rx ?w1 = frames (object_packets (rng ?w1) (rng_pos ?w1) ds) @ evs"
    using disk by (simp_all add: after_exchange_def files_ok_def)
  have start: "(files ?w1 (get_temp_path p), files ?w1 (get_resume_path p)) =
      (if c = [] then (None, None) else (Some c, Some (bytes_of_string (dec (length c)))))"
    and "files ?w1 p = None" and fits: "fits dcfg (unat (total_bytes ?st)) (length c) ds"
    using disk ds w1(2) by simp_all
  note served = download_served [OF bo clean w1(1,3) \<open>files ?w1 p = None\<close> start fits ds(2) w1(6)]
  obtain w' where run: "download_object_with_resume bo h p (cl_config cl) dcfg ?st ?w1 =
      (Ok (?st\<lparr>downloaded_bytes := total_bytes ?st, chunks := chunks ?st + length ds\<rparr>), w')"
    and w': "files w' = (files ?w1)(p \<mapsto> c @ concat (concat ds), get_temp_path p := None, get_resume_path p := None)"
      "tx w' = tx ?w1 @ chunk_requests (rng ?w1) (rng_pos ?w1) h (length c) ds" "rx w' = evs"
    using served [of h "cl_config cl"] by blast
  have "client_download_photo bo cl h p dcfg w =
      (Ok (?st\<lparr>downloaded_bytes := object_size obj, chunks := length ds,
         duration_ms := word_of_nat ((clock w' - clock w) div 1000000)\<rparr>), w')"
    using run by (simp add: client_download_photo_def Let_def bind_io_def ask default_download_stats_def)
  with w' show ?thesis
    by (intro exI [of _ w']) (simp add: after_exchange_def default_download_stats_def)
qed

definition a_photo :: object_info where
  "a_photo = \<lparr>obj_handle = 9, obj_storage_id = 1, object_format = 0x3801, protection_status = 0,
     object_size = 7, thumb_size = 20, filename = ''a.jpg'', capture_date = [], modification_date = [],
     obj_keywords = []\<rparr>"

definition photo_reply :: packet where
  "photo_reply = \<lparr>pkt_type = ResponseBlock, pkt_tid = 1,
     payload = object_info_wire [0, 0, 0x20, 0x01, 0, 0, 0, 0] 0 a_photo\<rparr>"

definition photo_camera :: world where
  "photo_camera = quiet\<lparr>rx := frames (photo_reply #
     object_packets (\<lambda>n. word_of_nat n) 2 [[[1, 2, 3, 4]], [[5, 6], [7]]])\<rparr>"

lemma photo_reply_parsed: "parse_object_info (payload photo_reply) 9 = Ok a_photo"
  using object_info_roundtrip [where hdr = "[0, 0, 0x20, 0x01, 0, 0, 0, 0]" and pad = 0 and i = a_photo]
  by (simp add: photo_reply_def a_photo_def object_strings_def wire_string_def valid_str_def
      bytes_of_string_def utf8_check_ascii object_info_wire_def del: utf8_check.simps)

lemma photo_camera_serves:
  "serves photo_camera photo_reply (object_packets (rng photo_camera) (Suc (rng_pos photo_camera))
     [[[1, 2, 3, 4]], [[5, 6], [7]]]) []"
proof -
  have "length (payload photo_reply) = 65"
    by (simp add: photo_reply_def object_info_wire_def a_photo_def object_strings_def bytes_of_string_def)
  then have ok: "receivable photo_reply" and "8 \<le> length (payload photo_reply)"
    by (simp_all add: receivable.simps photo_reply_def)
  moreover have "take 2 (drop 2 (payload photo_reply)) = write_u16_be (opcode OpOk)"
    by (simp add: photo_reply_def object_info_wire_def write_u16_be_def)
  moreover have "replies photo_camera photo_reply (object_packets (rng photo_camera)
      (Suc (rng_pos photo_camera)) [[[1, 2, 3, 4]], [[5, 6], [7]]]) []"
    unfolding replies_def using ok
    by (intro conjI exI [of _ "[]"])
      (simp_all add: photo_camera_def quiet_def next_tid_def answers_def photo_reply_def receivable.simps
        del: frames_simps)
  ultimately show ?thesis by (simp add: serves_def)
qed

theorem photo_delivered_witness:
  "\<exists>w'. client_download_photo utils_byteorder a_client 9 photo small_chunks photo_camera =
     (Ok \<lparr>total_bytes = 7, downloaded_bytes = 7, chunks = 2, retries = 0,
          duration_ms = word_of_nat (clock w' div 1000000)\<rparr>, w') \<and>
     files w' photo = Some [1, 2, 3, 4, 5, 6, 7]"
proof -
  have "files_ok photo_camera" "fs_script photo_camera = []" "files photo_camera = (\<lambda>_. None)"
    "clock photo_camera = 0"
    by (simp_all add: photo_camera_def quiet_def files_ok_def)
  moreover have "fits small_chunks (unat (object_size a_photo)) (length ([] :: bytes)) [[[1, 2, 3, 4]], [[5, 6], [7]]]"
    by (simp add: a_photo_def small_chunks_def next_chunk_def)
  ultimately show ?thesis
    using photo_delivered [OF utils_byteorder_spec photo_camera_serves photo_reply_parsed, of photo "[]"
        small_chunks a_client]
    by (fastforce simp: a_photo_def)
qed

section \<open>How long a wait takes\<close>

text \<open>Packets that arrive one by one, each after a pause.\<close>

definition spaced :: "nat \<Rightarrow> packet list \<Rightarrow> rx_event list" where
  "spaced d ps = concat (map (\<lambda>p. RxDelay d # rx_bytes (wire_in p)) ps)"

lemma recv_packet_delayed:
  assumes "byteorder_spec bo" and "receivable p" and "rx w = RxDelay d # rx_bytes (wire_in p) @ evs"
  shows "recv_packet bo w = (Ok p, w\<lparr>rx := evs, clock := clock w + d\<rparr>)"
proof -
  let ?w1 = "w\<lparr>rx := rx_bytes (wire_in p) @ evs, clock := clock w + d\<rparr>"
  have "stream_read_exact 2 w = stream_read_exact 2 ?w1"
    using assms(3) by (simp add: stream_read_exact_def numeral_2_eq_2)
  then have "recv_packet bo w = recv_packet bo ?w1"
    by (simp add: recv_packet_def bind_io_def io_try_def)
  also have "\<dots> = (Ok p, ?w1\<lparr>rx := evs\<rparr>)"
    using recv_packet_frame [OF assms(1,2), of ?w1 "[]" evs] by simp
  finally show ?thesis by simp
qed

text \<open>
  C9. The configured timeout does not bound the wait for a response: every response to another
  transaction starts a new wait. After any number of such responses, each \<open>d\<close> after the one before,
  the call still succeeds when its own response comes, by then \<open>d\<close> times their number later, whatever
  the timeout.
\<close>

theorem waits_add_up:
  assumes "byteorder_spec bo"
    and "\<forall>p \<in> set ps. receivable p \<and> pkt_type p = ResponseBlock \<and> pkt_tid p \<noteq> tid"
    and "receivable q" and "answers tid q" and "check_response_error q = Ok ()"
    and "rx w = spaced d ps @ rx_bytes (wire_in q) @ evs"
  shows "get_response bo tid cfg w = (Ok q, w\<lparr>rx := evs, clock := clock w + length ps * d\<rparr>)"
  using assms(2,6)
proof (induction ps arbitrary: w)
  case Nil
  then have "recv_packet bo w = (Ok q, w\<lparr>rx := evs\<rparr>)"
    using recv_packet_frame [OF assms(1,3), of w "[]" evs] by (simp add: spaced_def)
  then have "recv_packet_filtered bo (Some ResponseBlock) cfg w = (Ok q, w\<lparr>rx := evs\<rparr>)"
    using assms(4) by (simp add: recv_packet_filtered_def recv_filter_loop.simps [of _ _ _ _ w] answers_def)
  then show ?case
    using assms(4,5) by (simp add: get_response.simps [of bo tid cfg w] answers_def)
next
  case (Cons p ps)
  let ?w1 = "w\<lparr>rx := spaced d ps @ rx_bytes (wire_in q) @ evs, clock := clock w + d\<rparr>"
  have "recv_packet bo w = (Ok p, ?w1)"
    using Cons.prems by (intro recv_packet_delayed [OF assms(1)]) (simp_all add: spaced_def)
  then have "recv_packet_filtered bo (Some ResponseBlock) cfg w = (Ok p, ?w1)"
    using Cons.prems(1) by (simp add: recv_packet_filtered_def recv_filter_loop.simps [of _ _ _ _ w])
  moreover have "get_response bo tid cfg ?w1 = (Ok q, ?w1\<lparr>rx := evs, clock := clock ?w1 + length ps * d\<rparr>)"
    using Cons.prems by (intro Cons.IH) simp_all
  ultimately show ?case
    using Cons.prems(1) by (simp add: get_response.simps [of bo tid cfg w] ac_simps)
qed

text \<open>Three foreign responses, twenty seconds apart, under the default timeout of 30 seconds.\<close>

theorem waits_add_up_witness:
  "get_response utils_byteorder 1 default_session_config
     (quiet\<lparr>rx := spaced 20000000000 (replicate 3 (ok_reply 2 [])) @ rx_bytes (wire_in (ok_reply 1 []))\<rparr>) =
   (Ok (ok_reply 1 []), quiet\<lparr>clock := 60000000000\<rparr>)"
proof -
  have props: "receivable (ok_reply t [])" "pkt_type (ok_reply t []) = ResponseBlock" "pkt_tid (ok_reply t []) = t" for t
    by (simp_all add: ok_reply_def receivable.simps)
  show ?thesis
    using waits_add_up [OF utils_byteorder_spec, of "replicate 3 (ok_reply 2 [])" 1 "ok_reply 1 []"
        "quiet\<lparr>rx := spaced 20000000000 (replicate 3 (ok_reply 2 [])) @ rx_bytes (wire_in (ok_reply 1 []))\<rparr>"
        20000000000 "[]" default_session_config] props
    by (simp add: answers_def) (simp add: quiet_def)
qed

end
