(* ===== verification/Build_Script.thy ===== *)
theory Build_Script
  imports Types Files
begin

text \<open>
  \<open>src/build.rs\<close>, which Cargo runs before it compiles the crate: it writes a file of protocol constants
  to the directory that the variable \<open>OUT_DIR\<close> names, and prints directives for Cargo. The environment
  holds the variable, the files by the text of their path, the outcome of the write, and what was
  printed. \<open>Panicked\<close> carries the text given to \<open>expect\<close>, without the error that is appended to it.
  No source of the crate includes the generated file; \<open>generated_constants_agree\<close> compares its
  constants with the definitions of \<open>src/types.rs\<close> that the crate uses instead.
\<close>

section \<open>The text\<close>

definition utf8 :: "bytes \<Rightarrow> string" where
  "utf8 = string_of_bytes"

text \<open>The raw string of \<open>generate_protocol_constants\<close>, line by line.\<close>

definition constants_lines :: "string list" where
  "constants_lines =
     [
      [],
      ''        // '' @ utf8 [0xE8, 0x87, 0xAA, 0xE5, 0x8A, 0xA8, 0xE7, 0x94, 0x9F, 0xE6, 0x88,
        0x90, 0xE7, 0x9A, 0x84] @ '' PTP/IP '' @ utf8 [0xE5, 0x8D, 0x8F, 0xE8, 0xAE, 0xAE, 0xE5,
        0xB8, 0xB8, 0xE9, 0x87, 0x8F],
      ''        // '' @ utf8 [0xE7, 0x94, 0xB1] @ '' build.rs '' @ utf8 [0xE7, 0x94, 0x9F, 0xE6,
        0x88, 0x90, 0xEF, 0xBC, 0x8C, 0xE4, 0xB8, 0x8D, 0xE8, 0xA6, 0x81, 0xE6, 0x89, 0x8B, 0xE5,
        0x8A, 0xA8, 0xE4, 0xBF, 0xAE, 0xE6, 0x94, 0xB9],
      ''        '',
      ''        /// PTP/IP '' @ utf8 [0xE5, 0x8D, 0x8F, 0xE8, 0xAE, 0xAE, 0xE7, 0x89, 0x88, 0xE6,
        0x9C, 0xAC],
      ''        pub const PTPIP_VERSION: u16 = 0x0100;'',
      ''        '',
      ''        /// '' @ utf8 [0xE6, 0xA0, 0x87, 0xE5, 0x87, 0x86] @ '' PTP '' @ utf8 [0xE6, 0x93,
        0x8D, 0xE4, 0xBD, 0x9C, 0xE7, 0xA0, 0x81, 0xE8, 0x8C, 0x83, 0xE5, 0x9B, 0xB4],
      ''        pub const PTP_OPCODE_MIN: u16 = 0x1000;'',
      ''        pub const PTP_OPCODE_MAX: u16 = 0x1FFF;'',
      ''        '',
      ''        /// PTP '' @ utf8 [0xE5, 0x93, 0x8D, 0xE5, 0xBA, 0x94, 0xE7, 0xA0, 0x81, 0xE8,
        0x8C, 0x83, 0xE5, 0x9B, 0xB4],
      ''        pub const PTP_RESPONSE_MIN: u16 = 0x2000;'',
      ''        pub const PTP_RESPONSE_MAX: u16 = 0x2FFF;'',
      ''        '',
      ''        /// PTP '' @ utf8 [0xE4, 0xBA, 0x8B, 0xE4, 0xBB, 0xB6, 0xE7, 0xA0, 0x81, 0xE8,
        0x8C, 0x83, 0xE5, 0x9B, 0xB4],
      ''        pub const PTP_EVENT_MIN: u16 = 0x4000;'',
      ''        pub const PTP_EVENT_MAX: u16 = 0x4FFF;'',
      ''    '']"

fun join_lines :: "string list \<Rightarrow> string" where
  "join_lines [] = []"
| "join_lines [l] = l"
| "join_lines (l # ls) = l @ [CHR 0x0A] @ join_lines ls"

section \<open>The script\<close>

record build_env =
  OUT_DIR :: "string option"
  outputs :: "string \<Rightarrow> string option"
  write_error :: "io_error option"
  printed :: "string list"

datatype outcome = Completed | Panicked string

definition path_join :: "string \<Rightarrow> string \<Rightarrow> string" where
  "path_join dir name = (if dir = [] \<or> last dir = CHR ''/'' then dir @ name else dir @ ''/'' @ name)"

definition println :: "string \<Rightarrow> build_env \<Rightarrow> build_env" where
  "println l b = b\<lparr>printed := printed b @ [l]\<rparr>"

definition generate_protocol_constants :: "build_env \<Rightarrow> outcome \<times> build_env" where
  "generate_protocol_constants b =
     (case OUT_DIR b of
        None \<Rightarrow> (Panicked (''OUT_DIR '' @ utf8 [0xE7, 0x8E, 0xAF, 0xE5, 0xA2, 0x83, 0xE5, 0x8F, 0x98, 0xE9, 0x87, 0x8F, 0xE6, 0x9C, 0xAA, 0xE8, 0xAE, 0xBE, 0xE7, 0xBD, 0xAE]), b)
      | Some out_dir \<Rightarrow>
          let dest_path = path_join out_dir ''protocol_constants.rs'' in
          case write_error b of
            Some e \<Rightarrow> (Panicked (utf8 [0xE6, 0x97, 0xA0, 0xE6, 0xB3, 0x95, 0xE5, 0x86, 0x99, 0xE5, 0x85, 0xA5, 0xE5, 0x8D, 0x8F, 0xE8, 0xAE, 0xAE, 0xE5, 0xB8, 0xB8, 0xE9, 0x87, 0x8F, 0xE6, 0x96, 0x87, 0xE4, 0xBB, 0xB6]), b)
          | None \<Rightarrow>
              (Completed,
               println (''cargo:rustc-env=PROTOCOL_CONSTANTS_FILE='' @ to_string_lossy dest_path)
                 (b\<lparr>outputs := (outputs b)(dest_path \<mapsto> join_lines constants_lines)\<rparr>)))"

definition build_main :: "build_env \<Rightarrow> outcome \<times> build_env" where
  "build_main b =
     (case generate_protocol_constants b of
        (Panicked m, b) \<Rightarrow> (Panicked m, b)
      | (Completed, b) \<Rightarrow>
          (Completed, println ''cargo:rerun-if-env-changed=PTPIP_DEBUG''
             (println ''cargo:rerun-if-changed=build.rs'' b)))"

section \<open>What it generates\<close>

definition protocol_constants :: "(string \<times> u16) list" where
  "protocol_constants =
     [(''PTPIP_VERSION'', 0x0100), (''PTP_OPCODE_MIN'', 0x1000), (''PTP_OPCODE_MAX'', 0x1FFF),
      (''PTP_RESPONSE_MIN'', 0x2000), (''PTP_RESPONSE_MAX'', 0x2FFF),
      (''PTP_EVENT_MIN'', 0x4000), (''PTP_EVENT_MAX'', 0x4FFF)]"

definition const_line :: "string \<times> u16 \<Rightarrow> string" where
  "const_line = (\<lambda>(name, v).
     replicate 8 (CHR '' '') @ ''pub const '' @ name @ '': u16 = 0x'' @ hex_pad 4 (unat v) @ '';'')"

definition declares :: "string \<Rightarrow> string \<times> u16 \<Rightarrow> bool" where
  "declares code c \<longleftrightarrow> (\<exists>pre post. code = pre @ [CHR 0x0A] @ const_line c @ [CHR 0x0A] @ post)"

definition in_range :: "string \<Rightarrow> u16 \<Rightarrow> bool" where
  "in_range kind code =
     (case (map_of protocol_constants (kind @ ''_MIN''), map_of protocol_constants (kind @ ''_MAX'')) of
        (Some lo, Some hi) \<Rightarrow> lo \<le> code \<and> code \<le> hi
      | _ \<Rightarrow> False)"

lemma join_lines_append:
  "a \<noteq> [] \<Longrightarrow> b \<noteq> [] \<Longrightarrow> join_lines (a @ b) = join_lines a @ [CHR 0x0A] @ join_lines b"
proof (induction a rule: join_lines.induct)
  case (2 l)
  then show ?case by (cases b) simp_all
qed simp_all

lemma line_declared:
  assumes "lines = a @ const_line c # b" and "a \<noteq> []" and "b \<noteq> []"
  shows "declares (join_lines lines) c"
proof -
  have "join_lines lines = join_lines a @ [CHR 0x0A] @ const_line c @ [CHR 0x0A] @ join_lines b"
    using join_lines_append [of a "[const_line c] @ b"] join_lines_append [of "[const_line c]" b] assms by simp
  then show ?thesis unfolding declares_def by blast
qed

lemma hex_values:
  "hex_pad 4 0x0100 = ''0100''" "hex_pad 4 0x1000 = ''1000''" "hex_pad 4 0x1FFF = ''1FFF''"
  "hex_pad 4 0x2000 = ''2000''" "hex_pad 4 0x2FFF = ''2FFF''"
  "hex_pad 4 0x4000 = ''4000''" "hex_pad 4 0x4FFF = ''4FFF''"
  by (simp_all add: hex_pad_def digits_rev.simps digit_char_def Let_def char_of_eq_iff)

lemma const_line_eq:
  "const_line (name, v) = ''        pub const '' @ name @ '': u16 = 0x'' @ hex_pad 4 (unat v) @ '';''"
  by (simp add: const_line_def numeral_eq_Suc)

lemma const_lines:
  "list_all (\<lambda>c. const_line c \<in> set (butlast (tl constants_lines))) protocol_constants"
proof -
  have "list_all (\<lambda>c. const_line c \<in> set
     [''        pub const PTPIP_VERSION: u16 = 0x0100;'', ''        pub const PTP_OPCODE_MIN: u16 = 0x1000;'',
      ''        pub const PTP_OPCODE_MAX: u16 = 0x1FFF;'', ''        pub const PTP_RESPONSE_MIN: u16 = 0x2000;'',
      ''        pub const PTP_RESPONSE_MAX: u16 = 0x2FFF;'', ''        pub const PTP_EVENT_MIN: u16 = 0x4000;'',
      ''        pub const PTP_EVENT_MAX: u16 = 0x4FFF;'']) protocol_constants"
    by (simp add: protocol_constants_def const_line_eq hex_values)
  then show ?thesis
    by (rule list.pred_mono_strong) (auto simp: constants_lines_def)
qed

lemma all_declared: "c \<in> set protocol_constants \<Longrightarrow> declares (join_lines constants_lines) c"
proof -
  assume "c \<in> set protocol_constants"
  then have "const_line c \<in> set (butlast (tl constants_lines))"
    using const_lines by (simp add: list_all_iff)
  then obtain a b where "butlast (tl constants_lines) = a @ const_line c # b"
    by (auto dest: split_list)
  moreover have "constants_lines = [] # butlast (tl constants_lines) @ [last constants_lines]"
    by (simp add: constants_lines_def)
  ultimately have "constants_lines = ([] # a) @ const_line c # (b @ [last constants_lines])"
    by simp
  then show ?thesis by (rule line_declared) simp_all
qed

text \<open>
  C37. The file that the build script generates declares the constants that the crate lives by: when the
  script runs through, its only output is the one file, each of the seven constants is declared
  on a line of it, every operation code and every event code of \<open>types.rs\<close> lies in the declared
  range of its kind, \<open>is_response_opcode\<close> accepts exactly the declared response range, and the
  default configuration speaks the declared version.
\<close>

theorem generated_constants_agree:
  assumes "OUT_DIR b = Some d" and "write_error b = None"
  shows "\<exists>code b'. build_main b = (Completed, b') \<and>
     outputs b' = (outputs b)(path_join d ''protocol_constants.rs'' \<mapsto> code) \<and>
     list_all (declares code) protocol_constants \<and>
     in_range (if is_response_opcode (opcode op) then ''PTP_RESPONSE'' else ''PTP_OPCODE'') (opcode op) \<and>
     in_range ''PTP_EVENT'' (event_code ev) \<and>
     is_response_opcode c = in_range ''PTP_RESPONSE'' c \<and>
     map_of protocol_constants ''PTPIP_VERSION'' = Some (version default_session_config)"
proof -
  have "list_all (declares (join_lines constants_lines)) protocol_constants"
    using all_declared by (simp add: list_all_iff)
  moreover have "in_range (if is_response_opcode (opcode op) then ''PTP_RESPONSE'' else ''PTP_OPCODE'') (opcode op)"
    by (cases op) (simp_all add: is_response_opcode_def in_range_def protocol_constants_def)
  moreover have "in_range ''PTP_EVENT'' (event_code ev)"
    by (cases ev) (simp_all add: in_range_def protocol_constants_def)
  moreover have "is_response_opcode c = in_range ''PTP_RESPONSE'' c"
    by (simp add: is_response_opcode_def in_range_def protocol_constants_def)
  ultimately show ?thesis
    using assms by (auto simp: build_main_def generate_protocol_constants_def println_def Let_def
        protocol_constants_def default_session_config_def)
qed

theorem generated_constants_agree_witness:
  "\<exists>code b'. build_main \<lparr>OUT_DIR = Some ''/out'', outputs = (\<lambda>_. None), write_error = None, printed = []\<rparr> =
       (Completed, b') \<and>
     outputs b' ''/out/protocol_constants.rs'' = Some code \<and> list_all (declares code) protocol_constants \<and>
     in_range ''PTP_OPCODE'' 0x101B"
proof -
  let ?b = "\<lparr>OUT_DIR = Some ''/out'', outputs = (\<lambda>_. None), write_error = None, printed = []\<rparr>"
  obtain code b' where "build_main ?b = (Completed, b')"
    "outputs b' = (outputs ?b)(path_join ''/out'' ''protocol_constants.rs'' \<mapsto> code)"
    "list_all (declares code) protocol_constants"
    "in_range (if is_response_opcode (opcode GetPartialObject) then ''PTP_RESPONSE'' else ''PTP_OPCODE'')
       (opcode GetPartialObject)"
    using generated_constants_agree [of ?b "''/out''" GetPartialObject ObjectAdded 0] by auto
  then show ?thesis
    by (intro exI [of _ code] exI [of _ b']) (simp add: path_join_def is_response_opcode_def)
qed

end
