(* ===== verification/Parsed_Strings.thy ===== *)
theory Parsed_Strings
  imports Commands_Facts
begin

text \<open>
  What Rust's \<open>String\<close> type promises, for the strings that \<open>src/transport.rs\<close> and \<open>src/commands.rs\<close> take
  from a response.
\<close>

text \<open>A string taken from \<open>data\<close>: well-formed UTF-8, without NUL, no longer than the data.\<close>

definition string_from :: "bytes \<Rightarrow> string \<Rightarrow> bool" where
  "string_from data s \<longleftrightarrow> wire_string s \<and> length s \<le> length data"

lemma extract_string_from: "extract_string data off len = Ok s \<Longrightarrow> string_from data s"
proof -
  assume ok: "extract_string data off len = Ok s"
  then have "s = string_of_bytes (takeWhile (\<lambda>b. b \<noteq> 0) (take len (drop off data)))"
    by (auto simp: extract_string_def from_utf8_def bind_r_eq_Ok split: if_splits)
  moreover have "length (takeWhile (\<lambda>b. b \<noteq> 0) (take len (drop off data))) \<le> length data"
    by (rule order_trans [OF length_takeWhile_le]) simp
  ultimately show ?thesis
    using extract_string_Ok_bounds [OF ok] by (simp add: string_from_def wire_string_def string_of_bytes_def)
qed

text \<open>
  C35. The strings that the parsers return are values of Rust's type: whatever bytes the camera
  sends, each string of the device, storage and object information is well-formed UTF-8, ends
  before the first NUL, and is no longer than the response.
\<close>

theorem parsed_strings_wellformed:
  "(case parse_device_info data of
      Inl e \<Rightarrow> True | Inr i \<Rightarrow> list_all (string_from data) (device_strings i)) \<and>
   (case parse_storage_info bo data of
      Inl e \<Rightarrow> True | Inr i \<Rightarrow> list_all (string_from data) (storage_strings i)) \<and>
   (case parse_object_info data h of
      Inl e \<Rightarrow> True | Inr i \<Rightarrow> list_all (string_from data) (object_strings i))"
proof (intro conjI)
  show "case parse_device_info data of Inl e \<Rightarrow> True | Inr i \<Rightarrow> list_all (string_from data) (device_strings i)"
    by (auto simp: parse_device_info_def bind_r_eq_Ok device_strings_def split: sum.splits if_splits
        dest: extract_string_from)
  show "case parse_storage_info bo data of Inl e \<Rightarrow> True | Inr i \<Rightarrow> list_all (string_from data) (storage_strings i)"
    by (auto simp: parse_storage_info_def bind_r_eq_Ok storage_strings_def split: sum.splits if_splits
        dest: extract_string_from)
  show "case parse_object_info data h of Inl e \<Rightarrow> True | Inr i \<Rightarrow> list_all (string_from data) (object_strings i)"
    by (auto simp: parse_object_info_def bind_r_eq_Ok object_strings_def split: sum.splits if_splits
        dest: extract_string_from)
qed

end
