(* ===== verification/Session.thy ===== *)
theory Session
  imports Client_Facts
begin

text \<open>
  \<open>src/session.rs\<close>: the \<open>Session\<close> object, its heartbeat, its own parsers and \<open>Drop\<close>. A method takes
  the session and the world of its stream and returns both, also when it fails. \<open>Instant\<close> is the
  world's clock. The error texts of this module are Chinese; they are given by their UTF-8 bytes.
\<close>

record session =
  sess_config :: session_config
  sess_id :: u32
  last_activity :: nat
  sess_tid :: u32
  connected :: bool

type_synonym 'a session_op = "session \<Rightarrow> world \<Rightarrow> (ptpip_error + 'a) \<times> session \<times> world"

definition msg_storage_short :: string where
  "msg_storage_short = string_of_bytes
     [0xE5, 0xAD, 0x98, 0xE5, 0x82, 0xA8, 0x20, 0x49, 0x44, 0x20, 0xE5, 0x88, 0x97, 0xE8,
      0xA1, 0xA8, 0xE6, 0x95, 0xB0, 0xE6, 0x8D, 0xAE, 0xE9, 0x95, 0xBF, 0xE5, 0xBA, 0xA6,
      0xE4, 0xB8, 0x8D, 0xE8, 0xB6, 0xB3]"

definition msg_storage_cut :: string where
  "msg_storage_cut = string_of_bytes
     [0xE5, 0xAD, 0x98, 0xE5, 0x82, 0xA8, 0x20, 0x49, 0x44, 0x20, 0xE6, 0x95, 0xB0, 0xE6,
      0x8D, 0xAE, 0xE4, 0xB8, 0x8D, 0xE5, 0xAE, 0x8C, 0xE6, 0x95, 0xB4]"

definition msg_open_short :: string where
  "msg_open_short = string_of_bytes
     [0x4F, 0x70, 0x65, 0x6E, 0x53, 0x65, 0x73, 0x73, 0x69, 0x6F, 0x6E, 0x20, 0xE5, 0x93,
      0x8D, 0xE5, 0xBA, 0x94, 0xE6, 0x95, 0xB0, 0xE6, 0x8D, 0xAE, 0xE4, 0xB8, 0x8D, 0xE8,
      0xB6, 0xB3]"

section \<open>Methods\<close>

text \<open>\<open>bind_m\<close> is \<open>?\<close> inside a method; \<open>on_stream\<close> runs an operation of the stream.\<close>

definition bind_m :: "'a session_op \<Rightarrow> ('a \<Rightarrow> 'b session_op) \<Rightarrow> 'b session_op" where
  "bind_m m f s w = (case m s w of (Inl e, s', w') \<Rightarrow> (Inl e, s', w') | (Inr a, s', w') \<Rightarrow> f a s' w')"

definition on_stream :: "(session_config \<Rightarrow> ('a, ptpip_error) io) \<Rightarrow> 'a session_op" where
  "on_stream m s w = (case m (sess_config s) w of (r, w') \<Rightarrow> (r, s, w'))"

definition pure_m :: "ptpip_error + 'a \<Rightarrow> 'a session_op" where
  "pure_m r s w = (r, s, w)"

definition session_id_of :: "session \<Rightarrow> u32" where
  "session_id_of s = sess_id s"

definition session_is_connected :: "session \<Rightarrow> bool" where
  "session_is_connected s = connected s"

definition update_activity :: "unit session_op" where
  "update_activity s w = (Ok (), s\<lparr>last_activity := clock w\<rparr>, w)"

definition send_heartbeat :: "byteorder \<Rightarrow> unit session_op" where
  "send_heartbeat bo =
     bind_m (on_stream (\<lambda>_. generate_transaction_id)) (\<lambda>transaction_id.
     bind_m (on_stream (send_command bo (opcode GetDeviceInfo) transaction_id [])) (\<lambda>_.
     bind_m (on_stream (get_response bo transaction_id)) (\<lambda>_.
     bind_m update_activity (\<lambda>_.
     pure_m (Ok ())))))"

definition check_heartbeat :: "byteorder \<Rightarrow> unit session_op" where
  "check_heartbeat bo s w =
     (if connected s \<and> clock w - last_activity s > duration_from_secs (cfg_timeout (sess_config s) div 2)
      then bind_m (send_heartbeat bo) (\<lambda>_. pure_m (Ok ())) s w
      else (Ok (), s, w))"

text \<open>The loop \<open>for i in 0..count\<close>: \<open>left\<close> turns remain, the next one is turn \<open>i\<close>.\<close>

fun storage_ids_from :: "bytes \<Rightarrow> nat \<Rightarrow> nat \<Rightarrow> ptpip_error + u32 list" where
  "storage_ids_from data i 0 = Ok []"
| "storage_ids_from data i (Suc left) =
     (let start = 2 + i * 4 in
      if start + 4 > length data then Err (ProtocolError msg_storage_cut)
      else bind_r (storage_ids_from data (Suc i) left) (\<lambda>ids.
           Ok (shift_or32 (data ! start) (data ! (start + 1)) (data ! (start + 2)) (data ! (start + 3)) # ids)))"

definition session_parse_storage_ids :: "bytes \<Rightarrow> ptpip_error + u32 list" where
  "session_parse_storage_ids data =
     (if length data < 2 then Err (ProtocolError msg_storage_short)
      else let count = push_bit 8 (unat (data ! 0)) OR unat (data ! 1) in
           storage_ids_from data 0 count)"

definition session_get_device_info :: "byteorder \<Rightarrow> device_info session_op" where
  "session_get_device_info bo =
     bind_m (check_heartbeat bo) (\<lambda>_.
     bind_m (on_stream (\<lambda>_. generate_transaction_id)) (\<lambda>transaction_id.
     bind_m (on_stream (send_command bo (opcode GetDeviceInfo) transaction_id [])) (\<lambda>_.
     bind_m (on_stream (get_response bo transaction_id)) (\<lambda>response.
     bind_m (pure_m (parse_device_info (payload response))) (\<lambda>device_info.
     bind_m update_activity (\<lambda>_.
     pure_m (Ok device_info)))))))"

definition session_get_storage_ids :: "byteorder \<Rightarrow> u32 list session_op" where
  "session_get_storage_ids bo =
     bind_m (check_heartbeat bo) (\<lambda>_.
     bind_m (on_stream (\<lambda>_. generate_transaction_id)) (\<lambda>transaction_id.
     bind_m (on_stream (send_command bo (opcode GetStorageIDs) transaction_id [])) (\<lambda>_.
     bind_m (on_stream (get_response bo transaction_id)) (\<lambda>response.
     pure_m (session_parse_storage_ids (payload response))))))"

definition session_get_storage_info :: "byteorder \<Rightarrow> u32 \<Rightarrow> storage_info session_op" where
  "session_get_storage_info bo sid =
     bind_m (check_heartbeat bo) (\<lambda>_.
     bind_m (on_stream (\<lambda>_. generate_transaction_id)) (\<lambda>transaction_id.
     bind_m (pure_m (try_io (bo_write_u32 bo sid []))) (\<lambda>params.
     bind_m (on_stream (send_command bo (opcode GetStorageInfo) transaction_id params)) (\<lambda>_.
     bind_m (on_stream (get_response bo transaction_id)) (\<lambda>response.
     bind_m (pure_m (parse_storage_info bo (payload response))) (\<lambda>storage_info.
     bind_m update_activity (\<lambda>_.
     pure_m (Ok storage_info))))))))"

section \<open>Opening and closing\<close>

definition session_id_field :: "bytes \<Rightarrow> ptpip_error + u32" where
  "session_id_field data =
     (if length data < 4 then Err (ProtocolError msg_open_short)
      else Ok (shift_or32 (data ! 0) (data ! 1) (data ! 2) (data ! 3)))"

definition send_open_session :: "byteorder \<Rightarrow> u32 \<Rightarrow> u16 \<Rightarrow> session_config \<Rightarrow> (u32, ptpip_error) io" where
  "send_open_session bo transaction_id ver config =
     bind_io (lift_r (try_io (bo_write_u16 bo ver []))) (\<lambda>params.
     bind_io (lift_r (try_io (bo_write_u32 bo 0x00000000 params))) (\<lambda>params.
     bind_io (send_command bo (opcode OpenSession) transaction_id params config) (\<lambda>_.
     bind_io (get_response bo transaction_id config) (\<lambda>response.
     lift_r (session_id_field (payload response))))))"

definition send_close_session :: "byteorder \<Rightarrow> u32 \<Rightarrow> u32 \<Rightarrow> session_config \<Rightarrow> (unit, ptpip_error) io" where
  "send_close_session bo transaction_id session_id config =
     bind_io (lift_r (try_io (bo_write_u32 bo session_id []))) (\<lambda>params.
     bind_io (send_command bo (opcode CloseSession) transaction_id params config) (\<lambda>_.
     bind_io (get_response bo transaction_id config) (\<lambda>_.
     ret ())))"

definition session_connect :: "byteorder \<Rightarrow> string \<Rightarrow> u16 \<Rightarrow> session_config \<Rightarrow> (session, ptpip_error) io" where
  "session_connect bo ip port config =
     bind_io (io_try (tcp_connect ip port)) (\<lambda>_.
     bind_io (io_try (set_read_timeout (duration_from_secs (cfg_timeout config)))) (\<lambda>_.
     bind_io (io_try (set_write_timeout (duration_from_secs (cfg_timeout config)))) (\<lambda>_.
     bind_io generate_transaction_id (\<lambda>transaction_id.
     bind_io (send_open_session bo transaction_id (version config) config) (\<lambda>session_id w.
     (Ok \<lparr>sess_config = config, sess_id = session_id, last_activity = clock w,
          sess_tid = transaction_id, connected = True\<rparr>, w))))))"

definition session_drop :: "byteorder \<Rightarrow> session \<Rightarrow> world \<Rightarrow> session \<times> world" where
  "session_drop bo s w =
     (if connected s
      then (s\<lparr>connected := False\<rparr>,
            snd (bind_io generate_transaction_id (\<lambda>transaction_id.
                 send_close_session bo transaction_id (sess_id s) (sess_config s)) w))
      else (s, w))"

section \<open>The session as a client of the command layer\<close>

lemma bind_m_on_stream [simp]:
  "bind_m (on_stream m) f s w =
     (case m (sess_config s) w of (Inl e, w') \<Rightarrow> (Inl e, s, w') | (Inr a, w') \<Rightarrow> f a s w')"
  by (simp add: bind_m_def on_stream_def split: prod.split sum.split)

lemma bind_m_pure [simp]:
  "bind_m (pure_m r) f s w = (case r of Inl e \<Rightarrow> (Inl e, s, w) | Inr a \<Rightarrow> f a s w)"
  by (simp add: bind_m_def pure_m_def split: sum.split)

lemma bind_m_activity [simp]:
  "bind_m update_activity f s w = f () (s\<lparr>last_activity := clock w\<rparr>) w"
  by (simp add: bind_m_def update_activity_def)

text \<open>The three steps of an exchange inside a method.\<close>

lemma method_exchange:
  "bind_m (on_stream (\<lambda>_. generate_transaction_id)) (\<lambda>tid.
   bind_m (on_stream (send_command bo code tid params)) (\<lambda>_.
   bind_m (on_stream (get_response bo tid)) f)) s w =
   (case exchange bo (sess_config s) code params w of
      (Inl e, w') \<Rightarrow> (Inl e, s, w') | (Inr q, w') \<Rightarrow> f q s w')"
  by (auto simp: exchange_def bind_io_def generate_transaction_id_def split: prod.splits sum.splits)

lemma heartbeat_exchange:
  "send_heartbeat bo s w =
     (case exchange bo (sess_config s) (opcode GetDeviceInfo) [] w of
        (Inl e, w') \<Rightarrow> (Inl e, s, w') | (Inr q, w') \<Rightarrow> (Ok (), s\<lparr>last_activity := clock w'\<rparr>, w'))"
  unfolding send_heartbeat_def method_exchange
  by (simp add: pure_m_def split: prod.split sum.split)

end
