(* ===== verification/Session_Facts.thy ===== *)
theory Session_Facts
  imports Session Net
begin

text \<open>
  What \<open>Session\<close> of \<open>src/session.rs\<close> guarantees and where it fails: its heartbeat, the parts of the
  session that no method changes, closing on \<open>Drop\<close>, and two defects that make it unusable: the
  parameters of its \<open>OpenSession\<close> cannot be sent, and its list parser reads the response header.
\<close>

section \<open>Opening\<close>

lemma set_timeout_tx:
  "set_read_timeout d w = (r, w') \<Longrightarrow> tx w' = tx w"
  "set_write_timeout d w = (r, w') \<Longrightarrow> tx w' = tx w"
  by (auto simp: set_read_timeout_def set_write_timeout_def ctl_call_def
      split: if_splits list.splits option.splits)

lemma send_open_session_fails:
  "byteorder_spec bo \<Longrightarrow> send_open_session bo tid ver cfg w = (Err (Io eof_error), w)"
  by (simp add: send_open_session_def bo_simps bind_io_def lift_r_apply send_command_eq)

lemma session_connect_Err:
  assumes "byteorder_spec bo"
  shows "\<exists>e w'. session_connect bo ip port config w = (Err e, w') \<and> tx w' = tx w"
proof -
  obtain r w1 where 1: "io_try (tcp_connect ip port) w = (r, w1)" by fastforce
  have t1: "tx w1 = tx w"
    using 1 by (auto simp: io_try_def tcp_connect_def ctl_call_def split: list.splits option.splits)
  let ?d = "duration_from_secs (cfg_timeout config)"
  obtain r2 w2 where 2: "io_try (set_read_timeout ?d) w1 = (r2, w2)" by fastforce
  then have t2: "tx w2 = tx w" using t1 by (auto simp: io_try_def split: prod.splits dest: set_timeout_tx)
  obtain r3 w3 where 3: "io_try (set_write_timeout ?d) w2 = (r3, w3)" by fastforce
  then have t3: "tx w3 = tx w" using t2 by (auto simp: io_try_def split: prod.splits dest: set_timeout_tx)
  show ?thesis
    using 1 2 3 t1 t2 t3
    by (cases r; cases r2; cases r3)
      (simp_all add: session_connect_def bind_io_Ok [of "io_try (tcp_connect ip port)"]
        bind_io_Ok [of "io_try (set_read_timeout ?d)"] bind_io_Ok [of "io_try (set_write_timeout ?d)"]
        bind_io_Err send_open_session_fails [OF assms])
qed

text \<open>
  C18. \<open>Session::connect\<close> can never succeed: the six parameter bytes of its \<open>OpenSession\<close> are not whole
  32-bit words, so \<open>send_command\<close> rejects them before anything is sent, on every connection, for every
  camera and every configuration; and so the C interface never hands out a session.
\<close>

theorem session_never_connects:
  assumes "byteorder_spec bo"
  shows "\<exists>e w'. session_connect bo ip port config w = (Err e, w') \<and> tx w' = tx w"
  using session_connect_Err [OF assms] .

theorem session_never_connects_witness:
  "\<exists>e w'. session_connect utils_byteorder ''192.168.1.1'' PTPIP_DEFAULT_PORT default_session_config
     (serving [0, 0, 0, 1]) = (Err e, w') \<and> tx w' = []"
  using session_never_connects [OF utils_byteorder_spec, of "''192.168.1.1''" PTPIP_DEFAULT_PORT
      default_session_config "serving [0, 0, 0, 1]"]
  by (simp add: serving_def quiet_def)

section \<open>The list parser\<close>

text \<open>
  C22. The two parsers of the storage list disagree: on the response layout that \<open>CameraClient\<close> reads
  correctly, a header with version 0 followed by a 32-bit count and the identifiers, \<open>Session\<close> takes
  its count from the version field and returns the empty list, whatever the camera has.
\<close>

theorem storage_parsers_disagree:
  assumes "length ids < 2 ^ 32"
  shows "parse_storage_ids (id_list_wire (write_u16_be 0 @ write_u16_be (opcode OpOk) @ write_u32_be x) ids) = Ok ids \<and>
     session_parse_storage_ids
       (id_list_wire (write_u16_be 0 @ write_u16_be (opcode OpOk) @ write_u32_be x) ids) = Ok []"
proof -
  have "parse_storage_ids (id_list_wire (write_u16_be 0 @ write_u16_be (opcode OpOk) @ write_u32_be x) ids @ []) = Ok ids"
    by (rule parse_storage_ids_wire) (use assms in simp_all)
  then show ?thesis
    by (simp add: session_parse_storage_ids_def id_list_wire_def write_u16_be_def)
qed

theorem storage_parsers_disagree_witness:
  "session_parse_storage_ids [0, 0, 0x20, 0x01, 0, 0, 0, 0, 0, 0, 0, 1, 0, 0, 0, 5] = Ok []"
proof -
  have "[0, 0, 0x20, 0x01, 0, 0, 0, 0, 0, 0, 0, 1, 0, 0, 0, 5] =
      id_list_wire (write_u16_be 0 @ write_u16_be (opcode OpOk) @ write_u32_be 0) [5]"
    by (simp add: id_list_wire_def write_defs)
  then show ?thesis using storage_parsers_disagree [of "[5]" 0] by simp
qed

section \<open>Heartbeat\<close>

definition idle :: "session \<Rightarrow> world \<Rightarrow> bool" where
  "idle s w \<longleftrightarrow> connected s \<and> clock w - last_activity s > duration_from_secs (cfg_timeout (sess_config s) div 2)"

lemma check_heartbeat_eq:
  "check_heartbeat bo s w = (if idle s w then send_heartbeat bo s w else (Ok (), s, w))"
  by (auto simp: check_heartbeat_def idle_def bind_m_def pure_m_def split: prod.split sum.split)

lemma session_get_device_info_eq:
  "session_get_device_info bo =
     bind_m (check_heartbeat bo) (\<lambda>_ s w.
       (case exchange bo (sess_config s) (opcode GetDeviceInfo) [] w of
          (Inl e, w') \<Rightarrow> (Inl e, s, w')
        | (Inr q, w') \<Rightarrow>
            (case parse_device_info (payload q) of
               Inl e \<Rightarrow> (Inl e, s, w') | Inr i \<Rightarrow> (Ok i, s\<lparr>last_activity := clock w'\<rparr>, w'))))"
  unfolding session_get_device_info_def
  by (intro arg_cong [where f = "bind_m (check_heartbeat bo)"] ext, subst method_exchange)
    (simp add: pure_m_def split: prod.split sum.split)

text \<open>
  C20. The heartbeat goes out exactly when the session was idle for more than half its timeout: then
  the operation is preceded by one complete exchange, and otherwise it is the only one; in both
  cases the operation gets its own response, and the session counts as active from then on.
\<close>

theorem heartbeat_when_idle:
  assumes bo: "byteorder_spec bo" and hb: "idle s w \<Longrightarrow> serves w q0 qs0 evs0"
    and w1: "w1 = (if idle s w then after_exchange w (opcode GetDeviceInfo) [] qs0 evs0 else w)"
    and own: "serves w1 q qs evs" and ok: "parse_device_info (payload q) = Ok i"
  shows "session_get_device_info bo s w =
     (Ok i, s\<lparr>last_activity := clock w\<rparr>, after_exchange w1 (opcode GetDeviceInfo) [] qs evs)"
proof -
  have clk: "clock (after_exchange v code ps qs evs) = clock v" for v code ps qs evs
    by (simp add: after_exchange_def)
  have hbr: "check_heartbeat bo s w = (Ok (), if idle s w then s\<lparr>last_activity := clock w\<rparr> else s, w1)"
    using exchange_served [OF bo hb, of "[]"] w1 by (simp add: check_heartbeat_eq heartbeat_exchange clk)
  have "exchange bo (sess_config s) (opcode GetDeviceInfo) [] w1 =
      (Ok q, after_exchange w1 (opcode GetDeviceInfo) [] qs evs)"
    using exchange_served [OF bo own] by simp
  then show ?thesis
    using ok w1 by (cases "idle s w") (simp_all add: session_get_device_info_eq bind_m_def hbr clk)
qed

theorem heartbeat_when_idle_witness:
  "\<exists>w'. session_get_device_info utils_byteorder
       \<lparr>sess_config = default_session_config, sess_id = 7, last_activity = 0, sess_tid = 1, connected = True\<rparr>
       (serving (drop 8 (device_info_wire (replicate 8 0)
          \<lparr>manufacturer = ''N'', dev_model = ''Z'', device_version = [], serial_number = [], supported_operations = []\<rparr>)))
     = (Ok \<lparr>manufacturer = ''N'', dev_model = ''Z'', device_version = [], serial_number = [], supported_operations = []\<rparr>,
        \<lparr>sess_config = default_session_config, sess_id = 7, last_activity = 0, sess_tid = 1, connected = True\<rparr>, w')"
proof -
  let ?i = "\<lparr>manufacturer = ''N'', dev_model = ''Z'', device_version = [], serial_number = [], supported_operations = []\<rparr>"
  let ?s = "\<lparr>sess_config = default_session_config, sess_id = 7, last_activity = 0, sess_tid = 1, connected = True\<rparr>"
  let ?body = "drop 8 (device_info_wire (replicate 8 0) ?i)"
  let ?hdr = "[0, 0, 0x20, 0x01, 0, 0, 0, 0]"
  have small: "length ?body < 1000"
    by (simp add: device_info_wire_def device_strings_def bytes_of_string_def)
  have "payload (ok_reply 1 ?body) = device_info_wire ?hdr ?i"
    by (simp add: ok_reply_def device_info_wire_def)
  moreover have "parse_device_info (device_info_wire ?hdr ?i) = Ok ?i"
    by (rule device_info_parses) (simp_all add: device_info_ok_def device_strings_def wire_string_def valid_str_def
      bytes_of_string_def utf8_check_ascii device_info_wire_def del: utf8_check.simps)
  ultimately have ok: "parse_device_info (payload (ok_reply 1 ?body)) = Ok ?i" by simp
  have not_idle: "\<not> idle ?s (serving ?body)"
    by (simp add: idle_def serving_def quiet_def)
  show ?thesis
    using heartbeat_when_idle [OF utils_byteorder_spec _ refl, of ?s "serving ?body" _ _ _ "ok_reply 1 ?body" "[]" "[]" ?i]
      serving_serves [OF small] not_idle ok
    by (simp add: serving_def quiet_def)
qed

section \<open>What no method changes\<close>

text \<open>
  \<open>steady m\<close>: every run of the method \<open>m\<close>, successful or not, leaves the session's identity, its
  configuration and its connected flag alone, moves its last activity forward only, never past the
  present, and touches neither files nor reports.
\<close>

definition steady :: "'a session_op \<Rightarrow> bool" where
  "steady m \<longleftrightarrow>
     (\<forall>s w r s' w'. m s w = (r, s', w') \<longrightarrow> last_activity s \<le> clock w \<longrightarrow>
        net w w' \<and> s' = s\<lparr>last_activity := last_activity s'\<rparr> \<and>
        last_activity s \<le> last_activity s' \<and> last_activity s' \<le> clock w')"

lemma steadyD:
  "steady m \<Longrightarrow> m s w = (r, s', w') \<Longrightarrow> last_activity s \<le> clock w \<Longrightarrow>
     net w w' \<and> s' = s\<lparr>last_activity := last_activity s'\<rparr> \<and>
     last_activity s \<le> last_activity s' \<and> last_activity s' \<le> clock w'"
  unfolding steady_def by blast

lemma session_steady_trans:
  "s' = s\<lparr>last_activity := last_activity s'\<rparr> \<Longrightarrow> s'' = s'\<lparr>last_activity := last_activity s''\<rparr> \<Longrightarrow>
     s'' = s\<lparr>last_activity := last_activity s''\<rparr>"
  by (cases s; cases s'; cases s'') simp

lemma steady_bind [keeps]:
  assumes m: "steady m" and f: "\<And>a. steady (f a)"
  shows "steady (bind_m m f)"
  unfolding steady_def
proof (intro allI impI)
  fix s w r s'' w''
  assume run: "bind_m m f s w = (r, s'', w'')" and le: "last_activity s \<le> clock w"
  obtain r1 s1 w1 where 1: "m s w = (r1, s1, w1)" by (cases "m s w") auto
  note m1 = steadyD [OF m 1 le]
  show "net w w'' \<and> s'' = s\<lparr>last_activity := last_activity s''\<rparr> \<and>
      last_activity s \<le> last_activity s'' \<and> last_activity s'' \<le> clock w''"
  proof (cases r1)
    case (Inl e)
    with run 1 m1 show ?thesis by (simp add: bind_m_def)
  next
    case (Inr a)
    then have "f a s1 w1 = (r, s'', w'')" using run 1 by (simp add: bind_m_def)
    from steadyD [OF f this] m1 show ?thesis
      using net_trans session_steady_trans by (metis order_trans)
  qed
qed

lemma steady_pure [keeps]: "steady (pure_m r)"
  by (auto simp: steady_def pure_m_def net_def)

lemma steady_activity [keeps]: "steady update_activity"
  by (auto simp: steady_def update_activity_def net_def)

lemma steady_stream [keeps]:
  assumes "\<And>c. preserves net (m c)"
  shows "steady (on_stream m)"
  unfolding steady_def
proof (intro allI impI)
  fix s w r s' w'
  assume run: "on_stream m s w = (r, s', w')" and le: "last_activity s \<le> clock w"
  have 1: "m (sess_config s) w = (r, w')" "s' = s"
    using run by (auto simp: on_stream_def split: prod.splits)
  have "net w w'" using preservesD [OF assms 1(1)] .
  then show "net w w' \<and> s' = s\<lparr>last_activity := last_activity s'\<rparr> \<and>
      last_activity s \<le> last_activity s' \<and> last_activity s' \<le> clock w'"
    using 1(2) le by (simp add: net_def)
qed

lemma steady_heartbeat [keeps]: "steady (check_heartbeat bo)"
proof -
  have "steady (send_heartbeat bo)"
    unfolding send_heartbeat_def by (intro keeps)
  moreover have "steady (\<lambda>s w. (Ok (), s, w))"
    using steady_pure [of "Ok ()"] by (simp add: pure_m_def [abs_def])
  ultimately show ?thesis
    unfolding steady_def check_heartbeat_eq by simp
qed

text \<open>
  C19. The methods of a session are well behaved on every path, errors and early returns included: its
  identifier, configuration and connected flag never change, its last activity never goes backwards
  or into the future, and no file and no report of a download is touched.
\<close>

theorem session_methods_steady:
  "steady (session_get_device_info bo) \<and> steady (session_get_storage_ids bo) \<and>
   steady (session_get_storage_info bo sid)"
  unfolding session_get_device_info_def session_get_storage_ids_def session_get_storage_info_def
  by (intro conjI keeps)

section \<open>Closing\<close>

lemma session_close_exchange:
  assumes "byteorder_spec bo"
  shows "bind_io generate_transaction_id (\<lambda>tid. send_close_session bo tid sid cfg) =
     bind_io (exchange bo cfg (opcode CloseSession) (write_u32_be sid)) (\<lambda>_. ret ())"
  by (rule ext) (simp add: send_close_session_def exchange_def bo_simps [OF assms])

lemma session_drop_served:
  assumes "byteorder_spec bo" and "connected s" and "serves w q qs evs"
  shows "session_drop bo s w =
     (s\<lparr>connected := False\<rparr>, after_exchange w (opcode CloseSession) (write_u32_be (sess_id s)) qs evs)"
  using assms(2) xchg.action_served [OF assms(1,3), of "write_u32_be (sess_id s)" "sess_config s" "opcode CloseSession" "()"]
  by (simp add: session_drop_def session_close_exchange [OF assms(1)])

text \<open>
  Dropping a connected session closes it at the camera, once: it sends \<open>CloseSession\<close> with the
  session's identifier, waits for the response, and marks the session closed, so that dropping it
  again does nothing.
\<close>

theorem drop_closes_once:
  assumes "byteorder_spec bo" and "connected s" and "serves w q qs evs"
  shows "session_drop bo s w =
     (s\<lparr>connected := False\<rparr>, after_exchange w (opcode CloseSession) (write_u32_be (sess_id s)) qs evs) \<and>
   session_drop bo (fst (session_drop bo s w)) w2 = (s\<lparr>connected := False\<rparr>, w2)"
  by (simp add: session_drop_served [OF assms]) (simp add: session_drop_def)

theorem drop_closes_once_witness:
  "fst (session_drop utils_byteorder
     \<lparr>sess_config = default_session_config, sess_id = 7, last_activity = 0, sess_tid = 1, connected = True\<rparr>
     (serving [])) =
     \<lparr>sess_config = default_session_config, sess_id = 7, last_activity = 0, sess_tid = 1, connected = False\<rparr>"
  using drop_closes_once [OF utils_byteorder_spec _ serving_serves, of
      "\<lparr>sess_config = default_session_config, sess_id = 7, last_activity = 0, sess_tid = 1, connected = True\<rparr>" "[]"]
  by simp

end
