(* ===== verification/Session_FFI.thy ===== *)
theory Session_FFI
  imports Session_Facts
begin

text \<open>
  The C interface of \<open>src/session.rs\<close>. A handle is the raw pointer of an \<open>Arc<Mutex<Session>>\<close>: \<open>None\<close>
  when null, otherwise an address. The live cells hold the session and the world of its connection;
  a dropped session leaves both in the log \<open>arc_dropped\<close>. A function returns \<open>None\<close> where the code
  would use a dangling pointer, which is undefined behaviour.
\<close>

record arcs =
  arc_cells :: "nat \<Rightarrow> (session \<times> world) option"
  arc_next :: nat
  arc_dropped :: "(session \<times> world) list"

text \<open>\<open>peer ip port\<close> is the connection that a TCP connect to that address finds.\<close>

definition ptpip_create_session :: "byteorder \<Rightarrow> (string \<Rightarrow> u16 \<Rightarrow> world) \<Rightarrow> c_ptr \<Rightarrow> u16 \<Rightarrow> u32 \<Rightarrow> arcs \<Rightarrow>
    nat option \<times> arcs" where
  "ptpip_create_session bo peer ip port timeout st =
     (case ip of
        None \<Rightarrow> (None, st)
      | Some mem \<Rightarrow>
         (case from_utf8 (takeWhile (\<lambda>b. b \<noteq> 0) mem) of
            Inl _ \<Rightarrow> (None, st)
          | Inr ip_str \<Rightarrow>
             (case session_connect bo ip_str port (default_session_config\<lparr>cfg_timeout := ucast timeout\<rparr>)
                     (peer ip_str port) of
                (Inl e, w) \<Rightarrow> (None, st)
              | (Inr s, w) \<Rightarrow>
                  (Some (arc_next st),
                   st\<lparr>arc_cells := (arc_cells st)(arc_next st \<mapsto> (s, w)), arc_next := Suc (arc_next st)\<rparr>))))"

definition ptpip_close_session :: "byteorder \<Rightarrow> nat option \<Rightarrow> arcs \<Rightarrow> arcs option" where
  "ptpip_close_session bo session_ptr st =
     (case session_ptr of
        None \<Rightarrow> Some st
      | Some a \<Rightarrow>
         (case arc_cells st a of
            None \<Rightarrow> None
          | Some (s, w) \<Rightarrow>
              Some (st\<lparr>arc_cells := (arc_cells st)(a := None),
                       arc_dropped := arc_dropped st @ [session_drop bo s w]\<rparr>)))"

text \<open>\<open>from_raw\<close>, the query, and \<open>forget\<close>: the cell stays as it is.\<close>

definition ptpip_is_connected :: "nat option \<Rightarrow> arcs \<Rightarrow> (bool \<times> arcs) option" where
  "ptpip_is_connected session_ptr st =
     (case session_ptr of
        None \<Rightarrow> Some (False, st)
      | Some a \<Rightarrow>
         (case arc_cells st a of None \<Rightarrow> None | Some (s, w) \<Rightarrow> Some (session_is_connected s, st)))"

definition ptpip_get_session_id :: "nat option \<Rightarrow> arcs \<Rightarrow> (u32 \<times> arcs) option" where
  "ptpip_get_session_id session_ptr st =
     (case session_ptr of
        None \<Rightarrow> Some (0, st)
      | Some a \<Rightarrow>
         (case arc_cells st a of None \<Rightarrow> None | Some (s, w) \<Rightarrow> Some (session_id_of s, st)))"

lemma create_session_null:
  assumes "byteorder_spec bo"
  shows "ptpip_create_session bo peer ip port timeout st = (None, st)"
proof -
  have "\<not> is_ok (fst (session_connect bo i p cfg w))" for i p cfg w
    using session_connect_Err [OF assms, of i p cfg w] by auto
  then show ?thesis
    by (auto simp: ptpip_create_session_def is_ok_iff split: option.split sum.split prod.split)
      (metis fst_conv)
qed

text \<open>
  C21. The life of a handle: the queries report the session behind it and consume nothing, so they can
  be repeated; closing it sends \<open>CloseSession\<close> with the session's own identifier, frees that cell
  and no other; and any use after that, a second close included, is a use of freed memory.
\<close>

theorem handle_life:
  assumes "byteorder_spec bo" and "arc_cells st a = Some (s, w)" and "connected s" and "serves w q qs evs"
  shows "\<exists>st'. ptpip_is_connected (Some a) st = Some (True, st) \<and>
     ptpip_get_session_id (Some a) st = Some (sess_id s, st) \<and>
     ptpip_close_session bo (Some a) st = Some st' \<and>
     arc_dropped st' = arc_dropped st @
       [(s\<lparr>connected := False\<rparr>, after_exchange w (opcode CloseSession) (write_u32_be (sess_id s)) qs evs)] \<and>
     arc_cells st' = (arc_cells st)(a := None) \<and>
     ptpip_is_connected (Some a) st' = None \<and> ptpip_get_session_id (Some a) st' = None \<and>
     ptpip_close_session bo (Some a) st' = None"
  using assms(2,3) session_drop_served [OF assms(1,3,4)]
  by (simp add: ptpip_is_connected_def ptpip_get_session_id_def ptpip_close_session_def
      session_is_connected_def session_id_of_def)

theorem handle_life_witness:
  "\<exists>st'. ptpip_close_session utils_byteorder (Some 5)
      \<lparr>arc_cells = [5 \<mapsto> (\<lparr>sess_config = default_session_config, sess_id = 7, last_activity = 0, sess_tid = 1,
         connected = True\<rparr>, serving [])], arc_next = 6, arc_dropped = []\<rparr> = Some st' \<and>
     ptpip_close_session utils_byteorder (Some 5) st' = None"
  using handle_life [OF utils_byteorder_spec _ _ serving_serves, of
      "\<lparr>arc_cells = [5 \<mapsto> (\<lparr>sess_config = default_session_config, sess_id = 7, last_activity = 0, sess_tid = 1,
         connected = True\<rparr>, serving [])], arc_next = 6, arc_dropped = []\<rparr>" 5
      "\<lparr>sess_config = default_session_config, sess_id = 7, last_activity = 0, sess_tid = 1, connected = True\<rparr>" "[]"]
  by auto

end
