(* ===== verification/Discovery.thy ===== *)
theory Discovery
  imports Utils_Text Files
begin

text \<open>
  \<open>src/discovery.rs\<close>: the discovery request, the response parser, and the search loop, over a datagram
  socket of its own. Each receive takes one event of the script \<open>inbox\<close>: a datagram or an error,
  after some delay; when the script is exhausted the socket's read timeout expires. Set-up calls
  and sends fail where \<open>sys_script\<close> and \<open>send_script\<close> say so.
\<close>

definition PTPIP_DISCOVERY_PORT :: u16 where "PTPIP_DISCOVERY_PORT = 1900"
definition PTPIP_BROADCAST_ADDR :: string where "PTPIP_BROADCAST_ADDR = ''255.255.255.255:1900''"
definition PTPIP_MULTICAST_ADDR :: string where "PTPIP_MULTICAST_ADDR = ''239.255.255.250:1900''"

datatype discovery_type = Request | Response

fun discovery_code :: "discovery_type \<Rightarrow> u16" where
  "discovery_code Request = 0x0001"
| "discovery_code Response = 0x0002"

text \<open>A \<open>SocketAddr\<close>; version 6 with its sixteen octets, port, flow and scope.\<close>

datatype sock_addr = V4 ipv4 u16 | V6 bytes u16 u32 u32

record discovery_config =
  disc_timeout :: nat
  retry_count :: usize
  interface :: "string option"
  use_multicast :: bool
  test_destinations :: "sock_addr list option"

definition default_discovery_config :: discovery_config where
  "default_discovery_config =
     \<lparr>disc_timeout = duration_from_secs 5, retry_count = 3, interface = None, use_multicast = True,
      test_destinations = None\<rparr>"

section \<open>Parsing addresses\<close>

fun split_on :: "char \<Rightarrow> string \<Rightarrow> string list" where
  "split_on c [] = [[]]"
| "split_on c (x # xs) =
     (if x = c then [] # split_on c xs
      else case split_on c xs of [] \<Rightarrow> [[x]] | p # ps \<Rightarrow> (x # p) # ps)"

fun dec_number :: "nat \<Rightarrow> nat \<Rightarrow> string \<Rightarrow> nat option" where
  "dec_number limit acc [] = Some acc"
| "dec_number limit acc (c # cs) =
     (case digit_value c of
        None \<Rightarrow> None
      | Some d \<Rightarrow> if acc * 10 + d < limit then dec_number limit (acc * 10 + d) cs else None)"

text \<open>An octet has one to three digits and no leading zero.\<close>

definition parse_octet :: "string \<Rightarrow> u8 option" where
  "parse_octet s =
     (if s = [] \<or> length s > 3 \<or> (length s > 1 \<and> hd s = CHR ''0'') then None
      else map_option word_of_nat (dec_number 256 0 s))"

definition parse_ipv4 :: "string \<Rightarrow> addr_parse_error + ipv4" where
  "parse_ipv4 s =
     (case map parse_octet (split_on (CHR ''.'') s) of
        [Some a, Some b, Some c, Some d] \<Rightarrow> Ok (Ipv4 a b c d)
      | _ \<Rightarrow> Err (AddrParseError ''invalid IPv4 address syntax''))"

definition parse_socket_addr :: "string \<Rightarrow> addr_parse_error + sock_addr" where
  "parse_socket_addr s =
     (case split_on (CHR '':'') s of
        [host, port] \<Rightarrow>
          (case (parse_ipv4 host, if port = [] then None else dec_number 65536 0 port) of
             (Inr ip, Some p) \<Rightarrow> Ok (V4 ip (word_of_nat p))
           | _ \<Rightarrow> Err (AddrParseError ''invalid socket address syntax''))
      | _ \<Rightarrow> Err (AddrParseError ''invalid socket address syntax''))"

section \<open>The socket\<close>

datatype udp_event = Arrives nat bytes sock_addr | Fails nat io_error

record udp =
  inbox :: "udp_event list"
  outbox :: "(bytes \<times> sock_addr) list"
  send_script :: "io_error option list"
  sys_script :: "io_error option list"
  udp_clock :: nat
  udp_timeout :: nat
  groups :: "ipv4 list"
  broadcast :: bool

definition udp_quiet :: udp where
  "udp_quiet = \<lparr>inbox = [], outbox = [], send_script = [], sys_script = [], udp_clock = 0, udp_timeout = 0,
     groups = [], broadcast = False\<rparr>"

definition would_block_error :: io_error where
  "would_block_error = \<lparr>io_kind = WouldBlock, io_text = ''Resource temporarily unavailable (os error 11)''\<rparr>"

definition sys_call :: "(udp \<Rightarrow> udp) \<Rightarrow> (udp, unit, io_error) run" where
  "sys_call f w =
     (case sys_script w of
        [] \<Rightarrow> (Ok (), f w)
      | None # s \<Rightarrow> (Ok (), f (w\<lparr>sys_script := s\<rparr>))
      | Some e # s \<Rightarrow> (Err e, w\<lparr>sys_script := s\<rparr>))"

definition udp_bind :: "string \<Rightarrow> u16 \<Rightarrow> (udp, unit, io_error) run" where
  "udp_bind host port = sys_call (\<lambda>w. w)"

definition join_multicast :: "ipv4 \<Rightarrow> (udp, unit, io_error) run" where
  "join_multicast ip = sys_call (\<lambda>w. w\<lparr>groups := groups w @ [ip]\<rparr>)"

definition set_broadcast :: "bool \<Rightarrow> (udp, unit, io_error) run" where
  "set_broadcast b = sys_call (\<lambda>w. w\<lparr>broadcast := b\<rparr>)"

definition udp_set_read_timeout :: "nat \<Rightarrow> (udp, unit, io_error) run" where
  "udp_set_read_timeout d w =
     (if d = 0 then (Err zero_timeout_error, w) else sys_call (\<lambda>w. w\<lparr>udp_timeout := d\<rparr>) w)"

definition send_to :: "bytes \<Rightarrow> sock_addr \<Rightarrow> (udp, unit, io_error) run" where
  "send_to data dest w =
     (case send_script w of
        [] \<Rightarrow> (Ok (), w\<lparr>outbox := outbox w @ [(data, dest)]\<rparr>)
      | None # s \<Rightarrow> (Ok (), w\<lparr>outbox := outbox w @ [(data, dest)], send_script := s\<rparr>)
      | Some e # s \<Rightarrow> (Err e, w\<lparr>send_script := s\<rparr>))"

text \<open>\<open>recv_from\<close> into a buffer of 1024 bytes: the rest of a longer datagram is lost.\<close>

definition recv_from :: "(udp, bytes \<times> sock_addr, io_error) run" where
  "recv_from w =
     (case inbox w of
        [] \<Rightarrow> (Err would_block_error, w\<lparr>udp_clock := udp_clock w + udp_timeout w\<rparr>)
      | Arrives d data src # evs \<Rightarrow> (Ok (take 1024 data, src), w\<lparr>inbox := evs, udp_clock := udp_clock w + d\<rparr>)
      | Fails d e # evs \<Rightarrow> (Err e, w\<lparr>inbox := evs, udp_clock := udp_clock w + d\<rparr>))"

definition udp_sleep :: "nat \<Rightarrow> udp \<Rightarrow> udp" where
  "udp_sleep d w = w\<lparr>udp_clock := udp_clock w + d\<rparr>"

section \<open>Set-up\<close>

text \<open>The interface of the configuration is only logged: both branches bind to every interface.\<close>

definition create_discovery_socket :: "discovery_config \<Rightarrow> (udp, unit, ptpip_error) run" where
  "create_discovery_socket config =
     bind_io (case interface config of
                Some iface \<Rightarrow> io_try (udp_bind ''0.0.0.0'' 0)
              | None \<Rightarrow> io_try (udp_bind ''0.0.0.0'' 0)) (\<lambda>_.
     if use_multicast config
     then
       bind_io (lift_r (map_err from_addr_parse_error
                  (parse_ipv4 (hd (split_on (CHR '':'') PTPIP_MULTICAST_ADDR))))) (\<lambda>multicast_ip.
       bind_io (io_try (join_multicast multicast_ip)) (\<lambda>_.
       ret ()))
     else ret ())"

text \<open>\<open>parse().unwrap()\<close> on a constant; \<open>destinations_parse\<close> shows that it cannot panic.\<close>

definition unwrap_addr :: "addr_parse_error + sock_addr \<Rightarrow> sock_addr" where
  "unwrap_addr r = (case r of Inr a \<Rightarrow> a | Inl _ \<Rightarrow> V4 (Ipv4 0 0 0 0) 0)"

definition get_discovery_destinations :: "discovery_config \<Rightarrow> sock_addr list" where
  "get_discovery_destinations config =
     (case test_destinations config of
        Some dests \<Rightarrow> dests
      | None \<Rightarrow>
          [unwrap_addr (parse_socket_addr PTPIP_BROADCAST_ADDR)] @
          (if use_multicast config then [unwrap_addr (parse_socket_addr PTPIP_MULTICAST_ADDR)] else []))"

definition build_discovery_request :: "byteorder \<Rightarrow> ptpip_error + bytes" where
  "build_discovery_request bo =
     bind_r (try_io (bo_write_u16 bo (discovery_code Request) [])) (\<lambda>packet.
     bind_r (try_io (bo_write_u16 bo 0x0100 packet)) (\<lambda>packet.
     bind_r (try_io (bo_write_u32 bo 0x00000000 packet)) (\<lambda>packet.
     Ok packet)))"

section \<open>The response\<close>

definition trim_nul :: "string \<Rightarrow> string" where
  "trim_nul s =
     (let p = (\<lambda>c. c = char_of (0 :: nat)) in rev (dropWhile p (rev (dropWhile p s))))"

definition parse_discovery_response :: "byteorder \<Rightarrow> bytes \<Rightarrow> sock_addr \<Rightarrow> ptpip_error + discovered_camera option" where
  "parse_discovery_response bo buffer src_addr =
     (if length buffer < 14 then Ok None
      else
        bind_r (try_io (bo_read_u16 bo (cursor_new buffer))) (\<lambda>(message_type, reader).
        if message_type \<noteq> discovery_code Response then Ok None
        else
          bind_r (try_io (bo_read_u16 bo reader)) (\<lambda>(ver, reader).
          if ver \<noteq> 0x0100 then Ok None
          else
            bind_r (try_io (bo_read_u32 bo reader)) (\<lambda>(vendor_id, reader).
            bind_r (try_io (bo_read_u16 bo reader)) (\<lambda>(vendor_version, reader).
            bind_r (try_io (bo_read_u16 bo reader)) (\<lambda>(port, reader).
            let name = trim_nul (string_of_bytes (utf8_lossy (drop 14 buffer))) in
            case src_addr of
              V4 ip _ \<Rightarrow>
                Ok (Some \<lparr>ip_address = ip, cam_port = port, model_name = name,
                     vendor_extension_id = vendor_id, vendor_extension_version = vendor_version\<rparr>)
            | V6 _ _ _ _ \<Rightarrow> Ok None))))))"

section \<open>The search\<close>

text \<open>The inner loop: one turn per receive, so it ends with the script or with the timeout.\<close>

function receive_responses :: "byteorder \<Rightarrow> nat \<Rightarrow> nat \<Rightarrow> discovered_camera list \<Rightarrow> sock_addr set \<Rightarrow>
    (udp, discovered_camera list \<times> sock_addr set, ptpip_error) run" where
  "receive_responses bo timeout start_time cameras seen w =
     (if udp_clock w - start_time > timeout then (Ok (cameras, seen), w)
      else if length cameras \<ge> 10 then (Ok (cameras, seen), w)
      else
        case recv_from w of
          (Inr (data, src), w') \<Rightarrow>
            if src \<in> seen then receive_responses bo timeout start_time cameras seen w'
            else
              (case parse_discovery_response bo data src of
                 Inl e \<Rightarrow> (Err e, w')
               | Inr None \<Rightarrow> receive_responses bo timeout start_time cameras (insert src seen) w'
               | Inr (Some camera) \<Rightarrow>
                   receive_responses bo timeout start_time
                     (if list_ex (\<lambda>c. ip_address c = ip_address camera \<and> cam_port c = cam_port camera) cameras
                      then cameras else cameras @ [camera])
                     (insert src seen) w')
        | (Inl e, w') \<Rightarrow>
            if io_kind e = WouldBlock \<or> io_kind e = TimedOut then (Ok (cameras, seen), w')
            else receive_responses bo timeout start_time cameras seen w')"
  by pat_completeness auto
termination
  by (relation "measure (\<lambda>(bo, t, s, c, seen, w). length (inbox w))")
    (auto simp: recv_from_def would_block_error_def split: list.splits udp_event.splits)

declare receive_responses.simps [simp del]

fun send_all :: "bytes \<Rightarrow> sock_addr list \<Rightarrow> (udp, unit, ptpip_error) run" where
  "send_all packet [] = ret ()"
| "send_all packet (dest # dests) =
     bind_io (io_try (send_to packet dest)) (\<lambda>_. send_all packet dests)"

definition pause :: "discovery_config \<Rightarrow> nat \<Rightarrow> discovered_camera list \<Rightarrow> udp \<Rightarrow> udp" where
  "pause config attempt cameras w =
     (if cameras \<noteq> [] \<and> attempt < retry_count config then udp_sleep (duration_from_millis 500) w
      else if attempt < retry_count config then udp_sleep (disc_timeout config div 2) w
      else w)"

text \<open>\<open>for attempt in 1..=retry_count\<close>: \<open>left\<close> attempts remain, the next one is \<open>attempt\<close>.\<close>

fun discovery_attempts :: "byteorder \<Rightarrow> discovery_config \<Rightarrow> bytes \<Rightarrow> sock_addr list \<Rightarrow> nat \<Rightarrow> nat \<Rightarrow> nat \<Rightarrow>
    discovered_camera list \<Rightarrow> sock_addr set \<Rightarrow> (udp, discovered_camera list, ptpip_error) run" where
  "discovery_attempts bo config packet dests start_time attempt 0 cameras seen w = (Ok cameras, w)"
| "discovery_attempts bo config packet dests start_time attempt (Suc left) cameras seen w =
     bind_io (send_all packet dests) (\<lambda>_.
     bind_io (receive_responses bo (disc_timeout config) start_time cameras seen) (\<lambda>(cameras, seen) w.
     discovery_attempts bo config packet dests start_time (attempt + 1) left cameras seen
       (pause config attempt cameras w))) w"

definition discover_cameras :: "byteorder \<Rightarrow> discovery_config \<Rightarrow> (udp, discovered_camera list, ptpip_error) run" where
  "discover_cameras bo config =
     bind_io (create_discovery_socket config) (\<lambda>_.
     bind_io (io_try (set_broadcast True)) (\<lambda>_.
     bind_io (io_try (udp_set_read_timeout (disc_timeout config))) (\<lambda>_.
     bind_io (lift_r (build_discovery_request bo)) (\<lambda>request_packet w.
     discovery_attempts bo config request_packet (get_discovery_destinations config) (udp_clock w) 1
       (retry_count config) [] {} w))))"

lemma destinations_parse:
  "parse_socket_addr PTPIP_BROADCAST_ADDR = Ok (V4 (Ipv4 255 255 255 255) 1900)"
  "parse_socket_addr PTPIP_MULTICAST_ADDR = Ok (V4 (Ipv4 239 255 255 250) 1900)"
  "parse_ipv4 (hd (split_on (CHR '':'') PTPIP_MULTICAST_ADDR)) = Ok (Ipv4 239 255 255 250)"
  by (simp_all add: parse_socket_addr_def PTPIP_BROADCAST_ADDR_def PTPIP_MULTICAST_ADDR_def parse_ipv4_def
      parse_octet_def digit_value_def Let_def)

end
