(* ===== verification/Discovery_Facts.thy ===== *)
theory Discovery_Facts
  imports Discovery
begin

text \<open>
  What discovery (\<open>src/discovery.rs\<close>) guarantees: its parser inverts the announcement of a camera and
  never fails, the list it returns has at most ten cameras, no duplicates and nothing that was not
  announced; and what it does not: once the first wait has used up the timeout, later attempts
  send requests but never listen.
\<close>

section \<open>The announcement of a camera\<close>

lemma utf8_tail_append: "utf8_tail n k bs = Good m \<Longrightarrow> utf8_tail n k (bs @ xs) = Good m"
  by (induction n k bs rule: utf8_tail.induct) (auto split: if_splits)

lemma utf8_next_append: "utf8_next b bs = Good m \<Longrightarrow> utf8_next b (bs @ xs) = Good m"
  by (cases bs) (auto simp: utf8_next.simps Let_def utf8_tail_append split: if_splits)

lemma utf8_next_fits: "utf8_next b bs = Good m \<Longrightarrow> m \<le> length (b # bs)"
proof -
  assume g: "utf8_next b bs = Good m"
  have "utf8_width b \<le> 4" by (simp add: utf8_width_def)
  with g show ?thesis
    by (fastforce simp: utf8_next.simps Let_def split: if_splits list.splits dest: utf8_tail_len(1))
qed

lemma utf8_lossy_append: "utf8_check i a = Ok () \<Longrightarrow> utf8_lossy (a @ xs) = a @ utf8_lossy xs"
proof (induction i a rule: utf8_check.induct)
  case (1 i)
  then show ?case by simp
next
  case (2 i b bs)
  obtain m where m: "utf8_next b bs = Good m" "utf8_check (i + m) (drop m (b # bs)) = Ok ()"
    using "2.prems" by (auto split: utf8_item.splits)
  note fits = utf8_next_fits [OF m(1)]
  have "utf8_lossy ((b # bs) @ xs) = take m ((b # bs) @ xs) @ utf8_lossy (drop m ((b # bs) @ xs))"
    using utf8_next_append [OF m(1), of xs] by simp
  also have "drop m ((b # bs) @ xs) = drop m (b # bs) @ xs"
    using fits by (simp only: drop_append) simp
  also have "utf8_lossy (drop m (b # bs) @ xs) = drop m (b # bs) @ utf8_lossy xs"
    using "2.IH" [OF m] .
  also have "take m ((b # bs) @ xs) = take m (b # bs)"
    using fits by (simp only: take_append) simp
  finally show ?case by simp
qed

lemma utf8_lossy_nuls: "utf8_lossy (replicate k 0) = replicate k 0"
  by (induction k) (simp_all add: utf8_next_ascii)

text \<open>Two reserved bytes follow the port; the name starts at offset 14.\<close>

definition announcement :: "u16 \<Rightarrow> discovered_camera \<Rightarrow> nat \<Rightarrow> bytes" where
  "announcement reserved c k =
     write_u16_be (discovery_code Response) @ write_u16_be 0x0100 @
     write_u32_be (vendor_extension_id c) @ write_u16_be (vendor_extension_version c) @
     write_u16_be (cam_port c) @ write_u16_be reserved @ bytes_of_string (model_name c) @ replicate k 0"

lemma string_of_append [simp]: "string_of_bytes (a @ b) = string_of_bytes a @ string_of_bytes b"
  by (simp add: string_of_bytes_def)

lemma dropWhile_none: "\<forall>x \<in> set xs. \<not> P x \<Longrightarrow> dropWhile P (xs @ ys) = (if xs = [] then dropWhile P ys else xs @ ys)"
  by (cases xs) auto

lemma dropWhile_all: "\<forall>x \<in> set xs. P x \<Longrightarrow> dropWhile P (xs @ ys) = dropWhile P ys"
  by (induction xs) auto

lemma trim_nul_pad:
  assumes "\<forall>c \<in> set s. c \<noteq> char_of (0 :: nat)"
  shows "trim_nul (s @ replicate k (char_of (0 :: nat))) = s"
proof -
  let ?p = "\<lambda>c. c = char_of (0 :: nat)"
  have tail: "dropWhile ?p (rev (s @ replicate k (char_of (0 :: nat)))) = rev s"
    using assms by (simp add: dropWhile_all dropWhile_none [of "rev s" ?p "[]", simplified])
  show ?thesis
  proof (cases "s = []")
    case True
    then show ?thesis by (simp add: trim_nul_def)
  next
    case False
    then have "dropWhile ?p (s @ replicate k (char_of (0 :: nat))) = s @ replicate k (char_of (0 :: nat))"
      using assms by (simp add: dropWhile_none)
    with tail show ?thesis by (simp only: trim_nul_def Let_def rev_rev_ident)
  qed
qed

lemma parse_announcement:
  assumes bo: "byteorder_spec bo" and name: "valid_str (model_name c)" "0 \<notin> set (bytes_of_string (model_name c))"
  shows "parse_discovery_response bo (announcement reserved c k) (V4 (ip_address c) port) = Ok (Some c)"
proof -
  have "string_of_bytes (replicate k 0) = replicate k (char_of (0 :: nat))"
    by (simp add: string_of_bytes_def)
  moreover have "\<forall>x \<in> set (model_name c). x \<noteq> char_of (0 :: nat)"
    using name(2) by (auto simp: bytes_of_string_def image_iff)
  ultimately have "trim_nul (string_of_bytes (utf8_lossy (bytes_of_string (model_name c) @ replicate k 0))) = model_name c"
    using utf8_lossy_append [of 0 "bytes_of_string (model_name c)"] name(1)
    by (simp add: valid_str_def utf8_lossy_nuls trim_nul_pad)
  then show ?thesis
    by (simp add: parse_discovery_response_def announcement_def bo_simps [OF bo] cursor_new_split
        u16.rd_split u32.rd_split Let_def)
qed

text \<open>
  C26. A camera's announcement is understood: the parser returns its address from the sender, its port,
  its vendor fields and its name, whatever the reserved bytes are and however many NUL bytes pad the name, for every name that is
  well-formed UTF-8 without NUL.
\<close>

theorem announcement_roundtrip:
  assumes "byteorder_spec bo" and "valid_str (model_name c)" and "0 \<notin> set (bytes_of_string (model_name c))"
  shows "parse_discovery_response bo (announcement reserved c k) (V4 (ip_address c) port) = Ok (Some c)"
  using parse_announcement [OF assms] .

definition nikon :: discovered_camera where
  "nikon = \<lparr>ip_address = Ipv4 192 168 1 1, cam_port = 15740, model_name = ''Nikon Z7'',
     vendor_extension_id = 10, vendor_extension_version = 1\<rparr>"

lemma nikon_name: "valid_str (model_name nikon)" "0 \<notin> set (bytes_of_string (model_name nikon))"
  by (simp_all add: nikon_def valid_str_def bytes_of_string_def utf8_check_ascii del: utf8_check.simps)

theorem announcement_roundtrip_witness:
  "parse_discovery_response utils_byteorder (announcement 0 nikon 3) (V4 (Ipv4 192 168 1 1) 1900) = Ok (Some nikon)"
  using announcement_roundtrip [OF utils_byteorder_spec nikon_name, of 0 3 1900]
  by (simp add: nikon_def)

section \<open>The search\<close>

lemma parse_discovery_ok:
  assumes bo: "byteorder_spec bo"
  shows "is_ok (parse_discovery_response bo data src)"
proof (cases "length data < 14")
  case True
  then show ?thesis by (simp add: parse_discovery_response_def)
next
  case False
  then have "\<not> length data - 2 < 2" "\<not> length data - 4 < 4" "\<not> length data - 8 < 2" "\<not> length data - 10 < 2"
    "\<not> length data < 2"
    by simp_all
  with False show ?thesis
    by (simp add: parse_discovery_response_def bo_simps [OF bo] read_eq_be_value remaining_at Let_def
        split: sock_addr.split)
qed

text \<open>What \<open>cameras\<close> satisfies at every point of the search in which the script was \<open>evs\<close>.\<close>

definition found_ok :: "byteorder \<Rightarrow> udp_event list \<Rightarrow> discovered_camera list \<Rightarrow> bool" where
  "found_ok bo evs cameras \<longleftrightarrow>
     length cameras \<le> 10 \<and> distinct (map (\<lambda>c. (ip_address c, cam_port c)) cameras) \<and>
     (\<forall>c \<in> set cameras. \<exists>d data src. Arrives d data src \<in> set evs \<and>
        parse_discovery_response bo (take 1024 data) src = Ok (Some c))"

lemma found_ok_Nil [simp]: "found_ok bo evs []"
  by (simp add: found_ok_def)

lemma found_ok_add:
  assumes "found_ok bo evs cameras" and "length cameras < 10" and "Arrives d data src \<in> set evs"
    and "parse_discovery_response bo (take 1024 data) src = Ok (Some c)"
  shows "found_ok bo evs (if list_ex (\<lambda>x. ip_address x = ip_address c \<and> cam_port x = cam_port c) cameras
     then cameras else cameras @ [c])"
  using assms by (auto simp: found_ok_def list_ex_iff)

lemma recv_from_cases:
  "recv_from w = (r, w') \<Longrightarrow>
     set (inbox w') \<subseteq> set (inbox w) \<and>
     (case r of Inl e \<Rightarrow> True | Inr (data, src) \<Rightarrow> \<exists>d full. Arrives d full src \<in> set (inbox w) \<and> data = take 1024 full)"
  by (auto simp: recv_from_def split: list.splits udp_event.splits) blast

text \<open>What one receive and one accepted camera keep, the inner loop keeps; and it never fails.\<close>

abbreviation add_camera :: "discovered_camera \<Rightarrow> discovered_camera list \<Rightarrow> discovered_camera list" where
  "add_camera c cams \<equiv>
     (if list_ex (\<lambda>x. ip_address x = ip_address c \<and> cam_port x = cam_port c) cams then cams else cams @ [c])"

lemma receive_responses_keeps:
  assumes recv: "\<And>cams w r w'. I cams w \<Longrightarrow> recv_from w = (r, w') \<Longrightarrow> I cams w'"
    and add: "\<And>cams w data src w' c. I cams w \<Longrightarrow> length cams < 10 \<Longrightarrow> recv_from w = (Ok (data, src), w') \<Longrightarrow>
      parse_discovery_response bo data src = Ok (Some c) \<Longrightarrow> I (add_camera c cams) w'"
    and bo: "byteorder_spec bo"
  shows "receive_responses bo t t0 cams seen w = (r, w') \<Longrightarrow> I cams w \<Longrightarrow>
     \<exists>cams' seen'. r = Ok (cams', seen') \<and> I cams' w'"
proof (induction "length (inbox w)" arbitrary: cams seen w rule: less_induct)
  case less
  note unfold = receive_responses.simps [of bo t t0 cams seen w]
  obtain r1 w1 where rcv: "recv_from w = (r1, w1)" by fastforce
  note inv1 = recv [OF less.prems(2) rcv]
  have shorter: "length (inbox w1) < length (inbox w)"
    if "r1 \<noteq> Err would_block_error"
    using rcv that by (auto simp: recv_from_def split: list.splits udp_event.splits)
  show ?case
  proof (cases "udp_clock w - t0 > t \<or> length cams \<ge> 10")
    case True
    with less.prems show ?thesis by (auto simp: unfold split: if_splits)
  next
    case False
    then have go: "\<not> udp_clock w - t0 > t" "\<not> length cams \<ge> 10" by auto
    show ?thesis
    proof (cases r1)
      case (Inl e)
      show ?thesis
      proof (cases "io_kind e = WouldBlock \<or> io_kind e = TimedOut")
        case True
        with less.prems go rcv Inl inv1 show ?thesis by (auto simp: unfold)
      next
        case again: False
        then have "r1 \<noteq> Err would_block_error" using Inl by (auto simp: would_block_error_def)
        then show ?thesis
          using less.prems(1) go rcv Inl again by (intro less.hyps [OF shorter _ inv1]) (auto simp: unfold)
      qed
    next
      case (Inr a)
      obtain data src where a: "a = (data, src)" by fastforce
      have ok: "r1 \<noteq> Err would_block_error" using Inr by simp
      show ?thesis
      proof (cases "src \<in> seen")
        case True
        with less.prems(1) go rcv Inr a show ?thesis
          by (intro less.hyps [OF shorter [OF ok] _ inv1]) (simp add: unfold)
      next
        case new: False
        obtain found where found: "parse_discovery_response bo data src = Ok found"
          using parse_discovery_ok [OF bo, of data src] unfolding is_ok_iff by blast
        show ?thesis
        proof (cases found)
          case None
          with less.prems(1) go rcv Inr a new found show ?thesis
            by (intro less.hyps [OF shorter [OF ok] _ inv1]) (simp add: unfold)
        next
          case (Some c)
          then have "I (add_camera c cams) w1"
            using add [OF less.prems(2) _ _ found [unfolded Some]] go(2) rcv Inr a by simp
          then show ?thesis
            using less.prems(1) go rcv Inr a new found Some
            by (intro less.hyps [OF shorter [OF ok], of "add_camera c cams" "insert src seen"]) (simp_all add: unfold)
        qed
      qed
    qed
  qed
qed

lemma receive_responses_found:
  assumes "byteorder_spec bo" and "receive_responses bo t t0 cams seen w = (r, w')"
    and "set (inbox w) \<subseteq> set evs" and "found_ok bo evs cams"
  shows "set (inbox w') \<subseteq> set evs \<and> (\<exists>cams' seen'. r = Ok (cams', seen') \<and> found_ok bo evs cams')"
proof -
  have "\<exists>cams' seen'. r = Ok (cams', seen') \<and> set (inbox w') \<subseteq> set evs \<and> found_ok bo evs cams'"
  proof (rule receive_responses_keeps [where I = "\<lambda>cams w. set (inbox w) \<subseteq> set evs \<and> found_ok bo evs cams",
        OF _ _ assms(1,2)])
    show "set (inbox w2) \<subseteq> set evs \<and> found_ok bo evs (add_camera c cams1)"
      if I: "set (inbox w1) \<subseteq> set evs \<and> found_ok bo evs cams1" and less: "length cams1 < 10"
        and rcv: "recv_from w1 = (Ok (data, src), w2)"
        and parsed: "parse_discovery_response bo data src = Ok (Some c)" for cams1 w1 data src w2 c
    proof -
      obtain d full where "Arrives d full src \<in> set evs" "data = take 1024 full"
        using recv_from_cases [OF rcv] I by auto
      then show ?thesis
        using found_ok_add [of bo evs cams1 d full src c] recv_from_cases [OF rcv] I less parsed by auto
    qed
  qed (use recv_from_cases assms(3,4) in fastforce)+
  then show ?thesis by blast
qed

text \<open>A camera once found stays in the list.\<close>

lemma receive_responses_grows:
  assumes "byteorder_spec bo" and "receive_responses bo t t0 cams seen w = (r, w')"
  shows "send_script w' = send_script w \<and> (\<exists>cams' seen'. r = Ok (cams', seen') \<and> set cams \<subseteq> set cams')"
proof -
  have "\<exists>cams' seen'. r = Ok (cams', seen') \<and> send_script w' = send_script w \<and> set cams \<subseteq> set cams'"
    by (rule receive_responses_keeps [where I = "\<lambda>cams' w'. send_script w' = send_script w \<and> set cams \<subseteq> set cams'",
          OF _ _ assms])
      (auto simp: recv_from_def split: list.splits udp_event.splits)
  then show ?thesis by blast
qed

lemma send_all_steady:
  "send_all packet dests w = (r, w') \<Longrightarrow>
     inbox w' = inbox w \<and> udp_clock w' = udp_clock w \<and> udp_timeout w' = udp_timeout w"
proof (induction dests arbitrary: w)
  case Nil
  then show ?case by (simp add: ret_def)
next
  case (Cons dest dests)
  obtain r1 w1 where s: "send_to packet dest w = (r1, w1)" by fastforce
  then have "inbox w1 = inbox w \<and> udp_clock w1 = udp_clock w \<and> udp_timeout w1 = udp_timeout w"
    by (auto simp: send_to_def split: list.splits option.splits)
  with s Cons show ?case
    by (cases r1) (auto simp: bind_io_def io_try_def)
qed

lemma send_all_quiet:
  "send_script w = [] \<Longrightarrow>
     send_all packet dests w = (Ok (), w\<lparr>outbox := outbox w @ map (\<lambda>d. (packet, d)) dests\<rparr>)"
  by (induction dests arbitrary: w) (simp_all add: ret_def bind_io_def io_try_def send_to_def)

lemma pause_inbox [simp]:
  "inbox (pause config k cams w) = inbox w" "send_script (pause config k cams w) = send_script w"
  "outbox (pause config k cams w) = outbox w"
  by (simp_all add: pause_def udp_sleep_def)

lemma discovery_attempts_found:
  assumes bo: "byteorder_spec bo"
  shows "discovery_attempts bo config packet dests t0 k n cams seen w = (Ok cs, w') \<Longrightarrow>
     set (inbox w) \<subseteq> set evs \<Longrightarrow> found_ok bo evs cams \<Longrightarrow> found_ok bo evs cs"
proof (induction n arbitrary: k cams seen w)
  case 0
  then show ?case by simp
next
  case (Suc n)
  obtain w1 cams1 seen1 w2 where steps:
    "send_all packet dests w = (Ok (), w1)"
    "receive_responses bo (disc_timeout config) t0 cams seen w1 = (Ok (cams1, seen1), w2)"
    "discovery_attempts bo config packet dests t0 (k + 1) n cams1 seen1 (pause config k cams1 w2) = (Ok cs, w')"
    using Suc.prems(1) by (auto simp: bind_io_eq_Ok)
  have "set (inbox w1) \<subseteq> set evs" using send_all_steady [OF steps(1)] Suc.prems(2) by simp
  from receive_responses_found [OF bo steps(2) this Suc.prems(3)]
  show ?case using Suc.IH [OF steps(3)] by simp
qed

lemma sys_call_steady: "sys_call f w = (r, w') \<Longrightarrow> (\<And>w. inbox (f w) = inbox w) \<Longrightarrow> inbox w' = inbox w"
  by (auto simp: sys_call_def split: list.splits option.splits)

lemma create_socket_steady: "create_discovery_socket config w = (r, w') \<Longrightarrow> inbox w' = inbox w"
  by (auto simp: create_discovery_socket_def bind_io_def io_try_def ret_def lift_r_def udp_bind_def
      join_multicast_def split: option.splits prod.splits sum.splits if_splits dest!: sys_call_steady)

lemma discover_cameras_found_ok:
  assumes "byteorder_spec bo" and "discover_cameras bo config w = (Ok cs, w')"
  shows "found_ok bo (inbox w) cs"
proof -
  obtain w1 w2 w3 packet where steps:
    "create_discovery_socket config w = (Ok (), w1)" "io_try (set_broadcast True) w1 = (Ok (), w2)"
    "io_try (udp_set_read_timeout (disc_timeout config)) w2 = (Ok (), w3)"
    "discovery_attempts bo config packet (get_discovery_destinations config) (udp_clock w3) 1
       (retry_count config) [] {} w3 = (Ok cs, w')"
    using assms(2) by (auto simp: discover_cameras_def bind_io_eq_Ok lift_r_def)
  have "inbox w3 = inbox w"
    using create_socket_steady [OF steps(1)] steps(2,3)
    by (auto simp: io_try_def set_broadcast_def udp_set_read_timeout_def dest!: sys_call_steady
        split: prod.splits sum.splits if_splits)
  then show ?thesis
    using discovery_attempts_found [OF assms(1) steps(4)] by simp
qed

text \<open>
  C23. The list that a search returns is bounded and sound, whatever datagrams arrive, in whatever order
  and from whomever: at most ten cameras, no two with the same address and port, and each one was
  announced by a datagram that arrived from its own address.
\<close>

theorem discover_cameras_sound:
  assumes "byteorder_spec bo" and "discover_cameras bo config w = (Ok cs, w')"
  shows "length cs \<le> 10 \<and> distinct (map (\<lambda>c. (ip_address c, cam_port c)) cs) \<and>
     (\<forall>c \<in> set cs. \<exists>d data port. Arrives d data (V4 (ip_address c) port) \<in> set (inbox w) \<and>
        parse_discovery_response bo (take 1024 data) (V4 (ip_address c) port) = Ok (Some c))"
proof -
  have "\<exists>port. src = V4 (ip_address c) port"
    if "parse_discovery_response bo data src = Ok (Some c)" for data src c
    using that by (cases src) (auto simp: parse_discovery_response_def bind_r_eq_Ok Let_def split: if_splits)
  with discover_cameras_found_ok [OF assms] show ?thesis unfolding found_ok_def by metis
qed

section \<open>A camera that answers, and one that answers late\<close>

lemma receive_responses_step:
  assumes "inbox w = Arrives d data src # rest" and "\<not> udp_clock w - t0 > t" and "length cams < 10"
    and "src \<notin> seen" and "parse_discovery_response bo (take 1024 data) src = Ok (Some c)"
    and "\<not> list_ex (\<lambda>x. ip_address x = ip_address c \<and> cam_port x = cam_port c) cams"
  shows "receive_responses bo t t0 cams seen w =
     receive_responses bo t t0 (cams @ [c]) (insert src seen) (w\<lparr>inbox := rest, udp_clock := udp_clock w + d\<rparr>)"
  using assms by (subst receive_responses.simps) (simp add: recv_from_def)

section \<open>A camera that answers, and one that answers late\<close>

definition discovery_request :: bytes where
  "discovery_request = [0x00, 0x01, 0x01, 0x00, 0, 0, 0, 0]"

definition udp_ready :: "discovery_config \<Rightarrow> udp \<Rightarrow> udp" where
  "udp_ready config w = w\<lparr>groups := groups w @ (if use_multicast config then [Ipv4 239 255 255 250] else []),
     broadcast := True, udp_timeout := disc_timeout config\<rparr>"

lemma udp_ready_simps [simp]:
  "inbox (udp_ready config w) = inbox w" "outbox (udp_ready config w) = outbox w"
  "send_script (udp_ready config w) = send_script w" "udp_clock (udp_ready config w) = udp_clock w"
  "udp_timeout (udp_ready config w) = disc_timeout config"
  by (simp_all add: udp_ready_def)

lemma build_request: "byteorder_spec bo \<Longrightarrow> build_discovery_request bo = Ok discovery_request"
  by (simp add: build_discovery_request_def bo_simps discovery_request_def write_u16_be_def write_u32_be_def)

lemma discover_ready:
  assumes "byteorder_spec bo" and "sys_script w = []" and "0 < disc_timeout config"
  shows "discover_cameras bo config w =
     discovery_attempts bo config discovery_request (get_discovery_destinations config) (udp_clock w) 1
       (retry_count config) [] {} (udp_ready config w)"
proof -
  have "create_discovery_socket config w =
      (Ok (), w\<lparr>groups := groups w @ (if use_multicast config then [Ipv4 239 255 255 250] else [])\<rparr>)"
    using assms(2) by (simp add: create_discovery_socket_def bind_io_def io_try_def udp_bind_def sys_call_def
        join_multicast_def ret_def lift_r_def destinations_parse split: option.split)
  then show ?thesis
    using assms by (simp add: discover_cameras_def bind_io_Ok io_try_def set_broadcast_def sys_call_def
        udp_set_read_timeout_def build_request udp_ready_def)
qed

lemma attempts_step:
  assumes "send_script w = []"
    and "receive_responses bo (disc_timeout config) t0 cams seen
      (w\<lparr>outbox := outbox w @ map (\<lambda>d. (packet, d)) dests\<rparr>) = (Ok (cams', seen'), w')"
  shows "discovery_attempts bo config packet dests t0 k (Suc n) cams seen w =
     discovery_attempts bo config packet dests t0 (Suc k) n cams' seen' (pause config k cams' w')"
  using send_all_quiet [OF assms(1), of packet dests] assms(2) by (simp add: bind_io_def)

lemma attempts_grow:
  assumes "byteorder_spec bo"
  shows "send_script w = [] \<Longrightarrow>
     \<exists>cs w'. discovery_attempts bo config packet dests t0 k n cams seen w = (Ok cs, w') \<and> set cams \<subseteq> set cs"
proof (induction n arbitrary: k cams seen w)
  case 0
  then show ?case by simp
next
  case (Suc n)
  let ?w = "w\<lparr>outbox := outbox w @ map (\<lambda>d. (packet, d)) dests\<rparr>"
  obtain r w2 where rcv: "receive_responses bo (disc_timeout config) t0 cams seen ?w = (r, w2)" by fastforce
  then obtain cams2 seen2 where ok: "r = Ok (cams2, seen2)" "set cams \<subseteq> set cams2" "send_script w2 = []"
    using receive_responses_grows [OF assms rcv] Suc.prems by auto
  then obtain cs w' where
    "discovery_attempts bo config packet dests t0 (k + 1) n cams2 seen2 (pause config k cams2 w2) = (Ok cs, w')"
    "set cams2 \<subseteq> set cs"
    using Suc.IH [of "pause config k cams2 w2" "k + 1" cams2 seen2] by auto
  then show ?case
    using attempts_step [OF Suc.prems rcv [unfolded ok(1)]] ok(2) by auto
qed

lemma discover_succeeds:
  assumes "byteorder_spec bo" and "sys_script w = []" and "send_script w = []" and "0 < disc_timeout config"
  shows "\<exists>cs w'. discover_cameras bo config w = (Ok cs, w')"
  using attempts_grow [OF assms(1), of "udp_ready config w"] assms(3)
  by (simp add: discover_ready [OF assms(1,2,4)]) blast

text \<open>
  C24. A camera that answers first is found: on a socket that works, when the first datagram is its
  announcement, the search succeeds and its list has the camera, whatever arrives afterwards and
  whichever receives fail.
\<close>

theorem first_answer_found:
  assumes "byteorder_spec bo" and "sys_script w = []" and "send_script w = []"
    and "0 < disc_timeout config" and "0 < retry_count config"
    and "inbox w = Arrives d data src # rest" and "parse_discovery_response bo (take 1024 data) src = Ok (Some c)"
  shows "\<exists>cs w'. discover_cameras bo config w = (Ok cs, w') \<and> c \<in> set cs"
proof -
  obtain n where n: "retry_count config = Suc n" using assms(5) by (cases "retry_count config") auto
  let ?dests = "get_discovery_destinations config"
  let ?w1 = "(udp_ready config w)\<lparr>outbox := outbox w @ map (\<lambda>d. (discovery_request, d)) ?dests\<rparr>"
  let ?w2 = "?w1\<lparr>inbox := rest, udp_clock := udp_clock w + d\<rparr>"
  have first: "receive_responses bo (disc_timeout config) (udp_clock w) [] {} ?w1 =
      receive_responses bo (disc_timeout config) (udp_clock w) [c] {src} ?w2"
    using assms(6,7) by (subst receive_responses.simps) (simp add: recv_from_def)
  obtain r w3 where rcv: "receive_responses bo (disc_timeout config) (udp_clock w) [c] {src} ?w2 = (r, w3)"
    by fastforce
  then obtain cams seen where ok: "r = Ok (cams, seen)" "c \<in> set cams" "send_script w3 = []"
    using receive_responses_grows [OF assms(1) rcv] assms(3) by auto
  then obtain cs w' where
    "discovery_attempts bo config discovery_request ?dests (udp_clock w) (Suc (Suc 0)) n cams seen
       (pause config 1 cams w3) = (Ok cs, w')"
    "set cams \<subseteq> set cs"
    using attempts_grow [OF assms(1), of "pause config 1 cams w3"] by fastforce
  then show ?thesis
    using attempts_step [of "udp_ready config w" bo config "udp_clock w" "[]" "{}" discovery_request ?dests cams seen w3]
      first rcv ok(1,2) n assms(3)
    by (auto simp: discover_ready [OF assms(1,2,4)] simp del: discovery_attempts.simps(2))
qed

lemma nikon_announced:
  "parse_discovery_response utils_byteorder (take 1024 (announcement 0 nikon 3)) (V4 (Ipv4 192 168 1 1) 1900) = Ok (Some nikon)"
proof -
  have "length (announcement 0 nikon 3) \<le> 1024"
    by (simp add: announcement_def nikon_def bytes_of_string_def)
  then show ?thesis
    using parse_announcement [OF utils_byteorder_spec nikon_name, of 0 3 1900] by (simp add: nikon_def)
qed

theorem first_answer_found_witness:
  "\<exists>cs w'. discover_cameras utils_byteorder default_discovery_config
       (udp_quiet\<lparr>inbox := [Arrives 1000 (announcement 0 nikon 3) (V4 (Ipv4 192 168 1 1) 1900)]\<rparr>) = (Ok cs, w') \<and>
     nikon \<in> set cs"
  using first_answer_found [OF utils_byteorder_spec _ _ _ _ _ nikon_announced,
      of "udp_quiet\<lparr>inbox := [Arrives 1000 (announcement 0 nikon 3) (V4 (Ipv4 192 168 1 1) 1900)]\<rparr>"
        default_discovery_config 1000 "[]"]
  by (simp add: udp_quiet_def default_discovery_config_def duration_from_secs_def)

theorem discover_cameras_sound_witness:
  "\<exists>cs w'. discover_cameras utils_byteorder default_discovery_config
       (udp_quiet\<lparr>inbox := [Arrives 1000 (announcement 0 nikon 3) (V4 (Ipv4 192 168 1 1) 1900)]\<rparr>) = (Ok cs, w') \<and>
     length cs \<le> 10 \<and> distinct (map (\<lambda>c. (ip_address c, cam_port c)) cs)"
proof -
  have "\<exists>cs w'. discover_cameras utils_byteorder default_discovery_config
       (udp_quiet\<lparr>inbox := [Arrives 1000 (announcement 0 nikon 3) (V4 (Ipv4 192 168 1 1) 1900)]\<rparr>) = (Ok cs, w')"
    by (rule discover_succeeds [OF utils_byteorder_spec])
      (simp_all add: udp_quiet_def default_discovery_config_def duration_from_secs_def)
  then show ?thesis
    using discover_cameras_sound [OF utils_byteorder_spec] by blast
qed

section \<open>The timeout that spans all attempts\<close>

lemma receive_responses_late:
  "udp_clock w - t0 > t \<Longrightarrow> receive_responses bo t t0 cams seen w = (Ok (cams, seen), w)"
  by (subst receive_responses.simps) simp

lemma attempts_late:
  "send_script w = [] \<Longrightarrow> udp_clock w - t0 > disc_timeout config \<Longrightarrow>
     \<exists>w'. discovery_attempts bo config packet dests t0 k n cams seen w = (Ok cams, w') \<and> inbox w' = inbox w \<and>
       outbox w' = outbox w @ concat (replicate n (map (\<lambda>d. (packet, d)) dests))"
proof (induction n arbitrary: k w)
  case 0
  then show ?case by simp
next
  case (Suc n)
  let ?w = "w\<lparr>outbox := outbox w @ map (\<lambda>d. (packet, d)) dests\<rparr>"
  have "udp_clock (pause config k cams ?w) - t0 > disc_timeout config"
    using Suc.prems(2) by (auto simp: pause_def udp_sleep_def)
  then show ?case
    using Suc.IH [of "pause config k cams ?w" "Suc k"] Suc.prems
      attempts_step [OF Suc.prems(1), of bo config t0 cams seen packet dests cams seen ?w k n]
      receive_responses_late [of "disc_timeout config" ?w t0 bo cams seen]
    by simp
qed

text \<open>
  C25. Repeating the request does not help a camera that answers late. The timeout is measured from the
  start of the whole search: once the first wait has used it up, every further attempt sends its
  requests and does not listen, so an answer that arrives then is left unread in the socket.
\<close>

theorem retries_do_not_listen:
  assumes "byteorder_spec bo" and "sys_script w = []" and "send_script w = []"
    and "1 < disc_timeout config" and "0 < retry_count config"
    and "inbox w = Fails d e # rest" and "io_kind e = WouldBlock \<or> io_kind e = TimedOut" and "disc_timeout config \<le> d"
  shows "\<exists>w'. discover_cameras bo config w = (Ok [], w') \<and> inbox w' = rest \<and>
     outbox w' = outbox w @
       concat (replicate (retry_count config) (map (\<lambda>d. (discovery_request, d)) (get_discovery_destinations config)))"
proof -
  obtain n where n: "retry_count config = Suc n" using assms(5) by (cases "retry_count config") auto
  let ?dests = "get_discovery_destinations config"
  let ?w1 = "(udp_ready config w)\<lparr>outbox := outbox w @ map (\<lambda>d. (discovery_request, d)) ?dests\<rparr>"
  let ?w2 = "?w1\<lparr>inbox := rest, udp_clock := udp_clock w + d\<rparr>"
  have first: "receive_responses bo (disc_timeout config) (udp_clock w) [] {} ?w1 = (Ok ([], {}), ?w2)"
    using assms(6,7) by (subst receive_responses.simps) (simp add: recv_from_def)
  have run: "discover_cameras bo config w =
      discovery_attempts bo config discovery_request ?dests (udp_clock w) (Suc 1) n [] {} (pause config 1 [] ?w2)"
    using attempts_step [of "udp_ready config w" bo config "udp_clock w" "[]" "{}" discovery_request ?dests "[]" "{}" ?w2]
      first assms(3,4) n
    by (simp add: discover_ready [OF assms(1,2)] del: discovery_attempts.simps(2))
  show ?thesis
  proof (cases n)
    case 0
    then show ?thesis using run n by simp
  next
    case (Suc m)
    then have "udp_clock (pause config 1 [] ?w2) - udp_clock w > disc_timeout config"
      using n assms(4,8) by (simp add: pause_def udp_sleep_def)
    then show ?thesis
      using attempts_late [of "pause config 1 [] ?w2" config "udp_clock w" bo discovery_request ?dests "Suc 1" n "[]" "{}"]
        n assms(3) run
      by simp
  qed
qed

theorem retries_do_not_listen_witness:
  "\<exists>w'. discover_cameras utils_byteorder default_discovery_config
       (udp_quiet\<lparr>inbox := [Fails (duration_from_secs 5) would_block_error,
          Arrives 1000 (announcement 0 nikon 3) (V4 (Ipv4 192 168 1 1) 1900)]\<rparr>) = (Ok [], w') \<and>
     inbox w' = [Arrives 1000 (announcement 0 nikon 3) (V4 (Ipv4 192 168 1 1) 1900)] \<and> length (outbox w') = 6"
proof -
  note late = retries_do_not_listen [OF utils_byteorder_spec, of
      "udp_quiet\<lparr>inbox := [Fails (duration_from_secs 5) would_block_error,
          Arrives 1000 (announcement 0 nikon 3) (V4 (Ipv4 192 168 1 1) 1900)]\<rparr>" default_discovery_config
      "duration_from_secs 5" would_block_error "[Arrives 1000 (announcement 0 nikon 3) (V4 (Ipv4 192 168 1 1) 1900)]"]
  obtain w' where "discover_cameras utils_byteorder default_discovery_config
       (udp_quiet\<lparr>inbox := [Fails (duration_from_secs 5) would_block_error,
          Arrives 1000 (announcement 0 nikon 3) (V4 (Ipv4 192 168 1 1) 1900)]\<rparr>) = (Ok [], w')"
    "inbox w' = [Arrives 1000 (announcement 0 nikon 3) (V4 (Ipv4 192 168 1 1) 1900)]"
    "outbox w' = concat (replicate 3 (map (\<lambda>d. (discovery_request, d)) (get_discovery_destinations default_discovery_config)))"
    using late by (auto simp: udp_quiet_def default_discovery_config_def duration_from_secs_def would_block_error_def)
  then show ?thesis
    by (simp add: get_discovery_destinations_def default_discovery_config_def eval_nat_numeral)
qed

end
