(* ===== verification/Discovery_FFI.thy ===== *)
theory Discovery_FFI
  imports Discovery_Facts
begin

text \<open>
  The C interface of \<open>src/discovery.rs\<close>. The C heap has the blocks of \<open>calloc\<close> and the strings of
  \<open>CString::into_raw\<close>, by address, and the two variables that the caller's out pointers designate;
  \<open>calloc_script\<close> says which allocations fail. Freeing returns \<open>None\<close> where the code would
  use memory that it does not own, which is undefined behaviour.
\<close>

record c_heap =
  c_arrays :: "nat \<Rightarrow> c_camera list option"
  c_strings :: "nat \<Rightarrow> bytes option"
  heap_next :: nat
  calloc_script :: "bool list"
  out_cameras :: "nat option"
  out_count :: usize

definition zero_camera :: c_camera where
  "zero_camera = \<lparr>c_ip_address = [0, 0, 0, 0], c_port = 0, c_model_name = None, c_vendor_id = 0\<rparr>"

definition calloc :: "usize \<Rightarrow> c_heap \<Rightarrow> nat option \<times> c_heap" where
  "calloc n h =
     (if calloc_script h \<noteq> [] \<and> hd (calloc_script h) then (None, h\<lparr>calloc_script := tl (calloc_script h)\<rparr>)
      else (Some (heap_next h),
        h\<lparr>c_arrays := (c_arrays h)(heap_next h \<mapsto> replicate n zero_camera), heap_next := Suc (heap_next h),
          calloc_script := tl (calloc_script h)\<rparr>))"

text \<open>The allocation behind \<open>rust_str_to_c\<close>: a fresh address for its bytes, or null.\<close>

definition alloc_name :: "string \<Rightarrow> c_heap \<Rightarrow> nat option \<times> c_heap" where
  "alloc_name s h =
     (case rust_str_to_c s of
        None \<Rightarrow> (None, h)
      | Some mem \<Rightarrow>
          (Some (heap_next h), h\<lparr>c_strings := (c_strings h)(heap_next h \<mapsto> mem), heap_next := Suc (heap_next h)\<rparr>))"

fun fill_cameras :: "nat \<Rightarrow> nat \<Rightarrow> discovered_camera list \<Rightarrow> c_heap \<Rightarrow> c_heap" where
  "fill_cameras a i [] h = h"
| "fill_cameras a i (camera # cameras) h =
     (case alloc_name (model_name camera) h of
        (p, h') \<Rightarrow>
          fill_cameras a (Suc i) cameras
            (h'\<lparr>c_arrays := (c_arrays h')(a := map_option (\<lambda>es. es[i :=
               \<lparr>c_ip_address = ipv4_to_bytes (ip_address camera), c_port = cam_port camera,
                c_model_name = p, c_vendor_id = vendor_extension_id camera\<rparr>]) (c_arrays h' a))\<rparr>))"

text \<open>A null out pointer is passed as \<open>True\<close>. The result is the return code.\<close>

definition ptpip_discover_cameras :: "byteorder \<Rightarrow> bool \<Rightarrow> bool \<Rightarrow> udp \<Rightarrow> c_heap \<Rightarrow> int \<times> udp \<times> c_heap" where
  "ptpip_discover_cameras bo cameras_null count_null w h =
     (if cameras_null \<or> count_null then (-1, w, h)
      else
        case discover_cameras bo default_discovery_config w of
          (Inl e, w') \<Rightarrow> (-2, w', h)
        | (Inr cameras, w') \<Rightarrow>
            (let h = h\<lparr>out_count := length cameras\<rparr> in
             if length cameras = 0 then (0, w', h\<lparr>out_cameras := None\<rparr>)
             else
               case calloc (length cameras) h of
                 (None, h) \<Rightarrow> (-3, w', h)
               | (Some c_cameras, h) \<Rightarrow>
                   (0, w', (fill_cameras c_cameras 0 cameras h)\<lparr>out_cameras := Some c_cameras\<rparr>)))"

text \<open>\<open>free_names a i n\<close> is the loop from index \<open>i\<close> on, with \<open>n\<close> turns left.\<close>

fun free_names :: "nat \<Rightarrow> nat \<Rightarrow> nat \<Rightarrow> c_heap \<Rightarrow> c_heap option" where
  "free_names a i 0 h = Some h"
| "free_names a i (Suc n) h =
     (case c_arrays h a of
        None \<Rightarrow> None
      | Some es \<Rightarrow>
          if length es \<le> i then None
          else
            case c_model_name (es ! i) of
              None \<Rightarrow> free_names a (Suc i) n h
            | Some p \<Rightarrow>
                if c_strings h p = None then None
                else free_names a (Suc i) n (h\<lparr>c_strings := (c_strings h)(p := None)\<rparr>))"

definition ptpip_free_cameras :: "nat option \<Rightarrow> usize \<Rightarrow> c_heap \<Rightarrow> c_heap option" where
  "ptpip_free_cameras cameras n h =
     (case cameras of
        None \<Rightarrow> Some h
      | Some a \<Rightarrow>
          if n = 0 then Some h
          else
            (case free_names a 0 n h of
               None \<Rightarrow> None
             | Some h \<Rightarrow> Some (h\<lparr>c_arrays := (c_arrays h)(a := None)\<rparr>)))"

section \<open>What the heap keeps\<close>

text \<open>Addresses from \<open>heap_next\<close> on are free.\<close>

definition heap_ok :: "c_heap \<Rightarrow> bool" where
  "heap_ok h \<longleftrightarrow> (\<forall>a. heap_next h \<le> a \<longrightarrow> c_arrays h a = None \<and> c_strings h a = None)"

definition name_ptrs :: "c_camera list \<Rightarrow> nat list" where
  "name_ptrs es = concat (map (\<lambda>e. case c_model_name e of None \<Rightarrow> [] | Some p \<Rightarrow> [p]) es)"

lemma name_ptrs_simps [simp]:
  "name_ptrs [] = []"
  "name_ptrs (e # es) = (case c_model_name e of None \<Rightarrow> [] | Some p \<Rightarrow> [p]) @ name_ptrs es"
  by (simp_all add: name_ptrs_def)

text \<open>An entry shows a camera: its fields, and the C string of its name.\<close>

definition shows_camera :: "c_heap \<Rightarrow> discovered_camera \<Rightarrow> c_camera \<Rightarrow> bool" where
  "shows_camera h c e \<longleftrightarrow>
     c_ip_address e = ipv4_to_bytes (ip_address c) \<and> c_port e = cam_port c \<and>
     c_vendor_id e = vendor_extension_id c \<and>
     Option.bind (c_model_name e) (c_strings h) = rust_str_to_c (model_name c)"

lemma free_names_ok:
  "c_arrays h a = Some es \<Longrightarrow> i + n = length es \<Longrightarrow> distinct (name_ptrs (drop i es)) \<Longrightarrow>
     set (name_ptrs (drop i es)) \<subseteq> dom (c_strings h) \<Longrightarrow>
     free_names a i n h = Some (h\<lparr>c_strings := c_strings h |` (- set (name_ptrs (drop i es)))\<rparr>)"
proof (induction n arbitrary: i h)
  case 0
  then show ?case by simp
next
  case (Suc n)
  then have i: "i < length es" by simp
  note dr = Cons_nth_drop_Suc [OF i, symmetric]
  show ?case
  proof (cases "c_model_name (es ! i)")
    case None
    with Suc.prems i Suc.IH [of h "Suc i"] show ?thesis by (simp add: dr)
  next
    case (Some p)
    let ?h = "h\<lparr>c_strings := (c_strings h)(p := None)\<rparr>"
    have eq: "c_strings ?h |` (- set (name_ptrs (drop (Suc i) es))) = c_strings h |` (- set (name_ptrs (drop i es)))"
      using Some by (auto simp: dr restrict_map_def fun_eq_iff)
    have "free_names a (Suc i) n ?h = Some (?h\<lparr>c_strings := c_strings ?h |` (- set (name_ptrs (drop (Suc i) es)))\<rparr>)"
      by (rule Suc.IH) (use Suc.prems Some i in \<open>auto simp: dr\<close>)
    then have "free_names a (Suc i) n ?h = Some (h\<lparr>c_strings := c_strings h |` (- set (name_ptrs (drop i es)))\<rparr>)"
      unfolding eq by simp
    then show ?thesis
      using Suc.prems Some i by (auto simp: dr)
  qed
qed

text \<open>What filling the array leaves: the entries show the cameras, and own fresh strings.\<close>

definition filled :: "nat \<Rightarrow> discovered_camera list \<Rightarrow> c_camera list \<Rightarrow> c_heap \<Rightarrow> c_heap \<Rightarrow> bool" where
  "filled a cs es h h' \<longleftrightarrow>
     heap_ok h' \<and> heap_next h \<le> heap_next h' \<and> list_all2 (shows_camera h') cs es \<and> distinct (name_ptrs es) \<and>
     set (name_ptrs es) \<subseteq> {heap_next h ..< heap_next h'} \<and> set (name_ptrs es) \<subseteq> dom (c_strings h') \<and>
     c_strings h' |` (- set (name_ptrs es)) = c_strings h \<and> out_count h' = out_count h"

lemma alloc_name_filled:
  assumes "alloc_name (model_name c) h = (p, h1)" and "heap_ok h"
  shows "filled a [c] [\<lparr>c_ip_address = ipv4_to_bytes (ip_address c), c_port = cam_port c,
       c_model_name = p, c_vendor_id = vendor_extension_id c\<rparr>] h h1 \<and> c_arrays h1 = c_arrays h"
proof -
  have "c_strings h (heap_next h) = None" using assms(2) by (simp add: heap_ok_def)
  then show ?thesis
    using assms by (cases "rust_str_to_c (model_name c)")
      (auto simp: alloc_name_def filled_def shows_camera_def heap_ok_def restrict_map_def fun_eq_iff split: if_splits)
qed

lemma filled_Cons:
  assumes "filled a [c] [e] h h1" and "filled a cs es (h1\<lparr>c_arrays := arrs\<rparr>) h'"
  shows "filled a (c # cs) (e # es) h h'"
proof -
  have keep: "c_strings h' p = c_strings h1 p" if "p < heap_next h1" for p
  proof -
    have "p \<notin> set (name_ptrs es)" using assms(2) that by (auto simp: filled_def)
    then have "(c_strings h' |` (- set (name_ptrs es))) p = c_strings h' p" by simp
    then show ?thesis using assms(2) by (simp add: filled_def)
  qed
  have "shows_camera h' c e"
    using assms(1) keep by (auto simp: filled_def shows_camera_def split: option.splits)
  moreover have "c_strings h' |` (- set (name_ptrs (e # es))) = c_strings h"
  proof -
    have "c_strings h' |` (- set (name_ptrs (e # es))) =
        (c_strings h' |` (- set (name_ptrs es))) |` (- set (name_ptrs [e]))"
      by (simp add: Int_commute)
    also have "c_strings h' |` (- set (name_ptrs es)) = c_strings h1" using assms(2) by (simp add: filled_def)
    also have "c_strings h1 |` (- set (name_ptrs [e])) = c_strings h" using assms(1) by (simp add: filled_def)
    finally show ?thesis .
  qed
  moreover have "set (name_ptrs [e]) \<subseteq> dom (c_strings h')"
    using assms(1) keep by (auto simp: filled_def dom_def split: option.splits)
  ultimately show ?thesis
    using assms by (fastforce simp: filled_def split: option.splits)
qed

lemma fill_cameras_ok:
  "c_arrays h a = Some es \<Longrightarrow> i + length cs = length es \<Longrightarrow> heap_ok h \<Longrightarrow> a < heap_next h \<Longrightarrow>
     \<exists>es'. filled a cs es' h (fill_cameras a i cs h) \<and>
       c_arrays (fill_cameras a i cs h) = (c_arrays h)(a \<mapsto> take i es @ es')"
proof (induction cs arbitrary: i es h)
  case Nil
  then show ?case by (auto simp: filled_def)
next
  case (Cons c cs)
  obtain p h1 where al: "alloc_name (model_name c) h = (p, h1)" by fastforce
  let ?e = "\<lparr>c_ip_address = ipv4_to_bytes (ip_address c), c_port = cam_port c,
       c_model_name = p, c_vendor_id = vendor_extension_id c\<rparr>"
  obtain e where e: "e = ?e" by blast
  obtain h2 where h2: "h2 = h1\<lparr>c_arrays := (c_arrays h)(a \<mapsto> es[i := e])\<rparr>" by blast
  have one: "filled a [c] [e] h h1" and arr: "c_arrays h1 = c_arrays h"
    using alloc_name_filled [OF al Cons.prems(3)] e by blast+
  have "c_arrays h2 a = Some (es[i := e])" "heap_ok h2" "a < heap_next h2"
    using one arr Cons.prems(4) by (auto simp: filled_def heap_ok_def h2)
  then obtain es' where es': "filled a cs es' h2 (fill_cameras a (Suc i) cs h2)"
    "c_arrays (fill_cameras a (Suc i) cs h2) = (c_arrays h2)(a \<mapsto> take (Suc i) (es[i := e]) @ es')"
    using Cons.IH [of h2 "es[i := e]" "Suc i"] Cons.prems(2) by force
  have "take (Suc i) (es[i := e]) = take i es @ [e]"
    using Cons.prems(2) by (simp add: take_Suc_conv_app_nth)
  moreover have "fill_cameras a i (c # cs) h = fill_cameras a (Suc i) cs h2"
    using al arr Cons.prems(1) by (simp add: h2 e)
  ultimately show ?case
    using filled_Cons [OF one es'(1) [unfolded h2]] es'(2) by (intro exI [of _ "e # es'"]) (simp add: h2)
qed

section \<open>What the caller gets\<close>

text \<open>The cameras that the caller's variables designate.\<close>

definition c_view :: "c_heap \<Rightarrow> c_camera list option" where
  "c_view h = (case out_cameras h of None \<Rightarrow> Some [] | Some a \<Rightarrow> c_arrays h a)"

lemma discover_ffi_ok:
  assumes "discover_cameras bo default_discovery_config w = (Ok cs, w')" and "cs \<noteq> []"
    and "calloc_script h = []" and "heap_ok h"
  shows "\<exists>h' es. ptpip_discover_cameras bo False False w h = (0, w', h') \<and> out_cameras h' = Some (heap_next h) \<and>
     filled (heap_next h) cs es (h\<lparr>out_count := length cs\<rparr>) h' \<and> c_arrays h' = (c_arrays h)(heap_next h \<mapsto> es) \<and> out_count h' = length cs"
proof -
  let ?h = "h\<lparr>out_count := length cs, c_arrays := (c_arrays h)(heap_next h \<mapsto> replicate (length cs) zero_camera),
      heap_next := Suc (heap_next h), calloc_script := []\<rparr>"
  let ?f = "fill_cameras (heap_next h) 0 cs ?h"
  have "heap_ok ?h" using assms(4) by (auto simp: heap_ok_def)
  then obtain es where es: "filled (heap_next h) cs es ?h ?f" "c_arrays ?f = (c_arrays h)(heap_next h \<mapsto> es)"
    using fill_cameras_ok [of ?h "heap_next h" "replicate (length cs) zero_camera" 0 cs] by auto
  have "shows_camera (?f\<lparr>out_cameras := Some (heap_next h)\<rparr>) = shows_camera ?f"
    by (simp add: shows_camera_def fun_eq_iff)
  then have "filled (heap_next h) cs es (h\<lparr>out_count := length cs\<rparr>) (?f\<lparr>out_cameras := Some (heap_next h)\<rparr>)"
    using es(1) by (auto simp: filled_def heap_ok_def)
  moreover have "ptpip_discover_cameras bo False False w h = (0, w', ?f\<lparr>out_cameras := Some (heap_next h)\<rparr>)"
    using assms(1,2,3) by (simp add: ptpip_discover_cameras_def calloc_def)
  ultimately show ?thesis using es by (auto simp: filled_def)
qed

text \<open>
  C27. What discovery hands to C is complete and can be given back: the count is that of the list,
  each entry of the array shows its camera, with its name as a C string of its own, null when the name cannot be
  one; freeing with the count that was returned frees the array and every string once, restores the heap exactly, and
  nothing else; freeing twice is a use of freed memory, except for the empty list.
\<close>

theorem discover_then_free:
  assumes "discover_cameras bo default_discovery_config w = (Ok cs, w')"
    and "calloc_script h = []" and "heap_ok h"
  shows "\<exists>h' es h''. ptpip_discover_cameras bo False False w h = (0, w', h') \<and> out_count h' = length cs \<and>
     c_view h' = Some es \<and> list_all2 (shows_camera h') cs es \<and>
     ptpip_free_cameras (out_cameras h') (out_count h') h' = Some h'' \<and>
     c_arrays h'' = c_arrays h \<and> c_strings h'' = c_strings h \<and>
     ptpip_free_cameras (out_cameras h') (out_count h') h'' = (if cs = [] then Some h'' else None)"
proof (cases "cs = []")
  case True
  then show ?thesis
    using assms(1) by (simp add: ptpip_discover_cameras_def ptpip_free_cameras_def c_view_def)
next
  case False
  let ?a = "heap_next h"
  obtain h' es where h': "ptpip_discover_cameras bo False False w h = (0, w', h')" "out_cameras h' = Some ?a"
    "filled ?a cs es (h\<lparr>out_count := length cs\<rparr>) h'" "c_arrays h' = (c_arrays h)(?a \<mapsto> es)" "out_count h' = length cs"
    using discover_ffi_ok [OF assms(1) False assms(2,3)] by blast
  then have shown: "list_all2 (shows_camera h') cs es" and len: "length es = length cs"
    by (auto simp: filled_def dest: list_all2_lengthD)
  have "free_names ?a 0 (length cs) h' = Some (h'\<lparr>c_strings := c_strings h' |` (- set (name_ptrs es))\<rparr>)"
    using free_names_ok [of h' ?a es 0 "length cs"] h'(3,4) len by (simp add: filled_def)
  then have freed: "free_names ?a 0 (length cs) h' = Some (h'\<lparr>c_strings := c_strings h\<rparr>)"
    using h'(3) by (simp add: filled_def)
  have none: "c_arrays h ?a = None" using assms(3) by (simp add: heap_ok_def)
  obtain n where n: "length cs = Suc n" using False by (cases cs) auto
  show ?thesis
    using h'(1,2,4,5) shown len freed none n False
    by (auto simp: ptpip_free_cameras_def c_view_def)
qed

definition empty_heap :: c_heap where
  "empty_heap = \<lparr>c_arrays = Map.empty, c_strings = Map.empty, heap_next = 1, calloc_script = [], out_cameras = None,
     out_count = 0\<rparr>"

lemma empty_heap_ok: "heap_ok empty_heap" "calloc_script empty_heap = []"
  by (simp_all add: empty_heap_def heap_ok_def)

definition one_camera :: udp where
  "one_camera = udp_quiet\<lparr>inbox := [Arrives 1000 (announcement 0 nikon 3) (V4 (Ipv4 192 168 1 1) 1900)]\<rparr>"

lemma one_camera_found:
  "\<exists>w'. discover_cameras utils_byteorder default_discovery_config one_camera = (Ok [nikon], w')"
proof -
  let ?config = default_discovery_config and ?src = "V4 (Ipv4 192 168 1 1) 1900"
  let ?dests = "get_discovery_destinations ?config"
  obtain w1 where w1: "w1 = (udp_ready ?config one_camera)\<lparr>outbox := outbox (udp_ready ?config one_camera) @
      map (\<lambda>d. (discovery_request, d)) ?dests\<rparr>" by blast
  have timeout: "disc_timeout ?config = 5000000000" "retry_count ?config = Suc 2"
    by (simp_all add: default_discovery_config_def duration_from_secs_def)
  have w1_simps: "inbox w1 = [Arrives 1000 (announcement 0 nikon 3) ?src]" "udp_clock w1 = 0"
    "udp_timeout w1 = 5000000000" "send_script w1 = []"
    by (simp_all add: w1 one_camera_def udp_quiet_def timeout)
  let ?w2 = "w1\<lparr>inbox := [], udp_clock := 5000001000\<rparr>"
  have "receive_responses utils_byteorder 5000000000 0 [nikon] {?src} (w1\<lparr>inbox := [], udp_clock := 1000\<rparr>) =
      (Ok ([nikon], {?src}), ?w2)"
    by (subst receive_responses.simps) (simp add: recv_from_def would_block_error_def w1_simps)
  then have "receive_responses utils_byteorder 5000000000 0 [] {} w1 = (Ok ([nikon], {?src}), ?w2)"
    using receive_responses_step [of w1 1000 "announcement 0 nikon 3" ?src "[]" 5000000000 0 "[]" "{}"
        utils_byteorder nikon] nikon_announced
    by (simp add: w1_simps)
  then have "discovery_attempts utils_byteorder ?config discovery_request ?dests 0 1 (Suc 2) [] {} (udp_ready ?config one_camera) =
      discovery_attempts utils_byteorder ?config discovery_request ?dests 0 (Suc 1) 2 [nikon] {?src} (pause ?config 1 [nikon] ?w2)"
    by (intro attempts_step) (simp add: one_camera_def udp_quiet_def, simp only: timeout flip: w1)
  moreover have "\<exists>w'. discovery_attempts utils_byteorder ?config discovery_request ?dests 0 (Suc 1) 2 [nikon] {?src}
      (pause ?config 1 [nikon] ?w2) = (Ok [nikon], w')"
    using attempts_late [of "pause ?config 1 [nikon] ?w2" ?config 0 utils_byteorder discovery_request ?dests "Suc 1" 2 "[nikon]" "{?src}"]
    by (auto simp: w1_simps timeout pause_def udp_sleep_def)
  moreover have "discover_cameras utils_byteorder ?config one_camera =
      discovery_attempts utils_byteorder ?config discovery_request ?dests 0 1 (Suc 2) [] {} (udp_ready ?config one_camera)"
    using discover_ready [OF utils_byteorder_spec, of one_camera ?config]
    by (simp add: one_camera_def udp_quiet_def timeout del: discovery_attempts.simps)
  ultimately show ?thesis by simp
qed

theorem discover_then_free_witness:
  "\<exists>w' h' e. ptpip_discover_cameras utils_byteorder False False one_camera empty_heap = (0, w', h') \<and>
     c_view h' = Some [e] \<and> c_port e = 15740 \<and> ptpip_free_cameras (out_cameras h') (out_count h') h' \<noteq> None"
proof -
  obtain w' where "discover_cameras utils_byteorder default_discovery_config one_camera = (Ok [nikon], w')"
    using one_camera_found by blast
  from discover_then_free [OF this empty_heap_ok(2,1)] show ?thesis
    by (auto simp: list_all2_Cons1 shows_camera_def nikon_def)
qed

text \<open>
  A failed allocation leaves the caller's variables half written: the error code is -3, the count
  already says how many cameras there are, and the pointer still has whatever the caller had in
  it. Null out pointers give -1 and touch nothing.
\<close>

theorem failed_allocation_half_written:
  assumes "discover_cameras bo default_discovery_config w = (Ok cs, w')" and "cs \<noteq> []"
    and "calloc_script h = True # later"
  shows "ptpip_discover_cameras bo False False w h = (-3, w', h\<lparr>out_count := length cs, calloc_script := later\<rparr>) \<and>
     ptpip_discover_cameras bo True count_null w h = (-1, w, h) \<and>
     ptpip_discover_cameras bo cameras_null True w h = (-1, w, h)"
  using assms by (simp add: ptpip_discover_cameras_def calloc_def)

theorem failed_allocation_half_written_witness:
  "\<exists>w'. ptpip_discover_cameras utils_byteorder False False one_camera (empty_heap\<lparr>calloc_script := [True]\<rparr>) =
     (-3, w', empty_heap\<lparr>out_count := 1\<rparr>)"
proof -
  obtain w' where "discover_cameras utils_byteorder default_discovery_config one_camera = (Ok [nikon], w')"
    using one_camera_found by blast
  from failed_allocation_half_written [OF this, of "empty_heap\<lparr>calloc_script := [True]\<rparr>" "[]"] show ?thesis
    by (simp add: empty_heap_def)
qed

end
