(* ===== verification/Unit_Tests_Basics.thy ===== *)
theory Unit_Tests_Basics
  imports Discovery Session_FFI Discovery_FFI "HOL-Library.Sublist"
begin

text \<open>
  The unit tests that the crate keeps beside its code, as predicates over the model: the modules
  \<open>tests\<close> of \<open>src/types.rs\<close>, \<open>src/error.rs\<close> and \<open>src/utils.rs\<close>. A test is the conjunction of its assertions;
  an \<open>unwrap\<close> or \<open>?\<close> on an error makes it false. That the model passes them ties it to what the
  authors checked of the program.
\<close>

named_theorems unit_tests \<open>definitions of the unit tests\<close>

text \<open>A test that returns \<open>Result\<close>: an error fails it.\<close>

fun passes :: "'e + bool \<Rightarrow> bool" where
  "passes (Inl e) = False"
| "passes (Inr b) = b"

abbreviation and_then :: "'e + 'a \<Rightarrow> ('a \<Rightarrow> bool) \<Rightarrow> bool" where
  "and_then r f \<equiv> passes (bind_r r (\<lambda>a. Ok (f a)))"

fun unwrap_err :: "'e + 'a \<Rightarrow> 'e option" where
  "unwrap_err (Inl e) = Some e"
| "unwrap_err (Inr a) = None"

definition fails_with :: "('e \<Rightarrow> bool) \<Rightarrow> 'e + 'a \<Rightarrow> bool" where
  "fails_with p r \<longleftrightarrow> (case unwrap_err r of None \<Rightarrow> False | Some e \<Rightarrow> p e)"

definition is_protocol_error :: "ptpip_error \<Rightarrow> bool" where
  "is_protocol_error e \<longleftrightarrow> (case e of ProtocolError _ \<Rightarrow> True | _ \<Rightarrow> False)"

definition is_device_error :: "ptpip_error \<Rightarrow> bool" where
  "is_device_error e \<longleftrightarrow> (case e of DeviceError _ _ \<Rightarrow> True | _ \<Rightarrow> False)"

lemma fails_with_simps [simp]:
  "fails_with p (Inl e) = p e" "fails_with p (Inr a) = False"
  by (simp_all add: fails_with_def)

lemma error_kinds [simp]:
  "is_protocol_error (ProtocolError m)" "is_device_error (DeviceError c m)"
  by (simp_all add: is_protocol_error_def is_device_error_def)

section \<open>Types\<close>

definition test_session_config_default :: bool where [unit_tests]:
  "test_session_config_default \<longleftrightarrow>
     (let config = default_session_config in
      cfg_timeout config = 30 \<and> max_retries config = 3 \<and> retry_delay_ms config = 1000 \<and>
      keep_alive_interval config = 10)"

definition test_download_stats_default :: bool where [unit_tests]:
  "test_download_stats_default \<longleftrightarrow>
     (let stats = default_download_stats in
      total_bytes stats = 0 \<and> downloaded_bytes stats = 0 \<and> chunks stats = 0 \<and> retries stats = 0 \<and>
      duration_ms stats = 0)"

definition test_ptp_ip_message_type_repr :: bool where [unit_tests]:
  "test_ptp_ip_message_type_repr \<longleftrightarrow>
     message_code DiscoveryRequest = 0x0001 \<and> message_code DiscoveryResponse = 0x0002 \<and>
     message_code CommandBlock = 0x0003 \<and> message_code DataBlock = 0x0004 \<and>
     message_code ResponseBlock = 0x0005 \<and> message_code EventBlock = 0x0006"

definition test_ptp_operation_code_repr :: bool where [unit_tests]:
  "test_ptp_operation_code_repr \<longleftrightarrow>
     opcode OpOk = 0x2001 \<and> opcode GetDeviceInfo = 0x1001 \<and> opcode OpenSession = 0x1002 \<and>
     opcode CloseSession = 0x1003"

definition test_event_type_repr :: bool where [unit_tests]:
  "test_event_type_repr \<longleftrightarrow>
     event_code ObjectAdded = 0x4001 \<and> event_code ObjectRemoved = 0x4002 \<and> event_code StoreAdded = 0x4003"

definition test_discovered_camera :: bool where [unit_tests]:
  "test_discovered_camera \<longleftrightarrow>
     (let camera = \<lparr>ip_address = Ipv4 192 168 1 100, cam_port = 15740, model_name = ''Test Camera'',
        vendor_extension_id = 0x12345678, vendor_extension_version = 0x0100\<rparr> in
      ip_address camera = Ipv4 192 168 1 100 \<and> cam_port camera = 15740 \<and> model_name camera = ''Test Camera'')"

text \<open>The test can fail, as its comment says; the world says what is drawn.\<close>

definition test_generate_transaction_id :: "world \<Rightarrow> bool" where
  "test_generate_transaction_id w \<longleftrightarrow>
     (case generate_transaction_id w of
        (Inr id1, w) \<Rightarrow> (case generate_transaction_id w of (Inr id2, _) \<Rightarrow> id1 \<noteq> id2 | (Inl (e :: unit), _) \<Rightarrow> False)
      | (Inl (e :: unit), _) \<Rightarrow> False)"

definition test_ipv4_to_bytes :: bool where [unit_tests]:
  "test_ipv4_to_bytes \<longleftrightarrow> ipv4_to_bytes (Ipv4 192 168 1 100) = [192, 168, 1, 100]"

definition test_opcode_to_enum :: bool where [unit_tests]:
  "test_opcode_to_enum \<longleftrightarrow>
     opcode_to_enum 0x2001 = Some OpOk \<and> opcode_to_enum 0x1001 = Some GetDeviceInfo \<and>
     opcode_to_enum 0xFFFF = None"

definition test_is_response_opcode :: bool where [unit_tests]:
  "test_is_response_opcode \<longleftrightarrow>
     is_response_opcode 0x2000 \<and> is_response_opcode 0x2FFF \<and> \<not> is_response_opcode 0x1FFF \<and>
     \<not> is_response_opcode 0x3000"

definition test_session_handle_new_and_as_u32 :: bool where [unit_tests]:
  "test_session_handle_new_and_as_u32 \<longleftrightarrow> as_u32 (session_handle_new 0x12345678) = 0x12345678"

definition test_session_handle_default :: bool where [unit_tests]:
  "test_session_handle_default \<longleftrightarrow>
     (case default_session_handle of SessionHandle v \<Rightarrow> v = 0) \<and> as_u32 default_session_handle = 0"

definition test_session_handle_is_valid :: bool where [unit_tests]:
  "test_session_handle_is_valid \<longleftrightarrow>
     \<not> session_handle_is_valid default_session_handle \<and> \<not> session_handle_is_valid session_handle_invalid \<and>
     session_handle_is_valid (session_handle_new 1) \<and> session_handle_is_valid (session_handle_new 0xFFFFFFFF)"

definition test_session_handle_invalid :: bool where [unit_tests]:
  "test_session_handle_invalid \<longleftrightarrow>
     as_u32 session_handle_invalid = 0 \<and> \<not> session_handle_is_valid session_handle_invalid"

definition test_session_handle_eq_hash :: bool where [unit_tests]:
  "test_session_handle_eq_hash \<longleftrightarrow>
     session_handle_new 42 = session_handle_new 42 \<and> session_handle_new 42 \<noteq> session_handle_new 43"

definition test_session_config_version :: bool where [unit_tests]:
  "test_session_config_version \<longleftrightarrow> version default_session_config = 0x0100"

definition test_opcode_to_enum_all_variants :: bool where [unit_tests]:
  "test_opcode_to_enum_all_variants \<longleftrightarrow>
     opcode_to_enum 0x2001 = Some OpOk \<and> opcode_to_enum 0x1002 = Some OpenSession \<and>
     opcode_to_enum 0x1003 = Some CloseSession \<and> opcode_to_enum 0x1004 = Some GetStorageIDs \<and>
     opcode_to_enum 0x1005 = Some GetStorageInfo \<and> opcode_to_enum 0x1006 = Some GetObjectHandles \<and>
     opcode_to_enum 0x1007 = Some GetObjectInfo \<and> opcode_to_enum 0x1008 = Some GetObject \<and>
     opcode_to_enum 0x1009 = Some GetThumb \<and> opcode_to_enum 0x1011 = Some DeleteObject \<and>
     opcode_to_enum 0x1012 = Some MoveObject \<and> opcode_to_enum 0x1014 = Some GetDevicePropValue \<and>
     opcode_to_enum 0x1015 = Some SetDevicePropValue \<and> opcode_to_enum 0x100E = Some InitiateCapture \<and>
     opcode_to_enum 0x101B = Some GetPartialObject \<and> opcode_to_enum 0x1023 = Some GetObjectMetadata \<and>
     opcode_to_enum 0x1024 = Some SetObjectMetadata"

lemma types_tests:
  "list_all (\<lambda>b. b)
     [test_session_config_default, test_download_stats_default, test_ptp_ip_message_type_repr,
      test_ptp_operation_code_repr, test_event_type_repr, test_discovered_camera, test_ipv4_to_bytes,
      test_opcode_to_enum, test_is_response_opcode, test_session_handle_new_and_as_u32,
      test_session_handle_default, test_session_handle_is_valid, test_session_handle_invalid,
      test_session_handle_eq_hash, test_session_config_version, test_opcode_to_enum_all_variants]"
  unfolding unit_tests
  by (simp add: default_session_config_def default_download_stats_def ipv4_to_bytes_def opcode_to_enum_def
      is_response_opcode_def default_session_handle_def session_handle_invalid_def session_handle_is_valid_def)

section \<open>Errors\<close>

definition test_ptp_ip_error_display :: bool where [unit_tests]:
  "test_ptp_ip_error_display \<longleftrightarrow>
     prefix ''IO error: '' (display_error (Io \<lparr>io_kind = OtherKind, io_text = ''IO test''\<rparr>)) \<and>
     fails_with (\<lambda>e. prefix ''Address parsing error: '' (display_error (AddrParse e))) (parse_ipv4 ''invalid_ip'') \<and>
     display_error (ProtocolError ''test protocol error'') = ''Protocol error: test protocol error'' \<and>
     display_error (DeviceError 0x1234 ''device error'') = ''Device error (0x1234): device error'' \<and>
     display_error (SessionError ''session error'') = ''Session error: session error'' \<and>
     fails_with (\<lambda>e. prefix ''String encoding error: '' (display_error (StringEncoding e))) (from_utf8 [0xFF]) \<and>
     display_error InvalidResumeData = ''Invalid resume data'' \<and>
     display_error DownloadCancelled = ''Download cancelled'' \<and>
     display_error Timeout = ''Operation timed out'' \<and>
     display_error (Other ''other error'') = ''Error: other error''"

definition test_ptp_ip_error_source :: bool where [unit_tests]:
  "test_ptp_ip_error_source \<longleftrightarrow>
     source_of (Io \<lparr>io_kind = OtherKind, io_text = ''IO test''\<rparr>) \<noteq> None \<and>
     fails_with (\<lambda>e. source_of (AddrParse e) \<noteq> None) (parse_ipv4 ''invalid'') \<and>
     fails_with (\<lambda>e. source_of (StringEncoding e) \<noteq> None) (from_utf8 [0xFF]) \<and>
     source_of (ProtocolError ''test'') = None"

definition test_from_io_error :: bool where [unit_tests]:
  "test_from_io_error \<longleftrightarrow>
     from_io_error \<lparr>io_kind = TimedOut, io_text = ''timeout''\<rparr> = Timeout \<and>
     (case from_io_error \<lparr>io_kind = OtherKind, io_text = ''other''\<rparr> of Io _ \<Rightarrow> True | _ \<Rightarrow> False)"

definition test_from_addr_parse_error :: bool where [unit_tests]:
  "test_from_addr_parse_error \<longleftrightarrow>
     fails_with (\<lambda>e. case from_addr_parse_error e of AddrParse _ \<Rightarrow> True | _ \<Rightarrow> False) (parse_ipv4 ''invalid'')"

definition test_from_string_encoding_error :: bool where [unit_tests]:
  "test_from_string_encoding_error \<longleftrightarrow>
     fails_with (\<lambda>e. case from_utf8_error e of StringEncoding _ \<Rightarrow> True | _ \<Rightarrow> False) (from_utf8 [0xFF])"

lemma utf8_FF: "from_utf8 (0xFF # bs) = Err \<lparr>valid_up_to = 0, error_len = Some 1\<rparr>"
  by (simp add: from_utf8_def utf8_next.simps utf8_width_def)

lemma no_ipv4:
  "parse_ipv4 ''invalid_ip'' = Err (AddrParseError ''invalid IPv4 address syntax'')"
  "parse_ipv4 ''invalid'' = Err (AddrParseError ''invalid IPv4 address syntax'')"
  by (simp_all add: parse_ipv4_def parse_octet_def)

lemma hex_1234: "hex_pad 4 0x1234 = ''1234''"
  by (simp add: hex_pad_def digits_rev.simps digit_char_def Let_def char_of_eq_iff)

lemma error_tests:
  "list_all (\<lambda>b. b)
     [test_ptp_ip_error_display, test_ptp_ip_error_source, test_from_io_error, test_from_addr_parse_error,
      test_from_string_encoding_error]"
  unfolding unit_tests
  by (simp add: utf8_FF no_ipv4 hex_1234 from_io_error_def from_addr_parse_error_def from_utf8_error_def)

section \<open>Utilities\<close>

definition test_read_u16_be :: bool where [unit_tests]:
  "test_read_u16_be \<longleftrightarrow> and_then (read_u16_be (cursor_new [0x12, 0x34])) (\<lambda>(v, _). v = 0x1234)"

definition test_read_u32_be :: bool where [unit_tests]:
  "test_read_u32_be \<longleftrightarrow>
     and_then (read_u32_be (cursor_new [0x12, 0x34, 0x56, 0x78])) (\<lambda>(v, _). v = 0x12345678)"

definition test_read_u64_be :: bool where [unit_tests]:
  "test_read_u64_be \<longleftrightarrow>
     and_then (read_u64_be (cursor_new [0x12, 0x34, 0x56, 0x78, 0x9A, 0xBC, 0xDE, 0xF0]))
       (\<lambda>(v, _). v = 0x123456789ABCDEF0)"

definition test_write_u16_be :: bool where [unit_tests]:
  "test_write_u16_be \<longleftrightarrow> write_u16_be 0x1234 = [0x12, 0x34]"

definition test_write_u32_be :: bool where [unit_tests]:
  "test_write_u32_be \<longleftrightarrow> write_u32_be 0x12345678 = [0x12, 0x34, 0x56, 0x78]"

definition test_write_u64_be :: bool where [unit_tests]:
  "test_write_u64_be \<longleftrightarrow>
     write_u64_be 0x123456789ABCDEF0 = [0x12, 0x34, 0x56, 0x78, 0x9A, 0xBC, 0xDE, 0xF0]"

text \<open>\<open>ns1\<close> and \<open>ns2\<close> are the clock at the two calls, with the sleep between them.\<close>

definition test_get_timestamp :: "int \<Rightarrow> int \<Rightarrow> bool" where
  "test_get_timestamp ns1 ns2 \<longleftrightarrow> get_timestamp ns2 > get_timestamp ns1"

definition test_checksum :: bool where [unit_tests]:
  "test_checksum \<longleftrightarrow> checksum [0x01, 0x02, 0x03, 0x04] = 0x000A \<and> checksum [0xFF, 0xFF] = 0x01FE"

definition test_bytes_to_hex :: bool where [unit_tests]:
  "test_bytes_to_hex \<longleftrightarrow>
     bytes_to_hex [0x01, 0x02, 0x03, 0x04, 0x05] = ''01 02 03 04 05'' \<and>
     sublist ''... [136 bytes omitted] ...'' (bytes_to_hex (map word_of_nat [0..<200]))"

definition test_c_str_conversions :: bool where [unit_tests]:
  "test_c_str_conversions \<longleftrightarrow>
     (let rust_str = ''test string''; c_str = rust_str_to_c rust_str in
      c_str \<noteq> None \<and> c_str_to_rust c_str = Some rust_str \<and> c_str_to_rust None = None)"

definition test_duration_ms :: bool where [unit_tests]:
  "test_duration_ms \<longleftrightarrow>
     duration_between 100 200 = 100 \<and> duration_between 200 100 = 0 \<and> duration_between 500 500 = 0"

definition test_chunk_vector :: bool where [unit_tests]:
  "test_chunk_vector \<longleftrightarrow>
     chunk_vector [1, 2, 3, 4, 5, 6, 7 :: int] 3 = Some [[1, 2, 3], [4, 5, 6], [7]] \<and>
     chunk_vector ([] :: int list) 3 = Some [] \<and>
     chunk_vector [1, 2, 3 :: int] 5 = Some [[1, 2, 3]]"

definition test_read_u16_be_eof :: bool where [unit_tests]:
  "test_read_u16_be_eof \<longleftrightarrow> \<not> is_ok (read_u16_be (cursor_new [0x12]))"

definition test_read_u32_be_eof :: bool where [unit_tests]:
  "test_read_u32_be_eof \<longleftrightarrow> \<not> is_ok (read_u32_be (cursor_new [0x12, 0x34]))"

definition test_read_u64_be_eof :: bool where [unit_tests]:
  "test_read_u64_be_eof \<longleftrightarrow> \<not> is_ok (read_u64_be (cursor_new [0x12, 0x34, 0x56]))"

definition test_rust_str_to_c_empty :: bool where [unit_tests]:
  "test_rust_str_to_c_empty \<longleftrightarrow>
     (let c_str = rust_str_to_c [] in c_str \<noteq> None \<and> c_str_to_rust c_str = Some [])"

definition test_rust_str_to_c_with_null_returns_null :: bool where [unit_tests]:
  "test_rust_str_to_c_with_null_returns_null \<longleftrightarrow>
     rust_str_to_c (''hello'' @ [CHR 0x00] @ ''world'') = None"

lemma transaction_ids_differ:
  "test_generate_transaction_id w \<longleftrightarrow> rng w (rng_pos w) \<noteq> rng w (Suc (rng_pos w))"
  by (simp add: test_generate_transaction_id_def generate_transaction_id_def)

lemma timestamps_grow:
  assumes "0 \<le> ns1" and "ns1 + 10000000 \<le> ns2" and "ns2 < 2 ^ 64"
  shows "test_get_timestamp ns1 ns2"
proof -
  have "ns1 div 1000000 < ns2 div 1000000" and "ns2 div 1000000 < 2 ^ 64" and "0 \<le> ns1 div 1000000"
    using assms by (simp_all add: div_int_pos_iff)
  then show ?thesis
    using assms by (simp add: test_get_timestamp_def get_timestamp_def word_less_def uint_word_of_int)
qed

lemma reads:
  "read_u16_be (cursor_new [a, b]) = Ok (shift_or16 a b, advance 2 (cursor_new [a, b]))"
  "read_u32_be (cursor_new [a, b, c, d]) = Ok (shift_or32 a b c d, advance 4 (cursor_new [a, b, c, d]))"
  "read_u64_be (cursor_new [a, b, c, d, e, f, g, h]) =
     Ok (shift_or64 a b c d e f g h, advance 8 (cursor_new [a, b, c, d, e, f, g, h]))"
  by (simp_all add: read_u16_be_def read_u32_be_def read_u64_be_def cursor_read_exact_def)

lemma omitted: "sublist ''... [136 bytes omitted] ...'' (bytes_to_hex (map word_of_nat [0..<200]))"
proof -
  have "dec 136 = ''136''"
    by (simp add: dec_def digits_rev.simps digit_char_def char_of_eq_iff)
  then have "bytes_to_hex (map word_of_nat [0..<200]) =
      (hex_bytes (take 32 (map word_of_nat [0..<200])) @ '' '') @ ''... [136 bytes omitted] ...'' @
      '' '' @ hex_bytes (drop 168 (map word_of_nat [0..<200]))"
    by (simp add: bytes_to_hex_def)
  then show ?thesis unfolding sublist_def by blast
qed

lemma c_strings:
  "c_str_to_rust (rust_str_to_c ''test string'') = Some ''test string''"
  "rust_str_to_c ''test string'' \<noteq> None"
  "c_str_to_rust (rust_str_to_c []) = Some []" "rust_str_to_c [] \<noteq> None"
proof -
  have ascii: "valid_str ''test string''"
    by (simp add: valid_str_def bytes_of_string_def utf8_check_ascii del: utf8_check.simps)
  have none: "0 \<notin> set (bytes_of_string ''test string'')"
    by (simp add: bytes_of_string_def)
  show "c_str_to_rust (rust_str_to_c ''test string'') = Some ''test string''" "rust_str_to_c ''test string'' \<noteq> None"
    using c_string_roundtrip [OF ascii, of "[]"] none by (auto split: option.splits)
  show "c_str_to_rust (rust_str_to_c []) = Some []" "rust_str_to_c [] \<noteq> None"
    by (simp_all add: rust_str_to_c_def c_str_to_rust_def bytes_of_string_def from_utf8_def string_of_bytes_def)
qed

lemma utils_tests:
  "list_all (\<lambda>b. b)
     [test_read_u16_be, test_read_u32_be, test_read_u64_be, test_write_u16_be, test_write_u32_be,
      test_write_u64_be, test_checksum, test_bytes_to_hex, test_c_str_conversions, test_duration_ms,
      test_chunk_vector, test_read_u16_be_eof, test_read_u32_be_eof, test_read_u64_be_eof,
      test_rust_str_to_c_empty, test_rust_str_to_c_with_null_returns_null]"
proof -
  have 1: test_read_u16_be test_read_u32_be test_read_u64_be
    unfolding unit_tests by (simp_all add: reads shift_or16_def shift_or32_def shift_or64_def)
  have 2: test_write_u16_be test_write_u32_be test_write_u64_be
    unfolding unit_tests by (simp_all add: write_u16_be_def write_u32_be_def write_u64_be_def)
  have 3: test_checksum unfolding unit_tests by (simp add: checksum_def)
  have 4: test_bytes_to_hex
    unfolding unit_tests using omitted
    by (simp add: bytes_to_hex_def hex_bytes_def hex_pad_def digits_rev.simps digit_char_def char_of_eq_iff)
  have 5: test_c_str_conversions test_rust_str_to_c_empty
    unfolding unit_tests using c_strings by (simp_all add: Let_def c_str_to_rust_def)
  have 6: test_rust_str_to_c_with_null_returns_null
    unfolding unit_tests by (simp add: rust_str_to_c_def bytes_of_string_def)
  have 7: test_duration_ms test_chunk_vector
    unfolding unit_tests by (simp_all add: duration_between_def chunk_vector_def chunks_of.simps)
  have 8: test_read_u16_be_eof test_read_u32_be_eof test_read_u64_be_eof
    unfolding unit_tests by (simp_all add: read_u16_be_def read_u32_be_def read_u64_be_def cursor_read_exact_def)
  show ?thesis using 1 2 3 4 5 6 7 8 by simp
qed

end
