(* ===== verification/Unit_Tests_Transport.thy ===== *)
theory Unit_Tests_Transport
  imports Unit_Tests_Basics Transport_Facts
begin

text \<open>
  The unit tests of \<open>src/transport.rs\<close>. Their \<open>MockStream\<close>, a stream that reads from a fixed buffer and
  collects what is written, is a quiet world with that buffer as its input. The byte literals
  are lists; \<open>bo\<close> is the \<open>byteorder\<close> crate.
\<close>

definition mock_stream :: "bytes \<Rightarrow> world" where
  "mock_stream read_data = quiet\<lparr>rx := rx_bytes read_data\<rparr>"

definition written_data :: "world \<Rightarrow> bytes" where
  "written_data w = tx w"

text \<open>An operation that must succeed, and what is asserted of its result and the stream.\<close>

definition runs :: "('s, 'a, 'e) run \<Rightarrow> 's \<Rightarrow> ('a \<Rightarrow> 's \<Rightarrow> bool) \<Rightarrow> bool" where
  "runs m w f \<longleftrightarrow> (case m w of (Inl e, w') \<Rightarrow> False | (Inr a, w') \<Rightarrow> f a w')"

lemma runs_Ok: "m w = (Inr a, w') \<Longrightarrow> runs m w f = f a w'"
  by (simp add: runs_def)

definition test_ptp_ip_header_from_stream :: "byteorder \<Rightarrow> bool" where [unit_tests]:
  "test_ptp_ip_header_from_stream bo \<longleftrightarrow>
     runs (header_from_stream bo None) (mock_stream [0x00, 0x03, 0x00, 0x00, 0x12, 0x34, 0x56, 0x78])
       (\<lambda>header _. h_message_type header = 0x0003 \<and> h_reserved header = 0x0000 \<and>
          h_transaction_id header = 0x12345678 \<and> h_payload_length header = 0) \<and>
     runs (header_from_stream bo None)
       (mock_stream [0x00, 0x04, 0x00, 0x00, 0x87, 0x65, 0x43, 0x21, 0x00, 0x00, 0x00, 0x0A])
       (\<lambda>header _. h_message_type header = 0x0004 \<and> h_transaction_id header = 0x87654321 \<and>
          h_payload_length header = 0x0000000A)"

definition test_ptp_ip_header_to_bytes :: "byteorder \<Rightarrow> bool" where [unit_tests]:
  "test_ptp_ip_header_to_bytes bo \<longleftrightarrow>
     and_then (header_to_bytes bo \<lparr>h_message_type = 0x0005, h_reserved = 0x0000,
         h_transaction_id = 0x11223344, h_payload_length = 0\<rparr>)
       (\<lambda>bytes. bytes = [0x00, 0x05, 0x00, 0x00, 0x11, 0x22, 0x33, 0x44]) \<and>
     and_then (header_to_bytes bo \<lparr>h_message_type = 0x0004, h_reserved = 0x0000,
         h_transaction_id = 0x44332211, h_payload_length = 0x00000005\<rparr>)
       (\<lambda>bytes. bytes = [0x00, 0x04, 0x00, 0x00, 0x44, 0x33, 0x22, 0x11, 0x00, 0x00, 0x00, 0x05])"

text \<open>The stream of this test is a connection of the system, here a world whose calls succeed.\<close>

definition test_configure_stream :: "world \<Rightarrow> bool" where
  "test_configure_stream stream \<longleftrightarrow>
     runs (configure_stream default_session_config) stream
       (\<lambda>_ stream. read_timeout stream = Some (duration_from_secs 30) \<and>
          write_timeout stream = Some (duration_from_secs 30) \<and> nodelay stream)"

definition test_send_packet :: "byteorder \<Rightarrow> bool" where [unit_tests]:
  "test_send_packet bo \<longleftrightarrow>
     runs (send_packet bo \<lparr>pkt_type = CommandBlock, pkt_tid = 0x12345678, payload = [0x01, 0x02, 0x03]\<rparr>)
       (mock_stream [])
       (\<lambda>_ s. written_data s = [0x00, 0x03, 0x00, 0x00, 0x12, 0x34, 0x56, 0x78, 0x01, 0x02, 0x03])"

definition test_recv_packet :: "byteorder \<Rightarrow> bool" where [unit_tests]:
  "test_recv_packet bo \<longleftrightarrow>
     runs (recv_packet bo)
       (mock_stream [0x00, 0x05, 0x00, 0x00, 0x12, 0x34, 0x56, 0x78, 0x00, 0x00, 0x00, 0x08,
          0x00, 0x00, 0x00, 0x00])
       (\<lambda>packet _. pkt_type packet = ResponseBlock \<and> pkt_tid packet = 0x12345678 \<and>
          payload packet = [0x00, 0x00, 0x00, 0x00]) \<and>
     runs (recv_packet bo)
       (mock_stream [0x00, 0x04, 0x00, 0x00, 0x87, 0x65, 0x43, 0x21, 0x00, 0x00, 0x00, 0x05,
          0x01, 0x02, 0x03, 0x04, 0x05])
       (\<lambda>packet _. pkt_type packet = DataBlock \<and> pkt_tid packet = 0x87654321 \<and>
          payload packet = [0x01, 0x02, 0x03, 0x04, 0x05])"

text \<open>\<open>while data.len() < n { data.push(0) }\<close>\<close>

definition pad_to :: "usize \<Rightarrow> bytes \<Rightarrow> bytes" where
  "pad_to n data = data @ replicate (n - length data) 0"

definition device_info_data :: bytes where
  "device_info_data =
     (let manuf_off = 46; manuf_len = 11; model_off = 57; model_len = 5; version_off = 62; version_len = 5;
          serial_off = 67; serial_len = 12;
          data = replicate 8 0 @ write_u32_be (word_of_nat manuf_off) @ write_u32_be manuf_len @
            write_u32_be (word_of_nat model_off) @ write_u32_be model_len @
            write_u32_be (word_of_nat version_off) @ write_u32_be version_len @
            write_u32_be (word_of_nat serial_off) @ write_u32_be serial_len @
            write_u16_be 2 @ write_u16_be 0x1001 @ write_u16_be 0x1002;
          data = pad_to manuf_off data @ bytes_of_string ''Manufacturer'';
          data = pad_to model_off data @ bytes_of_string ''Model'';
          data = pad_to version_off data @ bytes_of_string ''1.0.0'' in
      pad_to serial_off data @ bytes_of_string ''SN1234567890'')"

definition test_parse_device_info :: bool where [unit_tests]:
  "test_parse_device_info \<longleftrightarrow>
     and_then (parse_device_info device_info_data) (\<lambda>device_info.
       length (supported_operations device_info) = 2 \<and>
       0x1001 \<in> set (supported_operations device_info) \<and> 0x1002 \<in> set (supported_operations device_info) \<and>
       manufacturer device_info \<noteq> [] \<and> dev_model device_info \<noteq> [])"

definition storage_info_data :: bytes where
  "storage_info_data =
     (let desc_off = 54; desc_len = 16; label_off = 70; label_len = 7;
          data = replicate 8 0 @ write_u32_be 1 @ write_u16_be 1 @ write_u16_be 2 @ write_u16_be 3 @
            write_u64_be 65536 @ write_u64_be 32768 @ write_u32_be 100 @
            write_u32_be (word_of_nat desc_off) @ write_u32_be desc_len @
            write_u32_be (word_of_nat label_off) @ write_u32_be label_len;
          data = pad_to desc_off data @ bytes_of_string ''Internal Storage'' in
      pad_to label_off data @ bytes_of_string ''SD Card'')"

definition test_parse_storage_info :: "byteorder \<Rightarrow> bool" where [unit_tests]:
  "test_parse_storage_info bo \<longleftrightarrow>
     and_then (parse_storage_info bo storage_info_data) (\<lambda>i.
       storage_id i = 1 \<and> storage_type i = 1 \<and> filesystem_type i = 2 \<and> access_capability i = 3 \<and>
       max_capacity i = 65536 \<and> free_space_in_bytes i = 32768 \<and> free_space_in_objects i = 100 \<and>
       storage_description i = ''Internal Storage'' \<and> volume_label i = ''SD Card'')"

definition test_extract_string :: bool where [unit_tests]:
  "test_extract_string \<longleftrightarrow>
     (let data = bytes_of_string (''Hello'' @ [CHR 0x00] @ ''World'' @ [CHR 0x00] @ ''Test'') in
      and_then (extract_string data 0 5) (\<lambda>s1. s1 = ''Hello'') \<and>
      and_then (extract_string data 6 5) (\<lambda>s2. s2 = ''World'') \<and>
      and_then (extract_string data 12 4) (\<lambda>s3. s3 = ''Test'') \<and>
      \<not> is_ok (extract_string data 20 5))"

definition test_parse_device_info_insufficient_data :: bool where [unit_tests]:
  "test_parse_device_info_insufficient_data \<longleftrightarrow>
     fails_with is_protocol_error (parse_device_info (replicate 20 0))"

definition test_parse_storage_info_insufficient_data :: "byteorder \<Rightarrow> bool" where [unit_tests]:
  "test_parse_storage_info_insufficient_data bo \<longleftrightarrow>
     fails_with is_protocol_error (parse_storage_info bo (replicate 30 0))"

definition test_recv_packet_unknown_message_type :: "byteorder \<Rightarrow> bool" where [unit_tests]:
  "test_recv_packet_unknown_message_type bo \<longleftrightarrow>
     fails_with is_protocol_error
       (fst (recv_packet bo (mock_stream [0x00, 0x01, 0x00, 0x00, 0x12, 0x34, 0x56, 0x78])))"

definition test_ptp_ip_header_from_stream_with_message_type :: "byteorder \<Rightarrow> bool" where [unit_tests]:
  "test_ptp_ip_header_from_stream_with_message_type bo \<longleftrightarrow>
     runs (header_from_stream bo (Some 0x0003)) (mock_stream [0x00, 0x00, 0x12, 0x34, 0x56, 0x78])
       (\<lambda>header _. h_message_type header = 0x0003 \<and> h_reserved header = 0x0000 \<and>
          h_transaction_id header = 0x12345678 \<and> h_payload_length header = 0)"

definition test_send_packet_empty_payload :: "byteorder \<Rightarrow> bool" where [unit_tests]:
  "test_send_packet_empty_payload bo \<longleftrightarrow>
     runs (send_packet bo \<lparr>pkt_type = CommandBlock, pkt_tid = 0x12345678, payload = []\<rparr>) (mock_stream [])
       (\<lambda>_ s. written_data s = [0x00, 0x03, 0x00, 0x00, 0x12, 0x34, 0x56, 0x78])"

definition test_send_packet_with_retry_success_on_first_try :: "byteorder \<Rightarrow> bool" where [unit_tests]:
  "test_send_packet_with_retry_success_on_first_try bo \<longleftrightarrow>
     runs (send_packet_with_retry bo
         \<lparr>pkt_type = CommandBlock, pkt_tid = 0x12345678, payload = [0x01, 0x02]\<rparr> default_session_config)
       (mock_stream []) (\<lambda>_ s. written_data s \<noteq> [])"

definition test_recv_packet_filtered_type_mismatch :: "byteorder \<Rightarrow> bool" where [unit_tests]:
  "test_recv_packet_filtered_type_mismatch bo \<longleftrightarrow>
     runs (recv_packet_filtered bo (Some ResponseBlock) default_session_config)
       (mock_stream ([0x00, 0x03, 0x00, 0x00, 0x12, 0x34, 0x56, 0x78] @
          [0x00, 0x05, 0x00, 0x00, 0x12, 0x34, 0x56, 0x78, 0x00, 0x00, 0x00, 0x08, 0x00, 0x00, 0x00, 0x00]))
       (\<lambda>packet _. pkt_type packet = ResponseBlock)"

section \<open>They pass\<close>

lemma mock_read:
  "n \<le> length bs \<Longrightarrow> stream_read_exact n (mock_stream bs) = (Ok (take n bs), mock_stream (drop n bs))"
  using stream_read_prefix [of "mock_stream bs" "take n bs" "drop n bs" "[]" n]
  by (simp add: mock_stream_def del: map_append)

lemmas mock_runs = runs_def bind_io_def io_try_def lift_r_apply ret_apply mock_read

lemma header_tests:
  assumes bo: "byteorder_spec bo"
  shows "test_ptp_ip_header_from_stream bo" "test_ptp_ip_header_to_bytes bo"
    "test_ptp_ip_header_from_stream_with_message_type bo"
  unfolding unit_tests
  by (simp_all add: mock_runs header_from_stream_def header_type_def bo_simps [OF bo] FULL_HEADER_SIZE_def
      HEADER_AFTER_TYPE_SIZE_def read_u16_be_def read_u32_be_def cursor_read_exact_def remaining_def cursor_new_def
      shift_or16_def shift_or32_def header_to_bytes_eq [OF bo] write_defs)

lemma configure_test:
  "ctl_script w = [] \<Longrightarrow> test_configure_stream w"
  by (simp add: test_configure_stream_def runs_def configure_stream_def bind_io_def io_try_def ret_apply
      set_read_timeout_def set_write_timeout_def set_nodelay_def ctl_call_def default_session_config_def
      duration_from_secs_def)

lemma send_tests:
  assumes bo: "byteorder_spec bo"
  shows "test_send_packet bo" "test_send_packet_empty_payload bo"
    "test_send_packet_with_retry_success_on_first_try bo"
proof -
  have clean: "tx_script (mock_stream bs) = []" "tx (mock_stream bs) = []" for bs
    by (simp_all add: mock_stream_def quiet_def)
  show "test_send_packet bo" "test_send_packet_empty_payload bo"
    unfolding unit_tests
    by (simp_all add: runs_def send_packet_clean [OF bo] clean wire_out_def wire_header_def write_defs written_data_def)
  show "test_send_packet_with_retry_success_on_first_try bo"
    unfolding unit_tests
    by (simp add: runs_def send_packet_with_retry_def send_retry_loop.simps send_packet_clean [OF bo] clean
        wire_out_def wire_header_def write_defs written_data_def)
qed

lemma recv_tests:
  assumes bo: "byteorder_spec bo"
  shows "test_recv_packet bo" "test_recv_packet_unknown_message_type bo"
    "test_recv_packet_filtered_type_mismatch bo"
proof -
  note eval = recv_packet_def mock_runs header_from_stream_def header_type_def bo_simps [OF bo]
    HEADER_AFTER_TYPE_SIZE_def read_u16_be_def read_u32_be_def cursor_read_exact_def remaining_def cursor_new_def
    shift_or16_def shift_or32_def known_message_type_def read_response_def read_payload_def
  show "test_recv_packet bo" "test_recv_packet_unknown_message_type bo"
    unfolding unit_tests by (simp_all add: eval)
  show "test_recv_packet_filtered_type_mismatch bo"
    unfolding unit_tests
    by (simp add: recv_packet_filtered_def recv_filter_loop.simps eval) (simp add: mock_stream_def)
qed

lemma device_info_bytes:
  "device_info_data = replicate 8 0 @ [0, 0, 0, 46, 0, 0, 0, 11, 0, 0, 0, 57, 0, 0, 0, 5, 0, 0, 0, 62,
     0, 0, 0, 5, 0, 0, 0, 67, 0, 0, 0, 12, 0, 2, 0x10, 1, 0x10, 2] @
     bytes_of_string ''ManufacturerModel1.0.0SN1234567890''"
  by (simp add: device_info_data_def Let_def pad_to_def write_defs bytes_of_string_def)

lemma storage_info_bytes:
  "storage_info_data = replicate 8 0 @ [0, 0, 0, 1, 0, 1, 0, 2, 0, 3, 0, 0, 0, 0, 0, 1, 0, 0,
     0, 0, 0, 0, 0, 0, 128, 0, 0, 0, 0, 100, 0, 0, 0, 54, 0, 0, 0, 16, 0, 0, 0, 70, 0, 0, 0, 7] @
     bytes_of_string ''Internal StorageSD Card''"
  by (simp add: storage_info_data_def Let_def pad_to_def write_defs bytes_of_string_def)

lemmas reading = read_u16_be_def read_u32_be_def read_u64_be_def cursor_read_exact_def remaining_def
  cursor_new_def set_position_def shift_or16_def shift_or32_def shift_or64_def bytes_of_string_def
  extract_string_def from_utf8_def utf8_check_ascii string_of_bytes_def char_of_eq_iff

lemma read_list_2:
  "read_list rd 2 c = bind_r (rd c) (\<lambda>(a, c). bind_r (rd c) (\<lambda>(b, c). Ok ([a, b], c)))"
  by (simp add: numeral_2_eq_2 bind_r_assoc split_def)

text \<open>What the parser makes of the data of the device test: each string starts a byte too early.\<close>

lemma device_info_parsed:
  "parse_device_info device_info_data =
     Ok \<lparr>manufacturer = ''Manufacture'', dev_model = ''rMode'', device_version = ''l1.0.'',
         serial_number = ''0SN123456789'', supported_operations = [0x1001, 0x1002]\<rparr>"
  unfolding device_info_bytes
  by (simp add: parse_device_info_def reading read_list_2 del: utf8_check.simps)

lemma parse_tests:
  assumes bo: "byteorder_spec bo"
  shows "test_parse_device_info" "test_parse_storage_info bo" "test_extract_string"
    "test_parse_device_info_insufficient_data" "test_parse_storage_info_insufficient_data bo"
proof -
  show "test_parse_device_info_insufficient_data" "test_parse_storage_info_insufficient_data bo"
    unfolding unit_tests by (simp_all add: parse_device_info_def parse_storage_info_def)
  show test_extract_string
    unfolding unit_tests by (simp add: reading del: utf8_check.simps)
  show test_parse_device_info
    unfolding unit_tests by (simp add: device_info_parsed)
  show "test_parse_storage_info bo"
    unfolding unit_tests storage_info_bytes
    by (simp add: parse_storage_info_def read_u64_def reading bo_simps [OF bo] del: utf8_check.simps)
qed

end
