(* ===== verification/Unit_Tests_Commands.thy ===== *)
theory Unit_Tests_Commands
  imports Unit_Tests_Transport Download_Facts
begin

text \<open>
  The unit tests of \<open>src/commands.rs\<close>, over the mock stream of the transport tests (this module has a
  copy of it) and, for the resume state, over an empty file system in which \<open>dir\<close> is the path of the
  temporary directory.
\<close>

section \<open>Commands and responses\<close>

definition test_chunk_download_config_default :: bool where [unit_tests]:
  "test_chunk_download_config_default \<longleftrightarrow>
     (let config = default_chunk_config in
      chunk_size config = 1024 * 1024 \<and> progress_interval config = Fin 5 \<and> min_chunk_size config = 1024 * 64)"

definition test_send_command :: "byteorder \<Rightarrow> bool" where [unit_tests]:
  "test_send_command bo \<longleftrightarrow>
     runs (send_command bo (opcode GetDeviceInfo) 0x12345678 [0x01, 0x02, 0x03, 0x04] default_session_config)
       (mock_stream [])
       (\<lambda>_ s. written_data s =
          [0x00, 0x03,
           0x00, 0x00,
           0x12, 0x34, 0x56, 0x78,
           0x00, 0x00,
           0x10, 0x01,
           0x00, 0x00, 0x00, 0x01,
           0x01, 0x02, 0x03, 0x04])"

definition test_get_response :: "byteorder \<Rightarrow> bool" where [unit_tests]:
  "test_get_response bo \<longleftrightarrow>
     (let response_data =
        [0x00, 0x05,
         0x00, 0x00,
         0x12, 0x34, 0x56, 0x78,
         0x00, 0x00, 0x00, 0x0C,
         0x00, 0x00, 0x20, 0x01, 0x00, 0x00, 0x00, 0x00] in
      runs (get_response bo 0x12345678 default_session_config) (mock_stream response_data)
        (\<lambda>response _. pkt_type response = ResponseBlock \<and> pkt_tid response = 0x12345678 \<and>
           payload response = drop 12 response_data))"

definition test_get_response_wrong_tid_then_ok :: "byteorder \<Rightarrow> bool" where [unit_tests]:
  "test_get_response_wrong_tid_then_ok bo \<longleftrightarrow>
     (let packet1 =
        [0x00, 0x05, 0x00, 0x00, 0x11, 0x11, 0x11, 0x11,
         0x00, 0x00, 0x00, 0x08,
         0x00, 0x00, 0x00, 0x00];
        packet2 =
        [0x00, 0x05, 0x00, 0x00, 0x12, 0x34, 0x56, 0x78,
         0x00, 0x00, 0x00, 0x0C,
         0x00, 0x00, 0x20, 0x01, 0x00, 0x00, 0x00, 0x00] in
      runs (get_response bo 0x12345678 default_session_config) (mock_stream (packet1 @ packet2))
        (\<lambda>response _. pkt_tid response = 0x12345678 \<and>
           payload response = [0x00, 0x00, 0x20, 0x01, 0x00, 0x00, 0x00, 0x00]))"

definition test_check_response_error :: bool where [unit_tests]:
  "test_check_response_error \<longleftrightarrow>
     is_ok (check_response_error \<lparr>pkt_type = ResponseBlock, pkt_tid = 0x12345678,
       payload = [0x00, 0x00, 0x20, 0x01] @ [0x00, 0x00, 0x00, 0x00]\<rparr>) \<and>
     fails_with is_device_error (check_response_error \<lparr>pkt_type = ResponseBlock, pkt_tid = 0x12345678,
       payload = [0x00, 0x00, 0x20, 0x02, 0x00, 0x00, 0x00, 0x00]\<rparr>)"

definition test_ptp_command_to_bytes :: "byteorder \<Rightarrow> bool" where [unit_tests]:
  "test_ptp_command_to_bytes bo \<longleftrightarrow>
     and_then (ptp_command_to_bytes bo (ptp_command_new 0x1001 [0x00000001, 0x00000002]))
       (\<lambda>bytes. bytes =
          [0x00, 0x00,
           0x10, 0x01,
           0x00, 0x00, 0x00, 0x02,
           0x00, 0x00, 0x00, 0x01,
           0x00, 0x00, 0x00, 0x02])"

definition test_send_command_empty_params :: "byteorder \<Rightarrow> bool" where [unit_tests]:
  "test_send_command_empty_params bo \<longleftrightarrow>
     runs (send_command bo (opcode GetDeviceInfo) 0x12345678 [] default_session_config) (mock_stream [])
       (\<lambda>_ s. let written = written_data s in
          length written \<ge> 16 \<and> take 2 written = [0x00, 0x03] \<and>
          take 4 (drop 12 written) = [0x00, 0x00, 0x00, 0x00])"

definition test_send_command_params_not_multiple_of_four :: "byteorder \<Rightarrow> bool" where [unit_tests]:
  "test_send_command_params_not_multiple_of_four bo \<longleftrightarrow>
     \<not> is_ok (fst (send_command bo (opcode GetDeviceInfo) 0x12345678 [0x01, 0x02, 0x03] default_session_config
       (mock_stream [])))"

definition test_check_response_error_insufficient_payload :: bool where [unit_tests]:
  "test_check_response_error_insufficient_payload \<longleftrightarrow>
     fails_with is_protocol_error
       (check_response_error \<lparr>pkt_type = ResponseBlock, pkt_tid = 0, payload = [0x00, 0x00, 0x00]\<rparr>)"

definition test_check_response_error_device_errors :: bool where [unit_tests]:
  "test_check_response_error_device_errors \<longleftrightarrow>
     list_all (\<lambda>(code, desc). fails_with is_device_error (check_response_error
         \<lparr>pkt_type = ResponseBlock, pkt_tid = 0,
          payload = [0x00, 0x00] @ write_u16_be code @ [0x00, 0x00, 0x00, 0x00]\<rparr>))
       [(0x2002, ''General error''),
        (0x2003, ''Session not open''),
        (0x2004, ''Invalid transaction ID''),
        (0x2005, ''Unsupported operation''),
        (0x2006, ''Unsupported parameter''),
        (0x2007, ''Incomplete transfer''),
        (0x2008, ''Invalid storage ID''),
        (0x2009, ''Invalid object handle'')]"

definition test_check_response_error_unknown_code :: bool where [unit_tests]:
  "test_check_response_error_unknown_code \<longleftrightarrow>
     (case check_response_error \<lparr>pkt_type = ResponseBlock, pkt_tid = 0,
         payload = [0x00, 0x00, 0x20, 0x99] @ [0x00, 0x00, 0x00, 0x00]\<rparr> of
        Inl (DeviceError code _) \<Rightarrow> code = 0x2099
      | _ \<Rightarrow> False)"

lemma command_tests:
  assumes bo: "byteorder_spec bo"
  shows "test_chunk_download_config_default" "test_send_command bo" "test_ptp_command_to_bytes bo"
    "test_send_command_empty_params bo" "test_send_command_params_not_multiple_of_four bo"
proof -
  have clean: "tx_script (mock_stream []) = []" "tx (mock_stream []) = []"
    by (simp_all add: mock_stream_def quiet_def)
  have three: "\<not> 4 dvd Suc (Suc (Suc 0))" by presburger
  show test_chunk_download_config_default
    unfolding unit_tests by (simp add: default_chunk_config_def)
  show "test_send_command bo" "test_send_command_empty_params bo"
    unfolding unit_tests
    by (simp_all add: runs_def send_command_clean [OF bo] clean written_data_def wire_out_def wire_header_def
        command_payload_def write_defs)
  show "test_send_command_params_not_multiple_of_four bo"
    unfolding unit_tests by (simp add: send_command_eq [OF bo] three)
  show "test_ptp_command_to_bytes bo"
    unfolding unit_tests
    by (simp add: ptp_command_to_bytes_def ptp_command_new_def write_params_eq [OF bo] bo_simps [OF bo] write_defs)
qed

lemma response_tests:
  assumes bo: "byteorder_spec bo"
  shows "test_get_response bo" "test_get_response_wrong_tid_then_ok bo"
    "test_check_response_error" "test_check_response_error_insufficient_payload"
    "test_check_response_error_device_errors" "test_check_response_error_unknown_code"
proof -
  note eval = recv_packet_def mock_runs header_from_stream_def header_type_def bo_simps [OF bo]
    HEADER_AFTER_TYPE_SIZE_def read_u16_be_def read_u32_be_def cursor_read_exact_def remaining_def cursor_new_def
    shift_or16_def shift_or32_def known_message_type_def read_response_def read_payload_def
  have clock: "clock (mock_stream bs) = 0" for bs
    by (simp add: mock_stream_def quiet_def)
  show test_check_response_error test_check_response_error_insufficient_payload
    test_check_response_error_device_errors test_check_response_error_unknown_code
    unfolding unit_tests by (simp_all add: check_response_error_eq be_value_def write_defs Let_def)
  show "test_get_response bo" "test_get_response_wrong_tid_then_ok bo"
    unfolding unit_tests
    by (simp_all add: get_response.simps recv_packet_filtered_def recv_filter_loop.simps eval clock
        check_response_error_eq be_value_def)
qed

section \<open>Parsers\<close>

definition test_parse_storage_ids :: bool where [unit_tests]:
  "test_parse_storage_ids \<longleftrightarrow>
     and_then (parse_storage_ids
       [0x00, 0x00, 0x00, 0x00,
        0x20, 0x01, 0x00, 0x00,
        0x00, 0x00, 0x00, 0x02,
        0x00, 0x00, 0x00, 0x01,
        0x00, 0x00, 0x00, 0x02]) (\<lambda>storage_ids. storage_ids = [1, 2])"

definition test_parse_object_handles :: bool where [unit_tests]:
  "test_parse_object_handles \<longleftrightarrow>
     and_then (parse_object_handles
       [0x00, 0x00, 0x00, 0x00,
        0x20, 0x01, 0x00, 0x00,
        0x00, 0x00, 0x00, 0x03,
        0x00, 0x00, 0x00, 0x0A,
        0x00, 0x00, 0x00, 0x0B,
        0x00, 0x00, 0x00, 0x0C]) (\<lambda>handles. handles = [10, 11, 12])"

definition object_info_head :: bytes where
  "object_info_head =
     (let filename_offset = 60; filename_len = 12; capture_date_offset = 72; capture_date_len = 19;
          modification_date_offset = 91; modification_date_len = 19; keywords_offset = 110; keywords_len = 8 in
      replicate 8 0 @ write_u32_be 1 @ write_u16_be 2 @ [0] @ [0] @ write_u64_be 256 @ write_u32_be 64 @
      write_u32_be filename_offset @ write_u32_be filename_len @
      write_u32_be capture_date_offset @ write_u32_be capture_date_len @
      write_u32_be modification_date_offset @ write_u32_be modification_date_len @
      write_u32_be keywords_offset @ write_u32_be keywords_len)"

definition object_info_data :: bytes where
  "object_info_data =
     object_info_head @
     bytes_of_string (''IMAGE001.jpg'' @ [CHR 0x00]) @ bytes_of_string ''2023-01-01 12:00:00'' @
     bytes_of_string ''2023-01-01 12:30:00'' @ bytes_of_string ''vacation''"

definition test_parse_object_info :: bool where [unit_tests]:
  "test_parse_object_info \<longleftrightarrow>
     length object_info_head = 60 \<and>
     and_then (parse_object_info object_info_data 0x12345678) (\<lambda>i.
       obj_handle i = 0x12345678 \<and> obj_storage_id i = 1 \<and> object_format i = 2 \<and> protection_status i = 0 \<and>
       object_size i = 256 \<and> thumb_size i = 64 \<and> filename i \<noteq> [] \<and> obj_keywords i \<noteq> [])"

definition test_parse_event_packet :: bool where [unit_tests]:
  "test_parse_event_packet \<longleftrightarrow>
     and_then (parse_event_packet \<lparr>pkt_type = EventBlock, pkt_tid = 0x87654321,
         payload =
           [0x40, 0x01,
            0x00, 0x01,
            0x00, 0x00, 0x00, 0x0A]\<rparr>)
       (\<lambda>event. ev_type event = ObjectAdded \<and> ev_tid event = 0x87654321 \<and> parameters event = [10])"

definition test_parse_storage_ids_insufficient_data :: bool where [unit_tests]:
  "test_parse_storage_ids_insufficient_data \<longleftrightarrow>
     fails_with is_protocol_error (parse_storage_ids (replicate 8 0))"

definition test_parse_storage_ids_insufficient_after_count :: bool where [unit_tests]:
  "test_parse_storage_ids_insufficient_after_count \<longleftrightarrow>
     \<not> is_ok (parse_storage_ids (replicate 8 0 @ write_u32_be 1 @ [0]))"

definition test_parse_object_handles_insufficient_data :: bool where [unit_tests]:
  "test_parse_object_handles_insufficient_data \<longleftrightarrow>
     fails_with is_protocol_error (parse_object_handles (replicate 8 0))"

definition test_parse_object_handles_insufficient_after_count :: bool where [unit_tests]:
  "test_parse_object_handles_insufficient_after_count \<longleftrightarrow>
     \<not> is_ok (parse_object_handles (replicate 8 0 @ write_u32_be 1 @ [0]))"

definition test_parse_object_info_insufficient_data :: bool where [unit_tests]:
  "test_parse_object_info_insufficient_data \<longleftrightarrow>
     fails_with is_protocol_error (parse_object_info (replicate 60 0) 1)"

text \<open>\<open>data[a..a + 4].copy_from_slice(bs)\<close>\<close>

definition copy_at :: "usize \<Rightarrow> bytes \<Rightarrow> bytes \<Rightarrow> bytes" where
  "copy_at a bs data = take a data @ bs @ drop (a + length bs) data"

definition test_parse_object_info_extract_string_out_of_bounds :: bool where [unit_tests]:
  "test_parse_object_info_extract_string_out_of_bounds \<longleftrightarrow>
     (let data = copy_at 32 (write_u32_be 10) (copy_at 28 (write_u32_be 1000) (replicate 64 0)) in
      fails_with is_protocol_error (parse_object_info data 1))"

definition test_parse_event_packet_insufficient_data :: bool where [unit_tests]:
  "test_parse_event_packet_insufficient_data \<longleftrightarrow>
     fails_with is_protocol_error
       (parse_event_packet \<lparr>pkt_type = EventBlock, pkt_tid = 0, payload = [0x40, 0x01]\<rparr>)"

definition test_parse_event_packet_unknown_event_type :: bool where [unit_tests]:
  "test_parse_event_packet_unknown_event_type \<longleftrightarrow>
     fails_with is_protocol_error
       (parse_event_packet \<lparr>pkt_type = EventBlock, pkt_tid = 0,
          payload = [0x40, 0xFF, 0x00, 0x00] @ write_u32_be 0\<rparr>)"

definition test_parse_event_packet_insufficient_params :: bool where [unit_tests]:
  "test_parse_event_packet_insufficient_params \<longleftrightarrow>
     \<not> is_ok (parse_event_packet \<lparr>pkt_type = EventBlock, pkt_tid = 0,
        payload = [0x40, 0x01, 0x00, 0x01, 0x00, 0x00]\<rparr>)"

definition test_parse_event_packet_all_event_types :: bool where [unit_tests]:
  "test_parse_event_packet_all_event_types \<longleftrightarrow>
     list_all (\<lambda>(code, event_type).
       and_then (parse_event_packet \<lparr>pkt_type = EventBlock, pkt_tid = 1,
           payload = write_u16_be code @ write_u16_be 0 @ replicate 2 0\<rparr>)
         (\<lambda>event. ev_type event = event_type \<and> ev_tid event = 1))
       [(0x4001, ObjectAdded),
        (0x4002, ObjectRemoved),
        (0x4003, StoreAdded),
        (0x4004, StoreRemoved),
        (0x4005, DevicePropChanged),
        (0x4006, RequestObjectTransfer)]"

definition test_extract_string_out_of_bounds :: bool where [unit_tests]:
  "test_extract_string_out_of_bounds \<longleftrightarrow>
     fails_with is_protocol_error (extract_object_string (bytes_of_string ''hello'') 0 10)"

definition test_extract_string_invalid_utf8 :: bool where [unit_tests]:
  "test_extract_string_invalid_utf8 \<longleftrightarrow>
     fails_with (\<lambda>e. case e of StringEncoding _ \<Rightarrow> True | _ \<Rightarrow> False)
       (extract_object_string [0xFF, 0xFE, 0xFD] 0 3)"

definition test_extract_string_success_with_null :: bool where [unit_tests]:
  "test_extract_string_success_with_null \<longleftrightarrow>
     and_then (extract_object_string (bytes_of_string (''hello'' @ [CHR 0x00] @ ''world'')) 0 11)
       (\<lambda>s. s = ''hello'')"

definition test_read_u8_be :: bool where [unit_tests]:
  "test_read_u8_be \<longleftrightarrow> and_then (read_u8_be (cursor_new [0xAB])) (\<lambda>(v, _). v = 0xAB)"

definition test_read_u8_be_eof :: bool where [unit_tests]:
  "test_read_u8_be_eof \<longleftrightarrow> \<not> is_ok (read_u8_be (cursor_new []))"

lemma read_list_1: "read_list rd 1 c = bind_r (rd c) (\<lambda>(a, c). Ok ([a], c))"
  by (simp add: numeral_eq_Suc split_def)

lemma read_list_3:
  "read_list rd 3 c = bind_r (rd c) (\<lambda>(a, c). bind_r (rd c) (\<lambda>(b, c). bind_r (rd c) (\<lambda>(d, c). Ok ([a, b, d], c))))"
  by (simp add: numeral_eq_Suc bind_r_assoc split_def)

lemma id_list_tests:
  test_parse_storage_ids test_parse_object_handles test_parse_storage_ids_insufficient_data
  test_parse_storage_ids_insufficient_after_count test_parse_object_handles_insufficient_data
  test_parse_object_handles_insufficient_after_count
  unfolding unit_tests
  by (simp_all add: parse_storage_ids_def parse_object_handles_def reading read_list_1 [simplified] read_list_2
      read_list_3 write_defs del: utf8_check.simps)

lemma event_tests:
  test_parse_event_packet test_parse_event_packet_insufficient_data test_parse_event_packet_unknown_event_type
  test_parse_event_packet_insufficient_params test_parse_event_packet_all_event_types
  unfolding unit_tests
  by (simp_all add: parse_event_packet_def reading read_list_1 [simplified] known_event_type_def write_defs
      del: utf8_check.simps)

lemma string_tests:
  test_extract_string_out_of_bounds test_extract_string_invalid_utf8 test_extract_string_success_with_null
  test_read_u8_be test_read_u8_be_eof
proof -
  show test_extract_string_out_of_bounds test_extract_string_success_with_null
    unfolding unit_tests by (simp_all add: reading del: utf8_check.simps)
  show test_extract_string_invalid_utf8
    unfolding unit_tests by (simp add: extract_string_def utf8_FF from_utf8_error_def)
  show test_read_u8_be test_read_u8_be_eof
    unfolding unit_tests by (simp_all add: read_u8_be_def reading)
qed

text \<open>
  The name in the data of the object test has thirteen bytes, with its NUL, where the test counts
  twelve: every later string starts a byte too early, and the capture date is empty.
\<close>

lemma object_info_parsed:
  "parse_object_info object_info_data 0x12345678 =
     Ok \<lparr>obj_handle = 0x12345678, obj_storage_id = 1, object_format = 2, protection_status = 0,
         object_size = 256, thumb_size = 64, filename = ''IMAGE001.jpg'', capture_date = [],
         modification_date = ''02023-01-01 12:30:0'', obj_keywords = ''0vacatio''\<rparr>"
proof -
  have data: "object_info_data = replicate 8 0 @ [0, 0, 0, 1, 0, 2, 0, 0, 0, 0, 0, 0, 0, 0, 1, 0, 0, 0, 0, 64,
     0, 0, 0, 60, 0, 0, 0, 12, 0, 0, 0, 72, 0, 0, 0, 19, 0, 0, 0, 91, 0, 0, 0, 19, 0, 0, 0, 110, 0, 0, 0, 8] @
     bytes_of_string (''IMAGE001.jpg'' @ [CHR 0x00] @ ''2023-01-01 12:00:002023-01-01 12:30:00vacation'')"
    by (simp add: object_info_data_def object_info_head_def Let_def write_defs bytes_of_string_def)
  show ?thesis
    unfolding data
    by (simp add: parse_object_info_def reading read_u8_be_def del: utf8_check.simps)
qed

lemma object_tests:
  test_parse_object_info test_parse_object_info_insufficient_data
  test_parse_object_info_extract_string_out_of_bounds
proof -
  show test_parse_object_info
    unfolding unit_tests object_info_parsed by (simp add: object_info_head_def Let_def)
  show test_parse_object_info_insufficient_data
    unfolding unit_tests by (simp add: parse_object_info_def)
  have "copy_at 32 (write_u32_be 10) (copy_at 28 (write_u32_be 1000) (replicate 64 0)) =
      replicate 28 0 @ [0, 0, 3, 232, 0, 0, 0, 10] @ replicate 28 0"
    by (simp add: copy_at_def write_defs flip: replicate_add)
  then show test_parse_object_info_extract_string_out_of_bounds
    unfolding unit_tests by (simp add: parse_object_info_def reading read_u8_be_def del: utf8_check.simps)
qed

section \<open>Files\<close>

definition test_chunk_vector_commands :: bool where [unit_tests]:
  "test_chunk_vector_commands \<longleftrightarrow>
     chunk_vector [1, 2, 3, 4, 5, 6, 7 :: int] 3 = Some [[1, 2, 3], [4, 5, 6], [7]]"

definition test_get_temp_path :: bool where [unit_tests]:
  "test_get_temp_path \<longleftrightarrow>
     file_name (get_temp_path [RootDir, Normal ''tmp'', Normal ''photo.jpg'']) = Some ''.photo.jpg.download''"

definition test_get_temp_path_no_filename :: bool where [unit_tests]:
  "test_get_temp_path_no_filename \<longleftrightarrow>
     map_option to_string_lossy (file_name (get_temp_path [CurDir])) = Some ''.download.tmp''"

definition test_get_resume_path :: bool where [unit_tests]:
  "test_get_resume_path \<longleftrightarrow>
     file_name (get_resume_path [RootDir, Normal ''tmp'', Normal ''photo.jpg'']) = Some ''.photo.jpg.resume''"

text \<open>The text of a path ends like its last component.\<close>

definition test_get_resume_path_no_filename :: bool where [unit_tests]:
  "test_get_resume_path_no_filename \<longleftrightarrow>
     (case file_name (get_resume_path [RootDir, Normal ''tmp'']) of
        Some n \<Rightarrow> suffix ''.resume'' (to_string_lossy n)
      | None \<Rightarrow> False)"

definition in_dir :: "path \<Rightarrow> string \<Rightarrow> path" where
  "in_dir dir n = dir @ [Normal n]"

definition assert_io :: "bool \<Rightarrow> (unit, ptpip_error) io" where
  "assert_io b = lift_r (if b then Ok () else Err (Other ''assertion failed''))"

definition write_file :: "path \<Rightarrow> bytes \<Rightarrow> (unit, ptpip_error) io" where
  "write_file p data = io_try (fs_write p data)"

definition test_save_resume_state :: "path \<Rightarrow> bool" where [unit_tests]:
  "test_save_resume_state dir \<longleftrightarrow>
     (let file_path = in_dir dir ''test.jpg'' in
      runs (bind_io (save_resume_state file_path 1024) (\<lambda>_. io_try (read_to_string (get_resume_path file_path))))
        quiet (\<lambda>content _. content = ''1024''))"

definition test_check_resume_state :: "path \<Rightarrow> bool" where [unit_tests]:
  "test_check_resume_state dir \<longleftrightarrow>
     (let file_path = in_dir dir ''test.jpg'' in
      runs
       (bind_io (check_resume_state file_path 1024) (\<lambda>(offset, _).
        bind_io (assert_io (offset = 0)) (\<lambda>_.
        let temp_path = get_temp_path file_path; resume_path = get_resume_path file_path in
        bind_io (write_file temp_path (replicate 512 0)) (\<lambda>_.
        bind_io (write_file resume_path (bytes_of_string ''512'')) (\<lambda>_.
        bind_io (check_resume_state file_path 1024) (\<lambda>(offset, _).
        bind_io (assert_io (offset = 512)) (\<lambda>_.
        bind_io (write_file temp_path (replicate 1024 0)) (\<lambda>_.
        bind_io (write_file resume_path (bytes_of_string ''1024'')) (\<lambda>_.
        bind_io (check_resume_state file_path 1024) (\<lambda>(offset, _).
        bind_io (assert_io (offset = 1024)) (\<lambda>_.
        bind_io (path_exists file_path) (\<lambda>file_there.
        bind_io (path_exists temp_path) (\<lambda>temp_there.
        bind_io (path_exists resume_path) (\<lambda>resume_there.
        ret (file_there \<and> \<not> temp_there \<and> \<not> resume_there)))))))))))))))
       quiet (\<lambda>ok _. ok))"

definition test_check_resume_state_invalid_resume_data :: "path \<Rightarrow> bool" where [unit_tests]:
  "test_check_resume_state_invalid_resume_data dir \<longleftrightarrow>
     (let file_path = in_dir dir ''test.jpg'';
          temp_path = get_temp_path file_path; resume_path = get_resume_path file_path in
      runs
       (bind_io (write_file temp_path (replicate 100 0)) (\<lambda>_.
        write_file resume_path (bytes_of_string ''not_a_number'')))
       quiet (\<lambda>_ w. fails_with (\<lambda>e. e = InvalidResumeData) (fst (check_resume_state file_path 1024 w))))"

definition test_check_resume_state_temp_size_mismatch :: "path \<Rightarrow> bool" where [unit_tests]:
  "test_check_resume_state_temp_size_mismatch dir \<longleftrightarrow>
     (let file_path = in_dir dir ''test.jpg'';
          temp_path = get_temp_path file_path; resume_path = get_resume_path file_path in
      runs
       (bind_io (write_file temp_path (replicate 200 0)) (\<lambda>_.
        bind_io (write_file resume_path (bytes_of_string ''512'')) (\<lambda>_.
        check_resume_state file_path 1024)))
       quiet (\<lambda>(offset, _) _. offset = 0))"

definition test_check_resume_state_target_exists_complete :: "path \<Rightarrow> bool" where [unit_tests]:
  "test_check_resume_state_target_exists_complete dir \<longleftrightarrow>
     (let file_path = in_dir dir ''complete.jpg'' in
      runs (bind_io (write_file file_path (replicate 100 0)) (\<lambda>_. check_resume_state file_path 100))
        quiet (\<lambda>(offset, _) _. offset = 100))"

definition test_check_resume_state_temp_only :: "path \<Rightarrow> bool" where [unit_tests]:
  "test_check_resume_state_temp_only dir \<longleftrightarrow>
     (let file_path = in_dir dir ''test.jpg''; temp_path = get_temp_path file_path in
      runs (bind_io (write_file temp_path (replicate 100 0)) (\<lambda>_. check_resume_state file_path 1024))
        quiet (\<lambda>(offset, _) _. offset = 0))"

lemma lossy_photo: "to_string_lossy ''photo.jpg'' = ''photo.jpg''" "to_string_lossy ''tmp'' = ''tmp''"
  "to_string_lossy ''.download.tmp'' = ''.download.tmp''" "to_string_lossy ''.tmp.resume'' = ''.tmp.resume''"
proof -
  have "utf8_check 0 (bytes_of_string s) = Ok () \<Longrightarrow> to_string_lossy s = s" for s
    by (simp add: to_string_lossy_def utf8_lossy_valid)
  then show "to_string_lossy ''photo.jpg'' = ''photo.jpg''" "to_string_lossy ''tmp'' = ''tmp''"
    "to_string_lossy ''.download.tmp'' = ''.download.tmp''" "to_string_lossy ''.tmp.resume'' = ''.tmp.resume''"
    by (simp_all add: bytes_of_string_def utf8_check_ascii del: utf8_check.simps)
qed

lemma path_tests:
  test_chunk_vector_commands test_get_temp_path test_get_temp_path_no_filename test_get_resume_path
  test_get_resume_path_no_filename
  unfolding unit_tests
  by (simp_all add: chunk_vector_def chunks_of.simps get_temp_path_def get_resume_path_def file_name_def
      set_file_name_def lossy_photo suffix_def)

lemma write_file_quiet:
  "fs_script w = [] \<Longrightarrow> data \<noteq> [] \<Longrightarrow> write_file p data w = (Ok (), w\<lparr>files := (files w)(p \<mapsto> data)\<rparr>)"
  by (simp add: write_file_def fs_write_def file_create_def fs_call_def bind_io_def io_try_def extend_file_def)

lemma decs: "dec 512 = ''512''" "dec 1024 = ''1024''"
  by (simp_all add: dec_def digits_rev.simps digit_char_def char_of_eq_iff)

lemma records:
  "from_utf8 (bytes_of_string ''512'') = Ok ''512''" "parse_usize (trim ''512'') = Some 512"
  "from_utf8 (bytes_of_string ''1024'') = Ok ''1024''" "parse_usize (trim ''1024'') = Some 1024"
  using from_utf8_dec [of 512] from_utf8_dec [of 1024] trim_dec [of 512] trim_dec [of 1024]
    parse_usize_dec [of 512] parse_usize_dec [of 1024] by (simp_all add: decs)

lemma no_record:
  "from_utf8 (bytes_of_string ''not_a_number'') = Ok ''not_a_number''" "parse_usize (trim ''not_a_number'') = None"
proof -
  show "from_utf8 (bytes_of_string ''not_a_number'') = Ok ''not_a_number''"
    by (simp add: from_utf8_def utf8_check_ascii bytes_of_string_def string_of_bytes_def char_of_eq_iff
        del: utf8_check.simps)
  have "strip_front white_space (bytes_of_string ''not_a_number'') = bytes_of_string ''not_a_number''"
    "strip_front (map rev white_space) (rev (bytes_of_string ''not_a_number'')) = rev (bytes_of_string ''not_a_number'')"
    by (rule strip_front_id; auto simp: white_space_def bytes_of_string_def)+
  then show "parse_usize (trim ''not_a_number'') = None"
    by (simp add: trim_def parse_usize_def digit_value_def)
qed

lemma resume_tests:
  "test_save_resume_state dir" "test_check_resume_state dir" "test_check_resume_state_invalid_resume_data dir"
  "test_check_resume_state_temp_size_mismatch dir" "test_check_resume_state_target_exists_complete dir"
  "test_check_resume_state_temp_only dir"
proof -
  have quiet: "fs_script quiet = []" "files_ok quiet" "files quiet = (\<lambda>_. None)"
    by (simp_all add: quiet_def files_ok_def)
  have len: "length (bytes_of_string s) = length s" for s
    by (simp add: bytes_of_string_def)
  have bs: "bytes_of_string s \<noteq> []" if "s \<noteq> []" for s
    using that by (simp add: bytes_of_string_def)
  note eval = runs_def bind_io_def io_try_def ret_apply lift_r_apply Let_def assert_io_def
    write_file_quiet quiet check_resume_table records no_record bs len files_ok_def
  show "test_save_resume_state dir"
    unfolding unit_tests
    by (simp add: eval save_resume_quiet fs_calls decs records)
  show "test_check_resume_state_invalid_resume_data dir" "test_check_resume_state_temp_size_mismatch dir"
    "test_check_resume_state_target_exists_complete dir" "test_check_resume_state_temp_only dir"
    unfolding unit_tests
    by (simp_all add: eval)
  show "test_check_resume_state dir"
    unfolding unit_tests
    by (simp add: eval fs_calls)
qed

end
