(* ===== verification/Unit_Tests_Services.thy ===== *)
theory Unit_Tests_Services
  imports Unit_Tests_Commands
begin

text \<open>
  The unit tests of \<open>src/session.rs\<close> and \<open>src/discovery.rs\<close>, the ignored ones included. \<open>peer\<close> is what a TCP
  connect finds. The scripted camera of the discovery test is a datagram in the inbox; the C interface
  is called on an empty heap and a socket on which nothing arrives.
\<close>

section \<open>Sessions\<close>

definition no_handles :: arcs where
  "no_handles = \<lparr>arc_cells = Map.empty, arc_next = 1, arc_dropped = []\<rparr>"

definition test_ptpip_create_session_null_ip :: "byteorder \<Rightarrow> (string \<Rightarrow> u16 \<Rightarrow> world) \<Rightarrow> bool" where [unit_tests]:
  "test_ptpip_create_session_null_ip bo peer \<longleftrightarrow>
     fst (ptpip_create_session bo peer None 15740 30 no_handles) = None"

definition test_ptpip_close_session_null :: "byteorder \<Rightarrow> bool" where [unit_tests]:
  "test_ptpip_close_session_null bo \<longleftrightarrow> ptpip_close_session bo None no_handles \<noteq> None"

definition test_ptpip_is_connected_null :: bool where [unit_tests]:
  "test_ptpip_is_connected_null \<longleftrightarrow>
     (case ptpip_is_connected None no_handles of Some (b, _) \<Rightarrow> \<not> b | None \<Rightarrow> False)"

definition test_ptpip_get_session_id_null :: bool where [unit_tests]:
  "test_ptpip_get_session_id_null \<longleftrightarrow>
     (case ptpip_get_session_id None no_handles of Some (n, _) \<Rightarrow> n = 0 | None \<Rightarrow> False)"

definition test_ptpip_create_session_invalid_ip :: "byteorder \<Rightarrow> (string \<Rightarrow> u16 \<Rightarrow> world) \<Rightarrow> bool" where [unit_tests]:
  "test_ptpip_create_session_invalid_ip bo peer \<longleftrightarrow>
     (let ip = rust_str_to_c ''999.999.999.999'' in
      ip \<noteq> None \<and> fst (ptpip_create_session bo peer ip 15740 5 no_handles) = None)"

definition test_parse_storage_ids_success :: bool where [unit_tests]:
  "test_parse_storage_ids_success \<longleftrightarrow>
     and_then (session_parse_storage_ids [0x00, 0x02, 0x00, 0x00, 0x00, 0x01, 0x00, 0x00, 0x00, 0x02])
       (\<lambda>result. result = [0x00000001, 0x00000002])"

definition test_session_parse_storage_ids_insufficient_data :: bool where [unit_tests]:
  "test_session_parse_storage_ids_insufficient_data \<longleftrightarrow>
     fails_with is_protocol_error (session_parse_storage_ids [0x00])"

definition test_parse_storage_ids_incomplete :: bool where [unit_tests]:
  "test_parse_storage_ids_incomplete \<longleftrightarrow>
     fails_with is_protocol_error (session_parse_storage_ids [0x00, 0x02, 0x00, 0x00])"

lemma session_tests:
  assumes "byteorder_spec bo"
  shows "list_all (\<lambda>b. b)
     [test_ptpip_create_session_null_ip bo peer, test_ptpip_close_session_null bo, test_ptpip_is_connected_null,
      test_ptpip_get_session_id_null, test_ptpip_create_session_invalid_ip bo peer,
      test_parse_storage_ids_success, test_session_parse_storage_ids_insufficient_data,
      test_parse_storage_ids_incomplete]"
proof -
  have two: "push_bit 8 (unat (0 :: u8)) OR unat (2 :: u8) = Suc (Suc 0)" by simp
  have parse: "session_parse_storage_ids (0 # 2 # data) = storage_ids_from (0 # 2 # data) 0 (Suc (Suc 0))" for data
    unfolding session_parse_storage_ids_def using two
    by (simp only: nth_Cons_0 nth_Cons_Suc One_nat_def length_Cons Let_def) simp
  show ?thesis
    unfolding unit_tests parse
    by (simp add: shift_or32_def create_session_null [OF assms] ptpip_close_session_def ptpip_is_connected_def
      ptpip_get_session_id_def session_parse_storage_ids_def storage_ids_from.simps rust_str_to_c_def
      bytes_of_string_def Let_def)
qed

section \<open>Discovery\<close>

definition test_build_discovery_request :: "byteorder \<Rightarrow> bool" where [unit_tests]:
  "test_build_discovery_request bo \<longleftrightarrow>
     and_then (build_discovery_request bo) (\<lambda>request.
       length request = 8 \<and> take 2 request = [0x00, 0x01] \<and> take 2 (drop 2 request) = [0x01, 0x00] \<and>
       take 4 (drop 4 request) = [0x00, 0x00, 0x00, 0x00])"

text \<open>The packets that the tests write: the code, the rest of the fields, the name and its terminator.\<close>

definition test_response :: "string \<Rightarrow> bytes" where
  "test_response name =
     write_u16_be (discovery_code Response) @ write_u16_be 0x0100 @ write_u32_be 0x00000001 @
     write_u16_be 0x0100 @ write_u16_be 15740 @ [0, 0] @ bytes_of_string name @ [0]"

definition test_parse_valid_response :: "byteorder \<Rightarrow> bool" where [unit_tests]:
  "test_parse_valid_response bo \<longleftrightarrow>
     (case parse_socket_addr ''192.168.1.100:1900'' of
        Inl e \<Rightarrow> False
      | Inr src_addr \<Rightarrow>
          and_then (parse_discovery_response bo (test_response ''Nikon Z7 II'') src_addr) (\<lambda>c.
            case c of None \<Rightarrow> False
            | Some camera \<Rightarrow>
                ip_address camera = Ipv4 192 168 1 100 \<and> cam_port camera = 15740 \<and>
                model_name camera = ''Nikon Z7 II'' \<and> vendor_extension_id camera = 0x00000001))"

definition test_discovery_config :: bool where [unit_tests]:
  "test_discovery_config \<longleftrightarrow>
     (let config = default_discovery_config in
      disc_timeout config = duration_from_secs 5 \<and> retry_count config = 3 \<and> use_multicast config)"

definition test_discovery_config_default :: bool where [unit_tests]:
  "test_discovery_config_default \<longleftrightarrow>
     (let config = default_discovery_config in
      disc_timeout config = duration_from_secs 5 \<and> retry_count config = 3 \<and> use_multicast config)"

definition test_get_discovery_destinations :: bool where [unit_tests]:
  "test_get_discovery_destinations \<longleftrightarrow>
     length (get_discovery_destinations (default_discovery_config\<lparr>use_multicast := True\<rparr>)) = 2 \<and>
     length (get_discovery_destinations (default_discovery_config\<lparr>use_multicast := False\<rparr>)) = 1"

definition test_parse_discovery_response_valid :: "byteorder \<Rightarrow> bool" where [unit_tests]:
  "test_parse_discovery_response_valid bo \<longleftrightarrow>
     (case parse_socket_addr ''192.168.1.100:1900'' of
        Inl e \<Rightarrow> False
      | Inr src_addr \<Rightarrow>
          and_then (parse_discovery_response bo (test_response ''Test Camera'') src_addr) (\<lambda>c.
            case c of None \<Rightarrow> False
            | Some camera \<Rightarrow>
                ip_address camera = Ipv4 192 168 1 100 \<and> cam_port camera = 15740 \<and>
                model_name camera = ''Test Camera'' \<and> vendor_extension_id camera = 0x00000001 \<and>
                vendor_extension_version camera = 0x0100))"

text \<open>Its second and third packets have four bytes: they are refused for their length.\<close>

definition test_parse_discovery_response_invalid :: "byteorder \<Rightarrow> bool" where [unit_tests]:
  "test_parse_discovery_response_invalid bo \<longleftrightarrow>
     (case parse_socket_addr ''192.168.1.100:1900'' of
        Inl e \<Rightarrow> False
      | Inr src_addr \<Rightarrow>
          and_then (parse_discovery_response bo [0x00, 0x02] src_addr) (\<lambda>result. result = None) \<and>
          and_then (parse_discovery_response bo (write_u16_be 0xFFFF @ write_u16_be 0x0100) src_addr)
            (\<lambda>result. result = None) \<and>
          and_then (parse_discovery_response bo
              (write_u16_be (discovery_code Response) @ write_u16_be 0x0200) src_addr)
            (\<lambda>result. result = None))"

text \<open>\<open>[::1]:1900\<close>, written out: the loopback address of version 6.\<close>

definition ipv6_loopback :: sock_addr where
  "ipv6_loopback = V6 (replicate 15 0 @ [1]) 1900 0 0"

definition test_parse_discovery_response_ipv6_returns_none :: "byteorder \<Rightarrow> bool" where [unit_tests]:
  "test_parse_discovery_response_ipv6_returns_none bo \<longleftrightarrow>
     and_then (parse_discovery_response bo
         (write_u16_be (discovery_code Response) @ write_u16_be 0x0100 @ write_u32_be 0x00000001 @
          write_u16_be 0x0100 @ write_u16_be 15740 @ bytes_of_string ''IPv6 Camera'' @ [0]) ipv6_loopback)
       (\<lambda>result. result = None)"

definition test_ptpip_free_cameras_null_safe :: bool where [unit_tests]:
  "test_ptpip_free_cameras_null_safe \<longleftrightarrow>
     ptpip_free_cameras None 0 empty_heap \<noteq> None \<and> ptpip_free_cameras None 5 empty_heap \<noteq> None"


text \<open>The scripted camera answers from the address that the request is sent to, some time \<open>d\<close> later.\<close>

definition test_discovery_workflow :: "byteorder \<Rightarrow> u16 \<Rightarrow> nat \<Rightarrow> bool" where
  "test_discovery_workflow bo port d \<longleftrightarrow>
     (let dest_addr = V4 (Ipv4 127 0 0 1) port;
          socket = udp_quiet\<lparr>inbox := [Arrives d (test_response ''Test Camera'') dest_addr]\<rparr>;
          config = default_discovery_config\<lparr>disc_timeout := duration_from_secs 2, retry_count := 1,
            use_multicast := False, test_destinations := Some [dest_addr]\<rparr> in
      runs (discover_cameras bo config) socket
        (\<lambda>cameras _. length cameras = 1 \<and> model_name (cameras ! 0) = ''Test Camera''))"

text \<open>No camera is near: nothing arrives on the socket \<open>w\<close>, whose set-up and sends may fail.\<close>

definition test_discovery_ffi_functions :: "byteorder \<Rightarrow> udp \<Rightarrow> bool" where
  "test_discovery_ffi_functions bo w \<longleftrightarrow>
     (case ptpip_discover_cameras bo False False w empty_heap of
        (result, _, h) \<Rightarrow>
          (result = 0 \<or> result = -2) \<and> (result = 0 \<longrightarrow> out_count h = 0 \<and> out_cameras h = None) \<and>
          ptpip_free_cameras (out_cameras h) (out_count h) h \<noteq> None)"

definition test_create_discovery_socket_no_multicast :: "udp \<Rightarrow> bool" where
  "test_create_discovery_socket_no_multicast w \<longleftrightarrow>
     is_ok (fst (create_discovery_socket (default_discovery_config\<lparr>use_multicast := False\<rparr>) w))"

lemma response_parsed:
  assumes "byteorder_spec bo" and "valid_str name" and "0 \<notin> set (bytes_of_string name)"
  shows "parse_discovery_response bo (test_response name) (V4 ip port) =
     Ok (Some \<lparr>ip_address = ip, cam_port = 15740, model_name = name, vendor_extension_id = 1,
       vendor_extension_version = 0x0100\<rparr>)"
  using parse_announcement [OF assms(1), of "\<lparr>ip_address = ip, cam_port = 15740, model_name = name,
      vendor_extension_id = 1, vendor_extension_version = 0x0100\<rparr>" 0 1 port] assms(2,3)
  by (simp add: test_response_def announcement_def write_u16_be_def)

lemma test_names:
  "valid_str ''Nikon Z7 II''" "0 \<notin> set (bytes_of_string ''Nikon Z7 II'')"
  "valid_str ''Test Camera''" "0 \<notin> set (bytes_of_string ''Test Camera'')"
  by (simp_all add: valid_str_def bytes_of_string_def utf8_check_ascii del: utf8_check.simps)

lemma test_address: "parse_socket_addr ''192.168.1.100:1900'' = Ok (V4 (Ipv4 192 168 1 100) 1900)"
  by (simp add: parse_socket_addr_def parse_ipv4_def parse_octet_def digit_value_def Let_def)

lemma workflow_test:
  assumes "byteorder_spec bo"
  shows "test_discovery_workflow bo port d"
proof -
  let ?dest = "V4 (Ipv4 127 0 0 1) port"
  let ?c = "\<lparr>ip_address = Ipv4 127 0 0 1, cam_port = 15740, model_name = ''Test Camera'', vendor_extension_id = 1,
       vendor_extension_version = 0x0100\<rparr>"
  let ?config = "default_discovery_config\<lparr>disc_timeout := duration_from_secs 2, retry_count := 1,
            use_multicast := False, test_destinations := Some [?dest]\<rparr>"
  let ?w = "udp_quiet\<lparr>inbox := [Arrives d (test_response ''Test Camera'') ?dest]\<rparr>"
  let ?w1 = "(udp_ready ?config ?w)\<lparr>outbox := [(discovery_request, ?dest)]\<rparr>"
  have short: "take 1024 (test_response ''Test Camera'') = test_response ''Test Camera''"
    by (simp add: test_response_def bytes_of_string_def)
  have parsed: "parse_discovery_response bo (take 1024 (test_response ''Test Camera'')) ?dest = Ok (Some ?c)"
    unfolding short by (rule response_parsed [OF assms test_names(3,4)])
  have "\<exists>w2. receive_responses bo 2000000000 0 [?c] {?dest} (?w1\<lparr>inbox := [], udp_clock := d\<rparr>) =
      (Ok ([?c], {?dest}), w2)"
    by (subst receive_responses.simps) (simp add: recv_from_def would_block_error_def)
  then obtain w2 where rcv: "receive_responses bo 2000000000 0 [] {} ?w1 = (Ok ([?c], {?dest}), w2)"
    using receive_responses_step [of ?w1 d "test_response ''Test Camera''" ?dest "[]" 2000000000 0 "[]" "{}" bo ?c] parsed
    by (simp add: udp_quiet_def) metis
  have "discovery_attempts bo ?config discovery_request [?dest] 0 1 (Suc 0) [] {} (udp_ready ?config ?w) =
      (Ok [?c], pause ?config 1 [?c] w2)"
    using rcv by (simp add: bind_io_def io_try_def send_to_def duration_from_secs_def udp_quiet_def)
  then have "discover_cameras bo ?config ?w = (Ok [?c], pause ?config 1 [?c] w2)"
    using discover_ready [OF assms, of ?w ?config]
    by (simp add: duration_from_secs_def get_discovery_destinations_def udp_quiet_def del: discovery_attempts.simps)
  then show ?thesis
    by (simp add: test_discovery_workflow_def runs_def)
qed

lemma ffi_test:
  assumes "byteorder_spec bo" and "inbox w = []"
  shows "test_discovery_ffi_functions bo w"
proof (cases "discover_cameras bo default_discovery_config w")
  case (Pair r w')
  show ?thesis
  proof (cases r)
    case (Inl e)
    then show ?thesis using Pair
      by (simp add: test_discovery_ffi_functions_def ptpip_discover_cameras_def ptpip_free_cameras_def empty_heap_def)
  next
    case (Inr cs)
    then have "found_ok bo [] cs"
      using discover_cameras_found_ok [OF assms(1), of default_discovery_config w cs w'] Pair assms(2) by simp
    then have "cs = []" by (cases cs) (auto simp: found_ok_def)
    with Pair Inr show ?thesis
      by (simp add: test_discovery_ffi_functions_def ptpip_discover_cameras_def ptpip_free_cameras_def empty_heap_def)
  qed
qed

lemma socket:
  "sys_script u = [] \<Longrightarrow> test_create_discovery_socket_no_multicast u"
  by (simp add: test_create_discovery_socket_no_multicast_def create_discovery_socket_def bind_io_def io_try_def
      udp_bind_def sys_call_def ret_def default_discovery_config_def)

lemma discovery_tests:
  assumes "byteorder_spec bo" and "inbox w = []" and "sys_script u = []"
  shows "list_all (\<lambda>b. b)
     [test_build_discovery_request bo, test_parse_valid_response bo, test_discovery_config,
      test_discovery_config_default, test_get_discovery_destinations, test_parse_discovery_response_valid bo,
      test_parse_discovery_response_invalid bo, test_discovery_ffi_functions bo w,
      test_discovery_workflow bo port d, test_parse_discovery_response_ipv6_returns_none bo,
      test_create_discovery_socket_no_multicast u, test_ptpip_free_cameras_null_safe]"
proof -
  have v6: "bind_r (parse_discovery_response bo data ipv6_loopback) (\<lambda>c. Ok (c = None)) = Ok True" for data
  proof -
    obtain c where "parse_discovery_response bo data ipv6_loopback = Ok c"
      using parse_discovery_ok [OF assms(1), of data ipv6_loopback] by (auto simp: is_ok_iff)
    moreover from this have "c = None"
      by (cases c) (auto simp: parse_discovery_response_def ipv6_loopback_def bind_r_eq_Ok Let_def split: if_splits)
    ultimately show ?thesis by simp
  qed
  have short: "parse_discovery_response bo data src = Ok None" if "length data < 14" for data src
    using that by (simp add: parse_discovery_response_def)
  show ?thesis
    using ffi_test [OF assms(1,2)] workflow_test [OF assms(1), of port d]
    unfolding unit_tests
    by (simp add: build_request [OF assms(1)] discovery_request_def test_address test_names response_parsed [OF assms(1)] v6 short
        default_discovery_config_def get_discovery_destinations_def ptpip_free_cameras_def socket [OF assms(3)])
qed

section \<open>All of them\<close>



end
